(* ===== verification/Prelude.thy ===== *)
theory Prelude
  imports Main "HOL-Library.Word"
begin

text \<open>
  What every component of the development shares: bytes, the faults a C function can run into
  (a failed \<^verbatim>\<open>assert\<close>, an access outside an object, a null pointer), results that carry a
  fault, slices of byte buffers, 32-bit big-endian numbers and the decimal notation of
  \<^verbatim>\<open>snprintf\<close>'s \<^verbatim>\<open>%u\<close>.

  A byte is a \<^typ>\<open>char\<close>, so that the literals of the code stay readable. A C function that can
  fault returns \<^theory_text>\<open>fault + 'a\<close>: \<^theory_text>\<open>Inl\<close> names the fault and the function it happens in,
  \<^theory_text>\<open>Inr\<close> carries what the function computes.
\<close>

unbundle bit_operations_syntax

named_theorems frame_simps "facts about the JPGS / JPGE framing"
named_theorems conn_defs "definitions of the connection's operations"
named_theorems step_defs "definitions of the parser's per-state steps"

section \<open>Faults\<close>

type_synonym byte = char
type_synonym bytes = "byte list"

datatype site =
    In_http_parser
  | In_connection_recv
  | In_getLatestImage
  | In_connection_open
  | In_connection_process
  | In_adapter
  | In_query_buffer
  | In_pending_requests
  | In_log

datatype fault =
    Assert_failed (fault_site: site)
  | Out_of_bounds (fault_site: site)
  | Null_pointer (fault_site: site)

type_synonym 'a res = "fault + 'a"

text \<open>Sequencing of operations that can fault: the first fault ends the run.\<close>

definition rbind :: "'a res \<Rightarrow> ('a \<Rightarrow> 'b res) \<Rightarrow> 'b res" where
  "rbind r k = (case r of Inl f \<Rightarrow> Inl f | Inr x \<Rightarrow> k x)"

lemma rbind_simps [simp]:
  "rbind (Inl f) k = Inl f"
  "rbind (Inr x) k = k x"
  by (simp_all add: rbind_def)

lemma rbind_Inr_iff: "rbind r k = Inr y \<longleftrightarrow> (\<exists>x. r = Inr x \<and> k x = Inr y)"
  by (cases r) auto

lemma rbind_Inl_iff:
  "rbind r k = Inl f \<longleftrightarrow> r = Inl f \<or> (\<exists>x. r = Inr x \<and> k x = Inl f)"
  by (cases r) auto

section \<open>Slices of byte buffers\<close>

text \<open>The \<^theory_text>\<open>n\<close> elements from offset \<^theory_text>\<open>i\<close>.\<close>

definition slice :: "nat \<Rightarrow> nat \<Rightarrow> 'a list \<Rightarrow> 'a list" where
  "slice i n xs = take n (drop i xs)"

lemma length_slice [simp]: "length (slice i n xs) = min n (length xs - i)"
  by (simp add: slice_def)

lemma slice_0 [simp]: "slice 0 n xs = take n xs"
  by (simp add: slice_def)

lemma slice_append_skip [simp]:
  "length xs = i \<Longrightarrow> slice i n (xs @ ys) = take n ys"
  by (simp add: slice_def)

lemma slice_append1: "i + n \<le> length xs \<Longrightarrow> slice i n (xs @ ys) = slice i n xs"
  by (simp add: slice_def)

lemma slice_take: "i + n \<le> k \<Longrightarrow> slice i n (take k xs) = slice i n xs"
  by (simp add: slice_def take_drop min_def)

text \<open>
  \<^verbatim>\<open>memcpy(dst + i, src, strlen)\<close> on a buffer held as a list: \<^theory_text>\<open>src\<close> replaces the bytes
  from offset \<^theory_text>\<open>i\<close>. It is only used where \<^theory_text>\<open>i + length src\<close> is within the buffer.
\<close>

definition overwrite :: "nat \<Rightarrow> 'a list \<Rightarrow> 'a list \<Rightarrow> 'a list" where
  "overwrite i src dst = take i dst @ src @ drop (i + length src) dst"

lemma length_overwrite [simp]:
  "i + length src \<le> length dst \<Longrightarrow> length (overwrite i src dst) = length dst"
  by (simp add: overwrite_def)

lemma take_overwrite:
  "i + length src \<le> length dst \<Longrightarrow>
   take (i + length src) (overwrite i src dst) = take i dst @ src"
  by (simp add: overwrite_def)

lemma take_overwrite_0 [simp]: "take (length src) (overwrite 0 src dst) = src"
  by (simp add: overwrite_def)

section \<open>Numbers on the wire\<close>

text \<open>
  \<^verbatim>\<open>ntohl\<close> of four bytes copied from a buffer: a big-endian 32-bit number, and the
  bytes a sender writes for such a number.
\<close>

definition ntohl :: "bytes \<Rightarrow> 32 word" where
  "ntohl bs = of_nat (foldl (\<lambda>acc b. 256 * acc + of_char b) 0 bs)"

definition htonl :: "32 word \<Rightarrow> bytes" where
  "htonl w = map char_of [unat w div 16777216, unat w div 65536, unat w div 256, unat w]"

lemma length_htonl [simp]: "length (htonl w) = 4"
  by (simp add: htonl_def)

lemma be_digits:
  "256 * (256 * (256 * (n div 16777216) + n div 65536 mod 256) + n div 256 mod 256)
    + n mod 256 = (n :: nat)"
proof -
  have top: "n div 16777216 = n div 65536 div 256"
    by (simp add: div_mult2_eq[symmetric])
  have mid: "n div 65536 = n div 256 div 256"
    by (simp add: div_mult2_eq[symmetric])
  show ?thesis
    unfolding top by (simp add: mid)
qed

lemma ntohl_htonl [simp]: "ntohl (htonl w) = w"
proof -
  have n: "unat w < 4294967296"
    using unsigned_less[of w, where ?'a = nat] by simp
  have "foldl (\<lambda>acc b. 256 * acc + of_char b) 0 (htonl w) = unat w"
    using be_digits[of "unat w"] n by (simp add: htonl_def of_char_of)
  then show ?thesis by (simp add: ntohl_def)
qed

text \<open>\<^verbatim>\<open>%u\<close>: the decimal digits of a number, without leading zeros.\<close>

fun decimal :: "nat \<Rightarrow> string" where
  "decimal n = (if n < 10 then [char_of (48 + n)] else decimal (n div 10) @ [char_of (48 + n mod 10)])"

declare decimal.simps [simp del]

lemma decimal_digit [simp]: "n < 10 \<Longrightarrow> decimal n = [char_of (48 + n)]"
  by (simp add: decimal.simps)

lemma decimal_nonempty [simp]: "decimal n \<noteq> []"
  by (simp add: decimal.simps[of n])

lemma length_decimal_le: "n < 10 ^ Suc k \<Longrightarrow> length (decimal n) \<le> Suc k"
proof (induction k arbitrary: n)
  case 0
  then show ?case by simp
next
  case (Suc k)
  then have "n div 10 < 10 ^ Suc k" by auto
  with Suc.IH show ?case by (simp add: decimal.simps[of n])
qed

end
