(* ===== verification/Http_Base.thy ===== *)
theory Http_Base
  imports Prelude
begin

text \<open>
  The data of the HTTP parser (\<^verbatim>\<open>src/http_parser.h\<close>, the top of \<^verbatim>\<open>src/http_parser.c\<close>): its
  enumerations as datatypes, the struct \<^verbatim>\<open>http_parser\<close> as a record whose integers keep the
  width of the C bit fields, the character tables and the character-class macros in strict
  mode (\<^verbatim>\<open>HTTP_PARSER_STRICT\<close> is 1 unless the build says otherwise, and this build does not).

  A parser that was only zeroed (\<^verbatim>\<open>bzero\<close>) has the state number 0, which no enumerator has;
  the constructor \<^theory_text>\<open>s_zero\<close> stands for it.
\<close>

section \<open>Enumerations\<close>

datatype http_method =
    HTTP_DELETE | HTTP_GET | HTTP_HEAD | HTTP_POST
  | HTTP_PUT | HTTP_CONNECT | HTTP_OPTIONS | HTTP_TRACE
  | HTTP_COPY | HTTP_LOCK | HTTP_MKCOL | HTTP_MOVE
  | HTTP_PROPFIND | HTTP_PROPPATCH | HTTP_SEARCH | HTTP_UNLOCK
  | HTTP_REPORT | HTTP_MKACTIVITY | HTTP_CHECKOUT | HTTP_MERGE
  | HTTP_MSEARCH | HTTP_NOTIFY | HTTP_SUBSCRIBE | HTTP_UNSUBSCRIBE
  | HTTP_PATCH | HTTP_PURGE

definition method_string :: "http_method \<Rightarrow> string" where
  "method_string m = (case m of
     HTTP_DELETE \<Rightarrow> ''DELETE''
   | HTTP_GET \<Rightarrow> ''GET''
   | HTTP_HEAD \<Rightarrow> ''HEAD''
   | HTTP_POST \<Rightarrow> ''POST''
   | HTTP_PUT \<Rightarrow> ''PUT''
   | HTTP_CONNECT \<Rightarrow> ''CONNECT''
   | HTTP_OPTIONS \<Rightarrow> ''OPTIONS''
   | HTTP_TRACE \<Rightarrow> ''TRACE''
   | HTTP_COPY \<Rightarrow> ''COPY''
   | HTTP_LOCK \<Rightarrow> ''LOCK''
   | HTTP_MKCOL \<Rightarrow> ''MKCOL''
   | HTTP_MOVE \<Rightarrow> ''MOVE''
   | HTTP_PROPFIND \<Rightarrow> ''PROPFIND''
   | HTTP_PROPPATCH \<Rightarrow> ''PROPPATCH''
   | HTTP_SEARCH \<Rightarrow> ''SEARCH''
   | HTTP_UNLOCK \<Rightarrow> ''UNLOCK''
   | HTTP_REPORT \<Rightarrow> ''REPORT''
   | HTTP_MKACTIVITY \<Rightarrow> ''MKACTIVITY''
   | HTTP_CHECKOUT \<Rightarrow> ''CHECKOUT''
   | HTTP_MERGE \<Rightarrow> ''MERGE''
   | HTTP_MSEARCH \<Rightarrow> ''M-SEARCH''
   | HTTP_NOTIFY \<Rightarrow> ''NOTIFY''
   | HTTP_SUBSCRIBE \<Rightarrow> ''SUBSCRIBE''
   | HTTP_UNSUBSCRIBE \<Rightarrow> ''UNSUBSCRIBE''
   | HTTP_PATCH \<Rightarrow> ''PATCH''
   | HTTP_PURGE \<Rightarrow> ''PURGE'')"

datatype http_parser_type =
    HTTP_REQUEST | HTTP_RESPONSE | HTTP_BOTH

datatype http_errno =
    HPE_OK | HPE_CB_message_begin | HPE_CB_status_complete
  | HPE_CB_url | HPE_CB_header_field | HPE_CB_header_value
  | HPE_CB_headers_complete | HPE_CB_body | HPE_CB_message_complete
  | HPE_INVALID_EOF_STATE | HPE_HEADER_OVERFLOW | HPE_CLOSED_CONNECTION
  | HPE_INVALID_VERSION | HPE_INVALID_STATUS | HPE_INVALID_METHOD
  | HPE_INVALID_URL | HPE_INVALID_HOST | HPE_INVALID_PORT
  | HPE_INVALID_PATH | HPE_INVALID_QUERY_STRING | HPE_INVALID_FRAGMENT
  | HPE_LF_EXPECTED | HPE_INVALID_HEADER_TOKEN | HPE_INVALID_CONTENT_LENGTH
  | HPE_INVALID_CHUNK_SIZE | HPE_INVALID_CONSTANT | HPE_INVALID_INTERNAL_STATE
  | HPE_STRICT | HPE_PAUSED | HPE_UNKNOWN

definition http_errno_name :: "http_errno \<Rightarrow> string" where
  "http_errno_name e = (case e of
     HPE_OK \<Rightarrow> ''HPE_OK''
   | HPE_CB_message_begin \<Rightarrow> ''HPE_CB_message_begin''
   | HPE_CB_status_complete \<Rightarrow> ''HPE_CB_status_complete''
   | HPE_CB_url \<Rightarrow> ''HPE_CB_url''
   | HPE_CB_header_field \<Rightarrow> ''HPE_CB_header_field''
   | HPE_CB_header_value \<Rightarrow> ''HPE_CB_header_value''
   | HPE_CB_headers_complete \<Rightarrow> ''HPE_CB_headers_complete''
   | HPE_CB_body \<Rightarrow> ''HPE_CB_body''
   | HPE_CB_message_complete \<Rightarrow> ''HPE_CB_message_complete''
   | HPE_INVALID_EOF_STATE \<Rightarrow> ''HPE_INVALID_EOF_STATE''
   | HPE_HEADER_OVERFLOW \<Rightarrow> ''HPE_HEADER_OVERFLOW''
   | HPE_CLOSED_CONNECTION \<Rightarrow> ''HPE_CLOSED_CONNECTION''
   | HPE_INVALID_VERSION \<Rightarrow> ''HPE_INVALID_VERSION''
   | HPE_INVALID_STATUS \<Rightarrow> ''HPE_INVALID_STATUS''
   | HPE_INVALID_METHOD \<Rightarrow> ''HPE_INVALID_METHOD''
   | HPE_INVALID_URL \<Rightarrow> ''HPE_INVALID_URL''
   | HPE_INVALID_HOST \<Rightarrow> ''HPE_INVALID_HOST''
   | HPE_INVALID_PORT \<Rightarrow> ''HPE_INVALID_PORT''
   | HPE_INVALID_PATH \<Rightarrow> ''HPE_INVALID_PATH''
   | HPE_INVALID_QUERY_STRING \<Rightarrow> ''HPE_INVALID_QUERY_STRING''
   | HPE_INVALID_FRAGMENT \<Rightarrow> ''HPE_INVALID_FRAGMENT''
   | HPE_LF_EXPECTED \<Rightarrow> ''HPE_LF_EXPECTED''
   | HPE_INVALID_HEADER_TOKEN \<Rightarrow> ''HPE_INVALID_HEADER_TOKEN''
   | HPE_INVALID_CONTENT_LENGTH \<Rightarrow> ''HPE_INVALID_CONTENT_LENGTH''
   | HPE_INVALID_CHUNK_SIZE \<Rightarrow> ''HPE_INVALID_CHUNK_SIZE''
   | HPE_INVALID_CONSTANT \<Rightarrow> ''HPE_INVALID_CONSTANT''
   | HPE_INVALID_INTERNAL_STATE \<Rightarrow> ''HPE_INVALID_INTERNAL_STATE''
   | HPE_STRICT \<Rightarrow> ''HPE_STRICT''
   | HPE_PAUSED \<Rightarrow> ''HPE_PAUSED''
   | HPE_UNKNOWN \<Rightarrow> ''HPE_UNKNOWN'')"

definition http_errno_description :: "http_errno \<Rightarrow> string" where
  "http_errno_description e = (case e of
     HPE_OK \<Rightarrow> ''success''
   | HPE_CB_message_begin \<Rightarrow> ''the on_message_begin callback failed''
   | HPE_CB_status_complete \<Rightarrow> ''the on_status_complete callback failed''
   | HPE_CB_url \<Rightarrow> ''the on_url callback failed''
   | HPE_CB_header_field \<Rightarrow> ''the on_header_field callback failed''
   | HPE_CB_header_value \<Rightarrow> ''the on_header_value callback failed''
   | HPE_CB_headers_complete \<Rightarrow> ''the on_headers_complete callback failed''
   | HPE_CB_body \<Rightarrow> ''the on_body callback failed''
   | HPE_CB_message_complete \<Rightarrow> ''the on_message_complete callback failed''
   | HPE_INVALID_EOF_STATE \<Rightarrow> ''stream ended at an unexpected time''
   | HPE_HEADER_OVERFLOW \<Rightarrow> ''too many header bytes seen; overflow detected''
   | HPE_CLOSED_CONNECTION \<Rightarrow> ''data received after completed connection: close message''
   | HPE_INVALID_VERSION \<Rightarrow> ''invalid HTTP version''
   | HPE_INVALID_STATUS \<Rightarrow> ''invalid HTTP status code''
   | HPE_INVALID_METHOD \<Rightarrow> ''invalid HTTP method''
   | HPE_INVALID_URL \<Rightarrow> ''invalid URL''
   | HPE_INVALID_HOST \<Rightarrow> ''invalid host''
   | HPE_INVALID_PORT \<Rightarrow> ''invalid port''
   | HPE_INVALID_PATH \<Rightarrow> ''invalid path''
   | HPE_INVALID_QUERY_STRING \<Rightarrow> ''invalid query string''
   | HPE_INVALID_FRAGMENT \<Rightarrow> ''invalid fragment''
   | HPE_LF_EXPECTED \<Rightarrow> ''LF character expected''
   | HPE_INVALID_HEADER_TOKEN \<Rightarrow> ''invalid character in header''
   | HPE_INVALID_CONTENT_LENGTH \<Rightarrow> ''invalid character in content-length header''
   | HPE_INVALID_CHUNK_SIZE \<Rightarrow> ''invalid character in chunk size header''
   | HPE_INVALID_CONSTANT \<Rightarrow> ''invalid constant string''
   | HPE_INVALID_INTERNAL_STATE \<Rightarrow> ''encountered unexpected internal state''
   | HPE_STRICT \<Rightarrow> ''strict mode assertion failed''
   | HPE_PAUSED \<Rightarrow> ''parser is paused''
   | HPE_UNKNOWN \<Rightarrow> ''an unknown error occurred'')"

datatype state =
    s_zero | s_dead | s_start_req_or_res
  | s_res_or_resp_H | s_start_res | s_res_H
  | s_res_HT | s_res_HTT | s_res_HTTP
  | s_res_first_http_major | s_res_http_major | s_res_first_http_minor
  | s_res_http_minor | s_res_first_status_code | s_res_status_code
  | s_res_status | s_res_line_almost_done | s_start_req
  | s_req_method | s_req_spaces_before_url | s_req_schema
  | s_req_schema_slash | s_req_schema_slash_slash | s_req_server_start
  | s_req_server | s_req_server_with_at | s_req_path
  | s_req_query_string_start | s_req_query_string | s_req_fragment_start
  | s_req_fragment | s_req_http_start | s_req_http_H
  | s_req_http_HT | s_req_http_HTT | s_req_http_HTTP
  | s_req_first_http_major | s_req_http_major | s_req_first_http_minor
  | s_req_http_minor | s_req_line_almost_done | s_header_field_start
  | s_header_field | s_header_value_start | s_header_value
  | s_header_value_lws | s_header_almost_done | s_chunk_size_start
  | s_chunk_size | s_chunk_parameters | s_chunk_size_almost_done
  | s_headers_almost_done | s_headers_done | s_chunk_data
  | s_chunk_data_almost_done | s_chunk_data_done | s_body_identity
  | s_body_identity_eof | s_message_done

datatype header_states =
    h_general | h_C | h_CO
  | h_CON | h_matching_connection | h_matching_proxy_connection
  | h_matching_content_length | h_matching_transfer_encoding | h_matching_upgrade
  | h_connection | h_content_length | h_transfer_encoding
  | h_upgrade | h_matching_transfer_encoding_chunked | h_matching_connection_keep_alive
  | h_matching_connection_close | h_transfer_encoding_chunked | h_connection_keep_alive
  | h_connection_close

text \<open>The numbers C gives the enumerators of \<^verbatim>\<open>enum state\<close>, and the order \<^verbatim>\<open><=\<close> compares them in.\<close>

fun state_num :: "state \<Rightarrow> nat" where
  "state_num s_zero = 0"
| "state_num s_dead = 1"
| "state_num s_start_req_or_res = 2"
| "state_num s_res_or_resp_H = 3"
| "state_num s_start_res = 4"
| "state_num s_res_H = 5"
| "state_num s_res_HT = 6"
| "state_num s_res_HTT = 7"
| "state_num s_res_HTTP = 8"
| "state_num s_res_first_http_major = 9"
| "state_num s_res_http_major = 10"
| "state_num s_res_first_http_minor = 11"
| "state_num s_res_http_minor = 12"
| "state_num s_res_first_status_code = 13"
| "state_num s_res_status_code = 14"
| "state_num s_res_status = 15"
| "state_num s_res_line_almost_done = 16"
| "state_num s_start_req = 17"
| "state_num s_req_method = 18"
| "state_num s_req_spaces_before_url = 19"
| "state_num s_req_schema = 20"
| "state_num s_req_schema_slash = 21"
| "state_num s_req_schema_slash_slash = 22"
| "state_num s_req_server_start = 23"
| "state_num s_req_server = 24"
| "state_num s_req_server_with_at = 25"
| "state_num s_req_path = 26"
| "state_num s_req_query_string_start = 27"
| "state_num s_req_query_string = 28"
| "state_num s_req_fragment_start = 29"
| "state_num s_req_fragment = 30"
| "state_num s_req_http_start = 31"
| "state_num s_req_http_H = 32"
| "state_num s_req_http_HT = 33"
| "state_num s_req_http_HTT = 34"
| "state_num s_req_http_HTTP = 35"
| "state_num s_req_first_http_major = 36"
| "state_num s_req_http_major = 37"
| "state_num s_req_first_http_minor = 38"
| "state_num s_req_http_minor = 39"
| "state_num s_req_line_almost_done = 40"
| "state_num s_header_field_start = 41"
| "state_num s_header_field = 42"
| "state_num s_header_value_start = 43"
| "state_num s_header_value = 44"
| "state_num s_header_value_lws = 45"
| "state_num s_header_almost_done = 46"
| "state_num s_chunk_size_start = 47"
| "state_num s_chunk_size = 48"
| "state_num s_chunk_parameters = 49"
| "state_num s_chunk_size_almost_done = 50"
| "state_num s_headers_almost_done = 51"
| "state_num s_headers_done = 52"
| "state_num s_chunk_data = 53"
| "state_num s_chunk_data_almost_done = 54"
| "state_num s_chunk_data_done = 55"
| "state_num s_body_identity = 56"
| "state_num s_body_identity_eof = 57"
| "state_num s_message_done = 58"

definition state_list :: "state list" where
  "state_list = [
     s_zero, s_dead, s_start_req_or_res, s_res_or_resp_H,
     s_start_res, s_res_H, s_res_HT, s_res_HTT,
     s_res_HTTP, s_res_first_http_major, s_res_http_major, s_res_first_http_minor,
     s_res_http_minor, s_res_first_status_code, s_res_status_code, s_res_status,
     s_res_line_almost_done, s_start_req, s_req_method, s_req_spaces_before_url,
     s_req_schema, s_req_schema_slash, s_req_schema_slash_slash, s_req_server_start,
     s_req_server, s_req_server_with_at, s_req_path, s_req_query_string_start,
     s_req_query_string, s_req_fragment_start, s_req_fragment, s_req_http_start,
     s_req_http_H, s_req_http_HT, s_req_http_HTT, s_req_http_HTTP,
     s_req_first_http_major, s_req_http_major, s_req_first_http_minor, s_req_http_minor,
     s_req_line_almost_done, s_header_field_start, s_header_field, s_header_value_start,
     s_header_value, s_header_value_lws, s_header_almost_done, s_chunk_size_start,
     s_chunk_size, s_chunk_parameters, s_chunk_size_almost_done, s_headers_almost_done,
     s_headers_done, s_chunk_data, s_chunk_data_almost_done, s_chunk_data_done,
     s_body_identity, s_body_identity_eof, s_message_done]"

lemma state_list_nth: "state_list ! state_num s = s"
  by (cases s) (simp_all add: state_list_def)

lemma state_num_inject: "state_num s = state_num t \<longleftrightarrow> s = t"
  by (metis state_list_nth)

instantiation state :: linorder
begin

definition less_eq_state :: "state \<Rightarrow> state \<Rightarrow> bool" where
  "less_eq_state s t \<longleftrightarrow> state_num s \<le> state_num t"

definition less_state :: "state \<Rightarrow> state \<Rightarrow> bool" where
  "less_state s t \<longleftrightarrow> state_num s < state_num t"

instance
  by standard (auto simp: less_eq_state_def less_state_def state_num_inject)

end

definition PARSING_HEADER :: "state \<Rightarrow> bool" where
  "PARSING_HEADER s \<longleftrightarrow> s \<le> s_headers_done"

lemma PARSING_HEADER_simp [simp]: "PARSING_HEADER s \<longleftrightarrow> state_num s \<le> 52"
  by (simp add: PARSING_HEADER_def less_eq_state_def)

section \<open>The parser\<close>

type_synonym addr = "nat option" \<comment> \<open>an address; \<^theory_text>\<open>None\<close> is the null pointer\<close>

record http_parser =
  hp_type :: http_parser_type
  hp_flags :: "6 word"
  hp_state :: state
  hp_header_state :: header_states
  hp_index :: "8 word"
  hp_nread :: "32 word"
  hp_content_length :: "64 word"
  hp_http_major :: "16 word"
  hp_http_minor :: "16 word"
  hp_status_code :: "16 word"
  hp_method :: http_method
  hp_errno :: http_errno
  hp_upgrade :: bool
  hp_data :: addr

definition HTTP_MAX_HEADER_SIZE :: nat where
  "HTTP_MAX_HEADER_SIZE = 80 * 1024"

definition ULLONG_MAX :: "64 word" where
  "ULLONG_MAX = - 1"

text \<open>The flag bits of \<^verbatim>\<open>enum flags\<close>.\<close>

definition F_CHUNKED :: "6 word" where "F_CHUNKED = 1"
definition F_CONNECTION_KEEP_ALIVE :: "6 word" where "F_CONNECTION_KEEP_ALIVE = 2"
definition F_CONNECTION_CLOSE :: "6 word" where "F_CONNECTION_CLOSE = 4"
definition F_TRAILING :: "6 word" where "F_TRAILING = 8"
definition F_UPGRADE :: "6 word" where "F_UPGRADE = 16"
definition F_SKIPBODY :: "6 word" where "F_SKIPBODY = 32"

definition has_flag :: "6 word \<Rightarrow> http_parser \<Rightarrow> bool" where
  "has_flag f p \<longleftrightarrow> hp_flags p AND f \<noteq> 0"

definition set_flag :: "6 word \<Rightarrow> http_parser \<Rightarrow> http_parser" where
  "set_flag f p = p\<lparr>hp_flags := hp_flags p OR f\<rparr>"

definition zeroed_parser :: http_parser where
  "zeroed_parser = \<lparr>hp_type = HTTP_REQUEST, hp_flags = 0, hp_state = s_zero, hp_header_state = h_general,
     hp_index = 0, hp_nread = 0, hp_content_length = 0, hp_http_major = 0, hp_http_minor = 0,
     hp_status_code = 0, hp_method = HTTP_DELETE, hp_errno = HPE_OK, hp_upgrade = False,
     hp_data = None\<rparr>"

definition http_parser_init :: "http_parser \<Rightarrow> http_parser_type \<Rightarrow> http_parser" where
  "http_parser_init parser t = zeroed_parser\<lparr>
     hp_data := hp_data parser,
     hp_type := t,
     hp_state := (if t = HTTP_REQUEST then s_start_req
                  else if t = HTTP_RESPONSE then s_start_res else s_start_req_or_res),
     hp_errno := HPE_OK\<rparr>"

section \<open>Character tables and classes\<close>

abbreviation NUL :: byte where "NUL \<equiv> CHR 0x00"
abbreviation HT :: byte where "HT \<equiv> CHR 0x09"
abbreviation LF :: byte where "LF \<equiv> CHR 0x0A"
abbreviation FF :: byte where "FF \<equiv> CHR 0x0C"
abbreviation CR :: byte where "CR \<equiv> CHR 0x0D"
abbreviation SP :: byte where "SP \<equiv> CHR 0x20"

abbreviation ord_of :: "byte \<Rightarrow> nat" where "ord_of \<equiv> of_char"

text \<open>C arrays with fewer initialisers than elements: the rest is zero.\<close>

definition tokens :: "byte list" where
  "tokens = replicate 33 NUL @ ''!'' @ [NUL] @ ''#$%&'' @ [CHR 0x27] @ replicate 2 NUL @
     ''*+'' @ [NUL] @ ''-.'' @ [NUL] @ ''0123456789'' @ replicate 7 NUL @
     ''abcdefghijklmnopqrstuvwxyz'' @ replicate 3 NUL @ ''^_'' @ [CHR 0x60] @
     ''abcdefghijklmnopqrstuvwxyz'' @ [NUL] @ ''|'' @ [NUL] @ ''~'' @ [NUL]
   @ replicate 128 NUL"

definition unhex :: "int list" where
  "unhex = [
     - 1, - 1, - 1, - 1, - 1, - 1, - 1, - 1, - 1, - 1, - 1, - 1, - 1, - 1, - 1, - 1,
     - 1, - 1, - 1, - 1, - 1, - 1, - 1, - 1, - 1, - 1, - 1, - 1, - 1, - 1, - 1, - 1,
     - 1, - 1, - 1, - 1, - 1, - 1, - 1, - 1, - 1, - 1, - 1, - 1, - 1, - 1, - 1, - 1,
     0, 1, 2, 3, 4, 5, 6, 7, 8, 9, - 1, - 1, - 1, - 1, - 1, - 1,
     - 1, 10, 11, 12, 13, 14, 15, - 1, - 1, - 1, - 1, - 1, - 1, - 1, - 1, - 1,
     - 1, - 1, - 1, - 1, - 1, - 1, - 1, - 1, - 1, - 1, - 1, - 1, - 1, - 1, - 1, - 1,
     - 1, 10, 11, 12, 13, 14, 15, - 1, - 1, - 1, - 1, - 1, - 1, - 1, - 1, - 1,
     - 1, - 1, - 1, - 1, - 1, - 1, - 1, - 1, - 1, - 1, - 1, - 1, - 1, - 1, - 1, - 1]
   @ replicate 128 0"

text \<open>Each row gives the eight bits of one byte of the table, joined by \<^verbatim>\<open>|\<close>; in strict mode \<^verbatim>\<open>T(v)\<close> is 0.\<close>

definition normal_url_char :: "8 word list" where
  "normal_url_char = map (\<lambda>row. foldl (OR) 0 row) [
     [0, 0, 0, 0, 0, 0, 0, 0],
     [0, 0, 0, 0, 0, 0, 0, 0],
     [0, 0, 0, 0, 0, 0, 0, 0],
     [0, 0, 0, 0, 0, 0, 0, 0],
     [0, 2, 4, 0, 16, 32, 64, 128],
     [1, 2, 4, 8, 16, 32, 64, 128],
     [1, 2, 4, 8, 16, 32, 64, 128],
     [1, 2, 4, 8, 16, 32, 64, 0],
     [1, 2, 4, 8, 16, 32, 64, 128],
     [1, 2, 4, 8, 16, 32, 64, 128],
     [1, 2, 4, 8, 16, 32, 64, 128],
     [1, 2, 4, 8, 16, 32, 64, 128],
     [1, 2, 4, 8, 16, 32, 64, 128],
     [1, 2, 4, 8, 16, 32, 64, 128],
     [1, 2, 4, 8, 16, 32, 64, 128],
     [1, 2, 4, 8, 16, 32, 64, 0]]
   @ replicate 16 0"

definition BIT_AT :: "8 word list \<Rightarrow> nat \<Rightarrow> bool" where
  "BIT_AT a i \<longleftrightarrow> (a ! (i div 8)) AND push_bit (i mod 8) 1 \<noteq> 0"

text \<open>\<^verbatim>\<open>LOWER(c)\<close> is \<^verbatim>\<open>c | 0x20\<close>: it sets bit 5 of the byte.\<close>

definition LOWER :: "byte \<Rightarrow> byte" where
  "LOWER c = (case c of Char b0 b1 b2 b3 b4 b5 b6 b7 \<Rightarrow> Char b0 b1 b2 b3 b4 True b6 b7)"

definition IS_ALPHA :: "byte \<Rightarrow> bool" where
  "IS_ALPHA c \<longleftrightarrow> ord_of CHR ''a'' \<le> ord_of (LOWER c) \<and> ord_of (LOWER c) \<le> ord_of CHR ''z''"

definition IS_NUM :: "byte \<Rightarrow> bool" where
  "IS_NUM c \<longleftrightarrow> ord_of CHR ''0'' \<le> ord_of c \<and> ord_of c \<le> ord_of CHR ''9''"

definition IS_ALPHANUM :: "byte \<Rightarrow> bool" where
  "IS_ALPHANUM c \<longleftrightarrow> IS_ALPHA c \<or> IS_NUM c"

definition IS_HEX :: "byte \<Rightarrow> bool" where
  "IS_HEX c \<longleftrightarrow> IS_NUM c \<or>
     (ord_of CHR ''a'' \<le> ord_of (LOWER c) \<and> ord_of (LOWER c) \<le> ord_of CHR ''f'')"

definition IS_MARK :: "byte \<Rightarrow> bool" where
  "IS_MARK c \<longleftrightarrow> c = CHR ''-'' \<or> c = CHR ''_'' \<or> c = CHR ''.'' \<or> c = CHR ''!'' \<or> c = CHR ''~'' \<or>
     c = CHR ''*'' \<or> c = CHR 0x27 \<or> c = CHR ''('' \<or> c = CHR '')''"

definition IS_USERINFO_CHAR :: "byte \<Rightarrow> bool" where
  "IS_USERINFO_CHAR c \<longleftrightarrow> IS_ALPHANUM c \<or> IS_MARK c \<or> c = CHR ''%'' \<or> c = CHR '';'' \<or>
     c = CHR '':'' \<or> c = CHR ''&'' \<or> c = CHR ''='' \<or> c = CHR ''+'' \<or> c = CHR ''$'' \<or> c = CHR '',''"

definition TOKEN :: "byte \<Rightarrow> byte" where
  "TOKEN c = tokens ! ord_of c"

definition IS_URL_CHAR :: "byte \<Rightarrow> bool" where
  "IS_URL_CHAR c \<longleftrightarrow> BIT_AT normal_url_char (ord_of c)"

definition IS_HOST_CHAR :: "byte \<Rightarrow> bool" where
  "IS_HOST_CHAR c \<longleftrightarrow> IS_ALPHANUM c \<or> c = CHR ''.'' \<or> c = CHR ''-''"

text \<open>\<^verbatim>\<open>ch - '0'\<close> for a digit.\<close>

definition digit_val :: "byte \<Rightarrow> nat" where
  "digit_val c = ord_of c - ord_of CHR ''0''"

section \<open>Questions about a message\<close>

definition start_state :: "http_parser \<Rightarrow> state" where
  "start_state p = (if hp_type p = HTTP_REQUEST then s_start_req else s_start_res)"

definition http_message_needs_eof :: "http_parser \<Rightarrow> bool" where
  "http_message_needs_eof p =
     (if hp_type p = HTTP_REQUEST then False
      else if hp_status_code p div 100 = 1 \<or> hp_status_code p = 204 \<or> hp_status_code p = 304 \<or>
              has_flag F_SKIPBODY p then False
      else if has_flag F_CHUNKED p \<or> hp_content_length p \<noteq> ULLONG_MAX then False
      else True)"

definition http_should_keep_alive :: "http_parser \<Rightarrow> bool" where
  "http_should_keep_alive p =
     (if hp_http_major p > 0 \<and> hp_http_minor p > 0
      then (if has_flag F_CONNECTION_CLOSE p then False else \<not> http_message_needs_eof p)
      else (if \<not> has_flag F_CONNECTION_KEEP_ALIVE p then False else \<not> http_message_needs_eof p))"

definition NEW_MESSAGE :: "http_parser \<Rightarrow> state" where
  "NEW_MESSAGE p = (if http_should_keep_alive p then start_state p else s_dead)"

definition http_body_is_final :: "http_parser \<Rightarrow> bool" where
  "http_body_is_final p \<longleftrightarrow> hp_state p = s_message_done"

definition http_method_str :: "http_method \<Rightarrow> string" where
  "http_method_str m = method_string m"

text \<open>Pausing a parser that is in an error state fails an assertion.\<close>

definition http_parser_pause :: "http_parser \<Rightarrow> bool \<Rightarrow> http_parser res" where
  "http_parser_pause p paused =
     (if hp_errno p = HPE_OK \<or> hp_errno p = HPE_PAUSED
      then Inr (p\<lparr>hp_errno := (if paused then HPE_PAUSED else HPE_OK)\<rparr>)
      else Inl (Assert_failed In_http_parser))"

end
