(* ===== verification/Http_Url.thy ===== *)
theory Http_Url
  imports Http_Base
begin

text \<open>
  The URL state machine \<^verbatim>\<open>parse_url_char\<close> of \<^verbatim>\<open>src/http_parser.c\<close>, shared by the request
  parser and by \<^verbatim>\<open>http_parser_parse_url\<close>.
\<close>

text \<open>The part the three server states share (the fall-through of \<^verbatim>\<open>s_req_server_with_at\<close>).\<close>

definition parse_server_char :: "byte \<Rightarrow> state" where
  "parse_server_char ch =
     (if ch = CHR ''/'' then s_req_path
      else if ch = CHR ''?'' then s_req_query_string_start
      else if ch = CHR ''@'' then s_req_server_with_at
      else if IS_USERINFO_CHAR ch \<or> ch = CHR ''['' \<or> ch = CHR '']'' then s_req_server
      else s_dead)"

definition parse_query_char :: "byte \<Rightarrow> state" where
  "parse_query_char ch =
     (if IS_URL_CHAR ch then s_req_query_string
      else if ch = CHR ''?'' then s_req_query_string
      else if ch = CHR ''#'' then s_req_fragment_start
      else s_dead)"

definition parse_url_char :: "state \<Rightarrow> byte \<Rightarrow> state" where
  "parse_url_char s ch =
     (if ch = SP \<or> ch = CR \<or> ch = LF then s_dead
      else if ch = HT \<or> ch = FF then s_dead
      else case s of
        s_req_spaces_before_url \<Rightarrow>
          (if ch = CHR ''/'' \<or> ch = CHR ''*'' then s_req_path
           else if IS_ALPHA ch then s_req_schema
           else s_dead)
      | s_req_schema \<Rightarrow>
          (if IS_ALPHA ch then s
           else if ch = CHR '':'' then s_req_schema_slash
           else s_dead)
      | s_req_schema_slash \<Rightarrow> (if ch = CHR ''/'' then s_req_schema_slash_slash else s_dead)
      | s_req_schema_slash_slash \<Rightarrow> (if ch = CHR ''/'' then s_req_server_start else s_dead)
      | s_req_server_with_at \<Rightarrow> (if ch = CHR ''@'' then s_dead else parse_server_char ch)
      | s_req_server_start \<Rightarrow> parse_server_char ch
      | s_req_server \<Rightarrow> parse_server_char ch
      | s_req_path \<Rightarrow>
          (if IS_URL_CHAR ch then s
           else if ch = CHR ''?'' then s_req_query_string_start
           else if ch = CHR ''#'' then s_req_fragment_start
           else s_dead)
      | s_req_query_string_start \<Rightarrow> parse_query_char ch
      | s_req_query_string \<Rightarrow> parse_query_char ch
      | s_req_fragment_start \<Rightarrow>
          (if IS_URL_CHAR ch then s_req_fragment
           else if ch = CHR ''?'' then s_req_fragment
           else if ch = CHR ''#'' then s
           else s_dead)
      | s_req_fragment \<Rightarrow>
          (if IS_URL_CHAR ch then s
           else if ch = CHR ''?'' \<or> ch = CHR ''#'' then s
           else s_dead)
      | _ \<Rightarrow> s_dead)"

text \<open>The states inside a URL.\<close>

definition url_states :: "state list" where
  "url_states = [s_req_schema, s_req_schema_slash, s_req_schema_slash_slash, s_req_server_start,
     s_req_server, s_req_server_with_at, s_req_path, s_req_query_string_start, s_req_query_string,
     s_req_fragment_start, s_req_fragment]"

lemma parse_server_char_states:
  "parse_server_char ch \<in> {s_req_path, s_req_query_string_start, s_req_server_with_at, s_req_server, s_dead}"
  by (simp add: parse_server_char_def)

lemma parse_query_char_states:
  "parse_query_char ch \<in> {s_req_query_string, s_req_fragment_start, s_dead}"
  by (simp add: parse_query_char_def)

text \<open>A byte of a URL leads to a state inside the URL, or to \<^verbatim>\<open>s_dead\<close>.\<close>

lemma parse_url_char_states: "parse_url_char s ch = s_dead \<or> parse_url_char s ch \<in> set url_states"
  using parse_server_char_states[of ch] parse_query_char_states[of ch]
  by (cases s) (auto simp: parse_url_char_def url_states_def)

end
