(* ===== verification/C_Strings.thy ===== *)
theory C_Strings
  imports Http_Base
begin

text \<open>
  The one function of C's library that both the URL parser and the adapter rest on: \<^verbatim>\<open>strtoul\<close> with
  base 10, and that it reads back the decimal notation of \<^verbatim>\<open>%u\<close>.
\<close>

definition isspace :: "byte \<Rightarrow> bool" where
  "isspace c \<longleftrightarrow> c = SP \<or> (9 \<le> ord_of c \<and> ord_of c \<le> 13)"

definition digits_value :: "bytes \<Rightarrow> nat" where
  "digits_value ds = foldl (\<lambda>a d. 10 * a + digit_val d) 0 ds"

definition strip_sign :: "bytes \<Rightarrow> bool \<times> bytes" where
  "strip_sign s = (case s of
      [] \<Rightarrow> (False, [])
    | c # r \<Rightarrow> if c = CHR ''-'' then (True, r) else if c = CHR ''+'' then (False, r) else (False, s))"

text \<open>
  \<^verbatim>\<open>strtoul(s, &endptr, 10)\<close> with a 64-bit \<^verbatim>\<open>unsigned long\<close>: the value, the bytes from
  \<^verbatim>\<open>endptr\<close> on, and whether \<^verbatim>\<open>errno\<close> is set.
\<close>

definition strtoul :: "bytes \<Rightarrow> nat \<times> bytes \<times> bool" where
  "strtoul s =
     (let (neg, t) = strip_sign (dropWhile isspace s);
          ds = takeWhile IS_NUM t;
          v = digits_value ds
      in if ds = [] then (0, s, False)
         else if 2 ^ 64 \<le> v then (2 ^ 64 - 1, dropWhile IS_NUM t, True)
         else ((if neg then (2 ^ 64 - v) mod 2 ^ 64 else v), dropWhile IS_NUM t, False))"

section \<open>Numbers in decimal\<close>

lemma digit_char: "d < 10 \<Longrightarrow> IS_NUM (char_of (48 + d)) \<and> digit_val (char_of (48 + d)) = d"
  by (simp add: IS_NUM_def digit_val_def)

lemma digit_literals:
  "char_of (48::nat) = CHR ''0''" "char_of (49::nat) = CHR ''1''" "char_of (50::nat) = CHR ''2''" "char_of (51::nat) = CHR ''3''"
  "char_of (52::nat) = CHR ''4''" "char_of (53::nat) = CHR ''5''" "char_of (54::nat) = CHR ''6''" "char_of (55::nat) = CHR ''7''"
  "char_of (56::nat) = CHR ''8''" "char_of (57::nat) = CHR ''9''"
  by (simp_all add: char_of_def bit_iff_odd)

lemma decimal_digits: "\<forall>c\<in>set (decimal n). IS_NUM c"
proof (induction n rule: decimal.induct)
  case (1 n)
  then show ?case using digit_char[of n] digit_char[of "n mod 10"] by (subst decimal.simps) auto
qed

lemma digits_value_snoc: "digits_value (ds @ [d]) = 10 * digits_value ds + digit_val d"
  by (simp add: digits_value_def)

lemma digits_value_decimal: "digits_value (decimal n) = n"
proof (induction n rule: decimal.induct)
  case (1 n)
  show ?case
  proof (cases "n < 10")
    case True
    then show ?thesis using digit_char[of n] by (simp add: digits_value_def)
  next
    case False
    with 1 digit_char[of "n mod 10"] show ?thesis by (subst decimal.simps) (simp add: digits_value_snoc)
  qed
qed

lemma digit_not_space: "IS_NUM c \<Longrightarrow> \<not> isspace c \<and> c \<noteq> CHR ''-'' \<and> c \<noteq> CHR ''+''"
  by (auto simp: IS_NUM_def isspace_def)

lemma strtoul_any_digits:
  assumes "ds \<noteq> []" "\<forall>d\<in>set ds. IS_NUM d" "\<not> IS_NUM c"
  shows "strtoul (ds @ c # rest) =
    ((if digits_value ds < 2 ^ 64 then digits_value ds else 2 ^ 64 - 1), c # rest, \<not> digits_value ds < 2 ^ 64)"
proof -
  obtain e es where e: "ds = e # es" using assms(1) by (cases ds) auto
  then have "strip_sign (dropWhile isspace (ds @ c # rest)) = (False, ds @ c # rest)"
    using digit_not_space[of e] assms(2) by (simp add: strip_sign_def)
  moreover have "takeWhile IS_NUM (ds @ c # rest) = ds" and "dropWhile IS_NUM (ds @ c # rest) = c # rest"
    using assms(2,3) by (simp_all add: takeWhile_append dropWhile_append)
  ultimately show ?thesis using assms(1) by (simp add: strtoul_def Let_def)
qed

lemma strtoul_digits:
  "ds \<noteq> [] \<Longrightarrow> \<forall>d\<in>set ds. IS_NUM d \<Longrightarrow> digits_value ds < 2 ^ 64 \<Longrightarrow> \<not> IS_NUM c \<Longrightarrow>
   strtoul (ds @ c # rest) = (digits_value ds, c # rest, False)"
  by (simp add: strtoul_any_digits)

lemma strtoul_of_decimal:
  "\<not> IS_NUM c \<Longrightarrow> strtoul (decimal n @ c # rest) = ((if n < 2 ^ 64 then n else 2 ^ 64 - 1), c # rest, \<not> n < 2 ^ 64)"
  using strtoul_any_digits[of "decimal n" c rest] decimal_digits[of n] by (simp add: digits_value_decimal decimal_nonempty)

lemma strtoul_decimal:
  "n < 2 ^ 64 \<Longrightarrow> \<not> IS_NUM c \<Longrightarrow> strtoul (decimal n @ c # rest) = (n, c # rest, False)"
  by (simp add: strtoul_of_decimal)

text \<open>Blanks before a number are skipped; a text that begins with none of these has the value 0.\<close>

lemma strtoul_skips:
  "\<forall>c\<in>set blank. isspace c \<Longrightarrow> fst (strtoul (blank @ s)) = fst (strtoul s) \<and> snd (snd (strtoul (blank @ s))) = snd (snd (strtoul s))"
  by (auto simp: strtoul_def Let_def dropWhile_append split: prod.splits)

lemma strtoul_no_number:
  "\<not> IS_NUM c \<Longrightarrow> \<not> isspace c \<Longrightarrow> c \<noteq> CHR ''-'' \<Longrightarrow> c \<noteq> CHR ''+'' \<Longrightarrow> strtoul (c # rest) = (0, c # rest, False)"
  by (simp add: strtoul_def strip_sign_def)

lemma dropWhile_keeps: "x \<in> set xs \<Longrightarrow> \<not> P x \<Longrightarrow> x \<in> set (dropWhile P xs)"
  by (metis UnE set_append set_takeWhileD takeWhile_dropWhile_id)

lemma strip_sign_keeps: "x \<in> set u \<Longrightarrow> x \<noteq> CHR ''-'' \<Longrightarrow> x \<noteq> CHR ''+'' \<Longrightarrow> x \<in> set (snd (strip_sign u))"
  by (cases u) (simp_all add: strip_sign_def, auto)

text \<open>In a text that has its NUL the end of the number is within it.\<close>

lemma strtoul_stays:
  assumes "NUL \<in> set s"
  shows "fst (snd (strtoul s)) \<noteq> []"
proof -
  obtain neg t where t: "strip_sign (dropWhile isspace s) = (neg, t)" by fastforce
  have "NUL \<in> set (dropWhile isspace s)" using assms by (simp add: dropWhile_keeps isspace_def)
  then have "NUL \<in> set t"
    using strip_sign_keeps[of NUL "dropWhile isspace s"] t by simp
  then have "NUL \<in> set (dropWhile IS_NUM t)" by (simp add: dropWhile_keeps IS_NUM_def)
  then have "dropWhile IS_NUM t \<noteq> []" by (metis empty_iff empty_set)
  moreover have "s \<noteq> []" using assms by auto
  ultimately show ?thesis by (simp add: strtoul_def Let_def t del: dropWhile_eq_Nil_conv)
qed

end
