(* ===== verification/Http_Parse_Url.thy ===== *)
theory Http_Parse_Url
  imports Http_Url C_Strings
begin

text \<open>
  \<^verbatim>\<open>http_parser_parse_url\<close> of \<^verbatim>\<open>src/http_parser.c\<close> and the host parser it calls. A buffer is the
  list of bytes from \<^verbatim>\<open>buf\<close> on that may be read; it can be longer than \<^verbatim>\<open>buflen\<close>. A read behind
  it is \<^theory_text>\<open>Out_of_bounds\<close>. The structure the caller passes is an argument as it stands, with
  whatever its fields hold.
\<close>

section \<open>The result structure\<close>

datatype http_parser_url_fields =
    UF_SCHEMA | UF_HOST | UF_PORT | UF_PATH | UF_QUERY | UF_FRAGMENT | UF_USERINFO | UF_MAX

fun uf_num :: "http_parser_url_fields \<Rightarrow> nat" where
  "uf_num UF_SCHEMA = 0"
| "uf_num UF_HOST = 1"
| "uf_num UF_PORT = 2"
| "uf_num UF_PATH = 3"
| "uf_num UF_QUERY = 4"
| "uf_num UF_FRAGMENT = 5"
| "uf_num UF_USERINFO = 6"
| "uf_num UF_MAX = 7"

record url_field =
  f_off :: "16 word"
  f_len :: "16 word"

record http_parser_url =
  field_set :: "16 word"
  port :: "16 word"
  field_data :: "http_parser_url_fields \<Rightarrow> url_field"

definition uf_bit :: "http_parser_url_fields \<Rightarrow> 16 word" where
  "uf_bit uf = push_bit (uf_num uf) 1"

definition has_field :: "http_parser_url_fields \<Rightarrow> http_parser_url \<Rightarrow> bool" where
  "has_field uf u \<longleftrightarrow> field_set u AND uf_bit uf \<noteq> 0"

text \<open>\<^verbatim>\<open>u->field_set |= (1 << uf)\<close>\<close>

definition mark_field :: "http_parser_url_fields \<Rightarrow> http_parser_url \<Rightarrow> http_parser_url" where
  "mark_field uf u = u\<lparr>field_set := field_set u OR uf_bit uf\<rparr>"

text \<open>\<^verbatim>\<open>off = p - buf\<close>, which keeps 16 bits, \<^verbatim>\<open>len = n\<close> and \<^verbatim>\<open>len++\<close>.\<close>

definition set_off :: "http_parser_url_fields \<Rightarrow> nat \<Rightarrow> http_parser_url \<Rightarrow> http_parser_url" where
  "set_off uf n u = u\<lparr>field_data := (field_data u)(uf := (field_data u uf)\<lparr>f_off := of_nat n\<rparr>)\<rparr>"

definition set_len :: "http_parser_url_fields \<Rightarrow> 16 word \<Rightarrow> http_parser_url \<Rightarrow> http_parser_url" where
  "set_len uf n u = u\<lparr>field_data := (field_data u)(uf := (field_data u uf)\<lparr>f_len := n\<rparr>)\<rparr>"

definition inc_len :: "http_parser_url_fields \<Rightarrow> http_parser_url \<Rightarrow> http_parser_url" where
  "inc_len uf u = set_len uf (f_len (field_data u uf) + 1) u"

section \<open>The host\<close>

datatype http_host_state =
    s_http_host_dead
  | s_http_userinfo_start
  | s_http_userinfo
  | s_http_host_start
  | s_http_host_v6_start
  | s_http_host
  | s_http_host_v6
  | s_http_host_v6_end
  | s_http_host_port_start
  | s_http_host_port

fun http_parse_host_char :: "http_host_state \<Rightarrow> byte \<Rightarrow> http_host_state" where
  "http_parse_host_char s ch =
     (case s of
        s_http_userinfo \<Rightarrow>
          (if ch = CHR ''@'' then s_http_host_start else if IS_USERINFO_CHAR ch then s_http_userinfo else s_http_host_dead)
      | s_http_userinfo_start \<Rightarrow>
          (if ch = CHR ''@'' then s_http_host_start else if IS_USERINFO_CHAR ch then s_http_userinfo else s_http_host_dead)
      | s_http_host_start \<Rightarrow>
          (if ch = CHR ''['' then s_http_host_v6_start else if IS_HOST_CHAR ch then s_http_host else s_http_host_dead)
      | s_http_host \<Rightarrow>
          (if IS_HOST_CHAR ch then s_http_host
           else if ch = CHR '':'' then s_http_host_port_start else s_http_host_dead)
      | s_http_host_v6_end \<Rightarrow> (if ch = CHR '':'' then s_http_host_port_start else s_http_host_dead)
      | s_http_host_v6 \<Rightarrow>
          (if ch = CHR '']'' then s_http_host_v6_end
           else if IS_HEX ch \<or> ch = CHR '':'' \<or> ch = CHR ''.'' then s_http_host_v6 else s_http_host_dead)
      | s_http_host_v6_start \<Rightarrow>
          (if IS_HEX ch \<or> ch = CHR '':'' \<or> ch = CHR ''.'' then s_http_host_v6 else s_http_host_dead)
      | s_http_host_port \<Rightarrow> (if IS_NUM ch then s_http_host_port else s_http_host_dead)
      | s_http_host_port_start \<Rightarrow> (if IS_NUM ch then s_http_host_port else s_http_host_dead)
      | s_http_host_dead \<Rightarrow> s_http_host_dead)"

declare http_parse_host_char.simps [simp del]

text \<open>The \<^verbatim>\<open>switch\<close> of the loop at byte \<^theory_text>\<open>i\<close>, for a new state that is not dead.\<close>

definition start_field :: "http_parser_url_fields \<Rightarrow> nat \<Rightarrow> http_parser_url \<Rightarrow> http_parser_url" where
  "start_field uf i u = mark_field uf (set_len uf 0 (set_off uf i u))"

definition host_field :: "nat \<Rightarrow> http_host_state \<Rightarrow> http_host_state \<Rightarrow> http_parser_url \<Rightarrow> http_parser_url" where
  "host_field i s new_s u =
     (case new_s of
        s_http_host \<Rightarrow> inc_len UF_HOST (if s \<noteq> s_http_host then set_off UF_HOST i u else u)
      | s_http_host_v6 \<Rightarrow> inc_len UF_HOST (if s \<noteq> s_http_host_v6 then set_off UF_HOST i u else u)
      | s_http_host_port \<Rightarrow> inc_len UF_PORT (if s \<noteq> s_http_host_port then start_field UF_PORT i u else u)
      | s_http_userinfo \<Rightarrow> inc_len UF_USERINFO (if s \<noteq> s_http_userinfo then start_field UF_USERINFO i u else u)
      | _ \<Rightarrow> u)"

text \<open>
  The loop over the next \<^theory_text>\<open>n\<close> bytes, the first of which is at \<^theory_text>\<open>i\<close>. A dead state ends it; the
  state it ends in comes back.
\<close>

fun host_loop :: "bytes \<Rightarrow> nat \<Rightarrow> nat \<Rightarrow> http_host_state \<Rightarrow> http_parser_url \<Rightarrow> (http_host_state \<times> http_parser_url) res" where
  "host_loop bs 0 i s u = Inr (s, u)"
| "host_loop [] (Suc n) i s u = Inl (Out_of_bounds In_http_parser)"
| "host_loop (ch # bs) (Suc n) i s u =
     (let new_s = http_parse_host_char s ch
      in if new_s = s_http_host_dead then Inr (s_http_host_dead, u)
         else host_loop bs n (i + 1) new_s (host_field i s new_s u))"

definition host_unfinished :: "http_host_state list" where
  "host_unfinished = [s_http_host_start, s_http_host_v6_start, s_http_host_v6, s_http_host_port_start,
     s_http_userinfo, s_http_userinfo_start]"

definition http_parse_host :: "bytes \<Rightarrow> http_parser_url \<Rightarrow> bool \<Rightarrow> (int \<times> http_parser_url) res" where
  "http_parse_host buf u found_at =
     (let off = unat (f_off (field_data u UF_HOST));
          len = unat (f_len (field_data u UF_HOST));
          u = set_len UF_HOST 0 u;
          s = (if found_at then s_http_userinfo_start else s_http_host_start)
      in rbind (host_loop (drop off buf) len off s u) (\<lambda>(s, u).
           if s = s_http_host_dead then Inr (1, u)
           else if s \<in> set host_unfinished then Inr (1, u)
           else Inr (0, u)))"

section \<open>The URL\<close>

text \<open>What the state after a byte says: an error, a delimiter, a byte of a field.\<close>

datatype url_byte = Url_error | Url_delimiter | Url_byte http_parser_url_fields | Url_unexpected

definition url_byte :: "state \<Rightarrow> url_byte" where
  "url_byte s =
     (case s of
        s_dead \<Rightarrow> Url_error
      | s_req_schema_slash \<Rightarrow> Url_delimiter
      | s_req_schema_slash_slash \<Rightarrow> Url_delimiter
      | s_req_server_start \<Rightarrow> Url_delimiter
      | s_req_query_string_start \<Rightarrow> Url_delimiter
      | s_req_fragment_start \<Rightarrow> Url_delimiter
      | s_req_schema \<Rightarrow> Url_byte UF_SCHEMA
      | s_req_server_with_at \<Rightarrow> Url_byte UF_HOST
      | s_req_server \<Rightarrow> Url_byte UF_HOST
      | s_req_path \<Rightarrow> Url_byte UF_PATH
      | s_req_query_string \<Rightarrow> Url_byte UF_QUERY
      | s_req_fragment \<Rightarrow> Url_byte UF_FRAGMENT
      | _ \<Rightarrow> Url_unexpected)"

definition open_field :: "http_parser_url_fields \<Rightarrow> nat \<Rightarrow> http_parser_url \<Rightarrow> http_parser_url" where
  "open_field uf i u = mark_field uf (set_len uf 1 (set_off uf i u))"

text \<open>
  The loop over the next \<^theory_text>\<open>n\<close> bytes: \<^theory_text>\<open>None\<close> is the return of 1, else \<^verbatim>\<open>found_at\<close> and the
  structure come back.
\<close>

fun url_loop :: "bytes \<Rightarrow> nat \<Rightarrow> nat \<Rightarrow> state \<Rightarrow> http_parser_url_fields \<Rightarrow> bool \<Rightarrow> http_parser_url \<Rightarrow>
    (bool option \<times> http_parser_url) res" where
  "url_loop bs 0 i s old_uf found_at u = Inr (Some found_at, u)"
| "url_loop [] (Suc n) i s old_uf found_at u = Inl (Out_of_bounds In_http_parser)"
| "url_loop (ch # bs) (Suc n) i s old_uf found_at u =
     (let s = parse_url_char s ch; found_at = (found_at \<or> s = s_req_server_with_at)
      in case url_byte s of
           Url_error \<Rightarrow> Inr (None, u)
         | Url_unexpected \<Rightarrow> Inl (Assert_failed In_http_parser)
         | Url_delimiter \<Rightarrow> url_loop bs n (i + 1) s old_uf found_at u
         | Url_byte uf \<Rightarrow>
             (if uf = old_uf then url_loop bs n (i + 1) s old_uf found_at (inc_len uf u)
              else url_loop bs n (i + 1) s uf found_at (open_field uf i u)))"

definition check_port :: "bytes \<Rightarrow> http_parser_url \<Rightarrow> (int \<times> http_parser_url) res" where
  "check_port buf u =
     (if \<not> has_field UF_PORT u then Inr (0, u)
      else
        (let (v, endptr, err) = strtoul (drop (unat (f_off (field_data u UF_PORT))) buf)
         in if endptr = [] then Inl (Out_of_bounds In_http_parser)
            else if 65535 < v then Inr (1, u)
            else Inr (0, u\<lparr>port := of_nat v\<rparr>)))"

definition http_parser_parse_url :: "bytes \<Rightarrow> nat \<Rightarrow> bool \<Rightarrow> http_parser_url \<Rightarrow> (int \<times> http_parser_url) res" where
  "http_parser_parse_url buf buflen is_connect u =
     (let u = u\<lparr>port := 0, field_set := 0\<rparr>;
          s = (if is_connect then s_req_server_start else s_req_spaces_before_url)
      in rbind (url_loop buf buflen 0 s UF_MAX False u) (\<lambda>(r, u).
           case r of
             None \<Rightarrow> Inr (1, u)
           | Some found_at \<Rightarrow>
               rbind (if field_set u AND (uf_bit UF_SCHEMA OR uf_bit UF_HOST) \<noteq> 0
                      then http_parse_host buf u found_at else Inr (0, u)) (\<lambda>(ret, u).
                 if ret \<noteq> 0 then Inr (1, u)
                 else if is_connect \<and> field_set u \<noteq> (uf_bit UF_HOST OR uf_bit UF_PORT) then Inr (1, u)
                 else check_port buf u)))"

end
