(* ===== verification/Http_Url_Fields.thy ===== *)
theory Http_Url_Fields
  imports Http_Parse_Url
begin

text \<open>
  Lemmas about \<^verbatim>\<open>http_parser_parse_url\<close>: how its structure changes, that it stays within the
  buffer, and what it makes of a run of bytes of one field.
\<close>

section \<open>The structure\<close>

lemma uf_num_inject [simp]: "uf_num a = uf_num b \<longleftrightarrow> a = b"
  by (cases a; cases b) simp_all

lemma uf_num_less: "uf_num uf < 16"
  by (cases uf) simp_all

lemma has_field_bit: "has_field uf u \<longleftrightarrow> bit (field_set u) (uf_num uf)"
  using and_exp_eq_0_iff_not_bit[of "field_set u" "uf_num uf"] by (simp add: has_field_def uf_bit_def push_bit_eq_mult)

lemma has_field_mark [simp]: "has_field uf (mark_field uf' u) \<longleftrightarrow> uf = uf' \<or> has_field uf u"
  using uf_num_less[of uf]
  by (auto simp: has_field_bit mark_field_def uf_bit_def bit_or_iff push_bit_eq_mult bit_exp_iff)

lemma has_field_other [simp]:
  "has_field uf (set_off uf' n u) = has_field uf u"
  "has_field uf (set_len uf' w u) = has_field uf u"
  "has_field uf (inc_len uf' u) = has_field uf u"
  "has_field uf (u\<lparr>port := p\<rparr>) = has_field uf u"
  by (simp_all add: has_field_def set_off_def set_len_def inc_len_def)

lemma field_data_simps [simp]:
  "field_data (mark_field uf' u) = field_data u"
  "f_off (field_data (set_off uf' n u) uf) = (if uf = uf' then of_nat n else f_off (field_data u uf))"
  "f_len (field_data (set_off uf' n u) uf) = f_len (field_data u uf)"
  "f_off (field_data (set_len uf' w u) uf) = f_off (field_data u uf)"
  "f_len (field_data (set_len uf' w u) uf) = (if uf = uf' then w else f_len (field_data u uf))"
  "f_off (field_data (inc_len uf' u) uf) = f_off (field_data u uf)"
  "f_len (field_data (inc_len uf' u) uf) = (if uf = uf' then f_len (field_data u uf) + 1 else f_len (field_data u uf))"
  by (auto simp: mark_field_def set_off_def set_len_def inc_len_def)

lemma field_data_other [simp]:
  "uf \<noteq> uf' \<Longrightarrow> field_data (set_off uf' n u) uf = field_data u uf"
  "uf \<noteq> uf' \<Longrightarrow> field_data (set_len uf' w u) uf = field_data u uf"
  "uf \<noteq> uf' \<Longrightarrow> field_data (inc_len uf' u) uf = field_data u uf"
  by (simp_all add: set_off_def set_len_def inc_len_def)

section \<open>Bounds\<close>

definition field_end :: "http_parser_url_fields \<Rightarrow> http_parser_url \<Rightarrow> nat" where
  "field_end uf u = unat (f_off (field_data u uf)) + unat (f_len (field_data u uf))"

definition fields_within :: "nat \<Rightarrow> http_parser_url \<Rightarrow> bool" where
  "fields_within n u \<longleftrightarrow> (\<forall>uf. has_field uf u \<longrightarrow> field_end uf u \<le> n)"

lemma unat_of_nat_le: "unat (of_nat n :: 16 word) \<le> n"
  by (simp add: unat_of_nat)

lemma unat_inc_le: "unat (w + 1 :: 16 word) \<le> Suc (unat w)"
  proof (cases "w + 1 = 0")
  case False
  then have "1 + w \<noteq> 0" by (simp add: add.commute)
  then show ?thesis using unatSuc[of w] by (simp add: add.commute)
qed simp

lemma field_end_simps [simp]:
  "field_end uf (mark_field uf' u) = field_end uf u"
  "uf \<noteq> uf' \<Longrightarrow> field_end uf (set_off uf' n u) = field_end uf u"
  "uf \<noteq> uf' \<Longrightarrow> field_end uf (set_len uf' w u) = field_end uf u"
  "uf \<noteq> uf' \<Longrightarrow> field_end uf (inc_len uf' u) = field_end uf u"
  by (simp_all add: field_end_def)

lemma field_end_inc: "field_end uf (inc_len uf u) \<le> Suc (field_end uf u)"
  using unat_inc_le[of "f_len (field_data u uf)"] by (simp add: field_end_def)

lemma field_end_fresh: "f_len (field_data u uf) = 0 \<Longrightarrow> field_end uf (set_off uf i u) \<le> i"
  using unat_of_nat_le[of i] by (simp add: field_end_def)

lemma field_end_open: "field_end uf (open_field uf i u) \<le> Suc i"
  using unat_of_nat_le[of i] by (simp add: field_end_def open_field_def)

lemma field_end_start: "field_end uf (start_field uf i u) \<le> i"
  using unat_of_nat_le[of i] by (simp add: field_end_def start_field_def)

lemma fields_within_mono: "fields_within m u \<Longrightarrow> m \<le> n \<Longrightarrow> fields_within n u"
  unfolding fields_within_def using le_trans by blast

lemma url_byte_cases: "url_byte (parse_url_char s ch) \<noteq> Url_unexpected"
  using parse_url_char_states[of s ch] by (auto simp: url_states_def url_byte_def)

text \<open>What the loop over the URL keeps: fields end before \<^theory_text>\<open>i\<close>, and the host is the caller's until it is set.\<close>

definition url_inv :: "url_field \<Rightarrow> nat \<Rightarrow> http_parser_url \<Rightarrow> bool" where
  "url_inv host i u \<longleftrightarrow> fields_within i u \<and> (\<not> has_field UF_HOST u \<longrightarrow> field_data u UF_HOST = host)"

lemma url_inv_Suc: "url_inv host i u \<Longrightarrow> url_inv host (Suc i) u"
  using fields_within_mono[of i u "Suc i"] by (simp add: url_inv_def)

lemma url_inv_update:
  assumes "url_inv host i u" "field_end uf v \<le> Suc i" "has_field uf v"
    and "\<And>uf'. uf' \<noteq> uf \<Longrightarrow> has_field uf' v = has_field uf' u \<and> field_data v uf' = field_data u uf'"
  shows "url_inv host (Suc i) v"
proof -
  have "field_end uf' v \<le> Suc i" if "has_field uf' v" for uf'
  proof (cases "uf' = uf")
    case False
    then show ?thesis using assms(1) assms(4)[OF False] that
      by (simp add: url_inv_def fields_within_def field_end_def le_SucI)
  qed (use assms(2) in simp)
  moreover have "field_data v UF_HOST = host" if "\<not> has_field UF_HOST v"
    using assms(1,3) assms(4)[of UF_HOST] that by (metis url_inv_def)
  ultimately show ?thesis by (simp add: url_inv_def fields_within_def)
qed

lemma url_inv_open: "url_inv host i u \<Longrightarrow> url_inv host (Suc i) (open_field uf i u)"
  by (rule url_inv_update[where uf = uf]) (use field_end_open in \<open>auto simp: open_field_def\<close>)

lemma url_inv_inc:
  assumes "url_inv host i u" "has_field uf u"
  shows "url_inv host (Suc i) (inc_len uf u)"
proof (rule url_inv_update[where uf = uf, OF assms(1)])
  show "field_end uf (inc_len uf u) \<le> Suc i"
    using field_end_inc[of uf u] assms by (auto simp: url_inv_def fields_within_def intro: le_trans)
qed (use assms in simp_all)

lemma url_loop_ok:
  "n \<le> length bs \<Longrightarrow> url_inv host i u \<Longrightarrow> (old_uf \<noteq> UF_MAX \<Longrightarrow> has_field old_uf u) \<Longrightarrow>
   \<exists>r u'. url_loop bs n i s old_uf found_at u = Inr (r, u') \<and> (r \<noteq> None \<longrightarrow> url_inv host (i + n) u')"
proof (induction bs n i s old_uf found_at u rule: url_loop.induct)
  case (3 ch bs n i s old_uf found_at u)
  let ?s = "parse_url_char s ch"
  show ?case
  proof (cases "url_byte ?s")
    case Url_error
    then show ?thesis by (simp add: Let_def)
  next
    case Url_unexpected
    then show ?thesis using url_byte_cases by simp
  next
    case Url_delimiter
    then show ?thesis using "3.IH"(1)[OF refl refl Url_delimiter] "3.prems" url_inv_Suc by (simp add: Let_def)
  next
    case (Url_byte uf)
    have "uf \<noteq> UF_MAX" using Url_byte by (auto simp: url_byte_def split: state.splits)
    show ?thesis
    proof (cases "uf = old_uf")
      case True
      then show ?thesis
        using "3.IH"(2)[OF refl refl Url_byte True] "3.prems" url_inv_inc \<open>uf \<noteq> UF_MAX\<close> Url_byte by (simp add: Let_def)
    next
      case False
      have "has_field uf (open_field uf i u)" by (simp add: open_field_def)
      then show ?thesis
        using "3.IH"(3)[OF refl refl Url_byte False] "3.prems" url_inv_open Url_byte False by (simp add: Let_def)
    qed
  qed
qed simp_all

text \<open>
  What the loop over the host keeps, before byte \<^theory_text>\<open>i\<close> of a buffer of \<^theory_text>\<open>m\<close> bytes: the host field
  is empty until its first byte, and ends before \<^theory_text>\<open>i\<close>, as do the port and the user's part.
\<close>

definition host_inv :: "nat \<Rightarrow> nat \<Rightarrow> http_host_state \<Rightarrow> http_parser_url \<Rightarrow> bool" where
  "host_inv m i s u \<longleftrightarrow> field_end UF_HOST u \<le> max i m \<and> fields_within m u \<and>
     (s \<in> {s_http_userinfo_start, s_http_userinfo, s_http_host_start, s_http_host_v6_start} \<longrightarrow> f_len (field_data u UF_HOST) = 0) \<and>
     (s \<notin> {s_http_userinfo_start, s_http_userinfo, s_http_host_start, s_http_host_v6_start} \<longrightarrow> field_end UF_HOST u \<le> i) \<and>
     (s = s_http_host_port \<longrightarrow> field_end UF_PORT u \<le> i) \<and> (s = s_http_userinfo \<longrightarrow> field_end UF_USERINFO u \<le> i)"

lemma host_char_sources:
  "http_parse_host_char s ch = s_http_host \<Longrightarrow> s = s_http_host \<or> s = s_http_host_start"
  "http_parse_host_char s ch = s_http_host_v6 \<Longrightarrow> s = s_http_host_v6 \<or> s = s_http_host_v6_start"
  "http_parse_host_char s ch = s_http_host_start \<Longrightarrow> s = s_http_userinfo \<or> s = s_http_userinfo_start"
  "http_parse_host_char s ch = s_http_userinfo \<Longrightarrow> s = s_http_userinfo \<or> s = s_http_userinfo_start"
  "http_parse_host_char s ch = s_http_host_v6_start \<Longrightarrow> s = s_http_host_start"
  "http_parse_host_char s ch = s_http_host_v6_end \<Longrightarrow> s = s_http_host_v6"
  "http_parse_host_char s ch = s_http_host_port \<Longrightarrow> s = s_http_host_port \<or> s = s_http_host_port_start"
  "http_parse_host_char s ch = s_http_host_port_start \<Longrightarrow> s = s_http_host \<or> s = s_http_host_v6_end"
  "http_parse_host_char s ch \<noteq> s_http_userinfo_start"
  by (cases s; simp add: http_parse_host_char.simps split: if_splits)+

lemma fields_within_update:
  assumes "fields_within m u" "field_end uf v \<le> m"
    and "\<And>uf'. uf' \<noteq> uf \<Longrightarrow> has_field uf' v = has_field uf' u \<and> field_data v uf' = field_data u uf'"
  shows "fields_within m v"
  unfolding fields_within_def
proof (intro allI impI)
  fix uf' assume "has_field uf' v"
  then show "field_end uf' v \<le> m"
    using assms(1,2) assms(3)[of uf'] by (cases "uf' = uf") (auto simp: fields_within_def field_end_def)
qed

lemma host_inv_field:
  assumes "host_inv m i s u" "i < m" "http_parse_host_char s ch = new_s" "new_s \<noteq> s_http_host_dead"
  shows "host_inv m (Suc i) new_s (host_field i s new_s u)"
proof -
  have one: "field_end uf (inc_len uf v) \<le> Suc i" if "field_end uf v \<le> i" for uf v
    using field_end_inc[of uf v] that by simp
  have start: "field_end uf (start_field uf i u) \<le> i" for uf by (rule field_end_start)
  have fresh: "field_end UF_HOST (set_off UF_HOST i u) \<le> i" if "f_len (field_data u UF_HOST) = 0"
    using field_end_fresh that by simp
  have within: "fields_within m (host_field i s new_s u)" if "field_end uf (host_field i s new_s u) \<le> Suc i"
    "\<And>uf'. uf' \<noteq> uf \<Longrightarrow> has_field uf' (host_field i s new_s u) = has_field uf' u \<and>
       field_data (host_field i s new_s u) uf' = field_data u uf'" for uf
    by (rule fields_within_update[of m u uf]) (use assms(1,2) that in \<open>auto simp: host_inv_def\<close>)
  show ?thesis
  proof (cases new_s)
    case s_http_host
    have e: "field_end UF_HOST (host_field i s new_s u) \<le> Suc i"
      using assms host_char_sources(1) s_http_host fresh one by (auto simp: host_field_def host_inv_def)
    from within[OF e] e show ?thesis using s_http_host by (auto simp: host_inv_def host_field_def)
  next
    case s_http_host_v6
    have e: "field_end UF_HOST (host_field i s new_s u) \<le> Suc i"
      using assms host_char_sources(2) s_http_host_v6 fresh one by (auto simp: host_field_def host_inv_def)
    from within[OF e] e show ?thesis using s_http_host_v6 by (auto simp: host_inv_def host_field_def)
  next
    case s_http_host_port
    have e: "field_end UF_PORT (host_field i s new_s u) \<le> Suc i"
      using assms s_http_host_port start one by (auto simp: host_field_def host_inv_def)
    have h: "field_end UF_HOST (host_field i s new_s u) \<le> i"
      using assms host_char_sources(7)[of s ch] s_http_host_port by (auto simp: host_field_def host_inv_def start_field_def)
    from within[OF e] e h show ?thesis using s_http_host_port
      by (auto simp: host_inv_def host_field_def start_field_def)
  next
    case s_http_userinfo
    have e: "field_end UF_USERINFO (host_field i s new_s u) \<le> Suc i"
      using assms s_http_userinfo start one by (auto simp: host_field_def host_inv_def)
    have h: "f_len (field_data u UF_HOST) = 0" "field_end UF_HOST u \<le> max (Suc i) m"
      using assms host_char_sources(4)[of s ch] s_http_userinfo by (auto simp: host_inv_def)
    from within[OF e] e h show ?thesis using s_http_userinfo
      by (auto simp: host_inv_def host_field_def start_field_def)
  qed (use assms host_char_sources[of s ch] in \<open>auto simp: host_inv_def host_field_def le_max_iff_disj\<close>)
qed

lemma host_loop_ok:
  "n \<le> length bs \<Longrightarrow> i + n \<le> m \<Longrightarrow> host_inv m i s u \<Longrightarrow>
   \<exists>s' u'. host_loop bs n i s u = Inr (s', u') \<and> fields_within m u'"
proof (induction bs n i s u rule: host_loop.induct)
  case (1 bs i s u)
  then show ?case by (simp add: host_inv_def)
next
  case (3 ch bs n i s u)
  show ?case
  proof (cases "http_parse_host_char s ch = s_http_host_dead")
    case True
    then show ?thesis using "3.prems" by (simp add: host_inv_def)
  next
    case False
    have "host_inv m (Suc i) (http_parse_host_char s ch) (host_field i s (http_parse_host_char s ch) u)"
      by (rule host_inv_field[OF "3.prems"(3) _ refl False]) (use "3.prems"(2) in simp)
    then show ?thesis using "3.IH"[OF refl False] "3.prems"(1,2) False by (simp add: Let_def)
  qed
qed simp

lemma in_set_dropWhile: "x \<in> set xs \<Longrightarrow> \<not> P x \<Longrightarrow> x \<in> set (dropWhile P xs)"
  by (induction xs) auto

lemma strtoul_stops:
  assumes "NUL \<in> set s"
  shows "fst (snd (strtoul s)) \<noteq> []"
proof -
  have n: "\<not> IS_NUM NUL" "\<not> isspace NUL" by (simp_all add: IS_NUM_def isspace_def)
  from in_set_dropWhile[of NUL s isspace, OF assms n(2)] have "NUL \<in> set (snd (strip_sign (dropWhile isspace s)))"
    using assms n(2) by (auto simp: strip_sign_def split: list.splits)
  then have "dropWhile IS_NUM (snd (strip_sign (dropWhile isspace s))) \<noteq> []"
    using n(1) by auto
  then show ?thesis using assms by (auto simp: strtoul_def Let_def split: prod.split)
qed

lemma check_port_ok:
  assumes "fields_within n u" "n < length buf" "buf ! n = NUL"
  shows "\<exists>r u'. check_port buf u = Inr (r, u') \<and> (r = 0 \<or> r = 1) \<and> fields_within n u'"
proof (cases "has_field UF_PORT u")
  case True
  let ?s = "drop (unat (f_off (field_data u UF_PORT))) buf"
  have "unat (f_off (field_data u UF_PORT)) \<le> n" using assms(1) True by (auto simp: fields_within_def field_end_def)
  then have "NUL \<in> set ?s"
    using assms(2,3) by (auto simp: in_set_conv_nth intro!: exI[of _ "n - unat (f_off (field_data u UF_PORT))"])
  from strtoul_stops[OF this] assms(1) show ?thesis
    by (cases "strtoul ?s") (auto simp: check_port_def Let_def True fields_within_def field_end_def)
qed (use assms(1) in \<open>simp add: check_port_def\<close>)

lemma parse_host_ok:
  assumes "fields_within n u" "field_end UF_HOST u \<le> n" "n < length buf"
  shows "\<exists>r u'. http_parse_host buf u found_at = Inr (r, u') \<and> (r = 0 \<or> r = 1) \<and> fields_within n u'"
proof -
  let ?off = "unat (f_off (field_data u UF_HOST))" and ?len = "unat (f_len (field_data u UF_HOST))"
  let ?u = "set_len UF_HOST 0 u" and ?s = "if found_at then s_http_userinfo_start else s_http_host_start"
  have "?off + ?len \<le> n" using assms(2) by (simp add: field_end_def)
  have "fields_within n ?u"
    by (rule fields_within_update[where uf = UF_HOST, OF assms(1)]) (use assms(2) in \<open>simp_all add: field_end_def\<close>)
  then have "host_inv n ?off ?s ?u" using assms(2) by (simp add: host_inv_def field_end_def)
  moreover have "?len \<le> length (drop ?off buf)" using \<open>?off + ?len \<le> n\<close> assms(3) by simp
  ultimately obtain s' u' where "host_loop (drop ?off buf) ?len ?off ?s ?u = Inr (s', u')" "fields_within n u'"
    using host_loop_ok[of ?len "drop ?off buf" ?off n ?s ?u] \<open>?off + ?len \<le> n\<close> by blast
  then show ?thesis by (auto simp: http_parse_host_def Let_def)
qed

text \<open>
  The whole function, on a C string of \<^theory_text>\<open>n\<close> bytes, when the caller's structure has an empty host
  field (or any that ends within the string).
\<close>

lemma parse_url_ok:
  assumes "field_end UF_HOST u \<le> n" "n < length buf" "buf ! n = NUL"
  shows "\<exists>r u'. http_parser_parse_url buf n is_connect u = Inr (r, u') \<and> (r = 0 \<or> r = 1) \<and> (r = 0 \<longrightarrow> fields_within n u')"
proof -
  let ?u = "u\<lparr>port := 0, field_set := 0\<rparr>" and ?s = "if is_connect then s_req_server_start else s_req_spaces_before_url"
  have "url_inv (field_data u UF_HOST) 0 ?u" by (simp add: url_inv_def fields_within_def has_field_def)
  with url_loop_ok[of n buf "field_data u UF_HOST" 0 ?u UF_MAX ?s False] assms(2) obtain r u1 where
    1: "url_loop buf n 0 ?s UF_MAX False ?u = Inr (r, u1)" "r \<noteq> None \<longrightarrow> url_inv (field_data u UF_HOST) n u1" by auto
  show ?thesis
  proof (cases r)
    case None
    then show ?thesis using 1 by (simp add: http_parser_parse_url_def Let_def)
  next
    case (Some found_at)
    then have w: "fields_within n u1" "field_end UF_HOST u1 \<le> n"
      using 1(2) assms(1) by (auto simp: url_inv_def fields_within_def field_end_def)
    let ?host = "if field_set u1 AND (uf_bit UF_SCHEMA OR uf_bit UF_HOST) \<noteq> 0
                      then http_parse_host buf u1 found_at else Inr (0, u1)"
    have "\<exists>ret u2. ?host = Inr (ret, u2) \<and> (ret = 0 \<or> ret = 1) \<and> fields_within n u2"
      using parse_host_ok[OF w assms(2), of found_at] w(1) by (simp split: if_split)
    then obtain ret u2 where 2: "?host = Inr (ret, u2)" "ret = 0 \<or> ret = 1" "fields_within n u2" by blast
    from check_port_ok[OF 2(3) assms(2,3)] 1(1) 2 Some show ?thesis
      by (auto simp: http_parser_parse_url_def Let_def)
  qed
qed

end
