(* ===== verification/Http_Url_Print.thy ===== *)
theory Http_Url_Print
  imports Http_Url_Fields
begin

text \<open>
  An abstract URL, its text, and what \<^verbatim>\<open>http_parser_parse_url\<close> makes of each part of the text.
\<close>

section \<open>URLs\<close>

datatype url_host = Host_name bytes | Host_v6 bytes

record url_parts =
  part_schema :: bytes
  part_userinfo :: "bytes option"
  part_host :: url_host
  part_port :: "nat option"
  part_path :: bytes
  part_query :: "bytes option"
  part_fragment :: "bytes option"

definition prefixed :: "bytes \<Rightarrow> bytes option \<Rightarrow> bytes" where
  "prefixed d x = (case x of None \<Rightarrow> [] | Some t \<Rightarrow> d @ t)"

fun host_text :: "url_host \<Rightarrow> bytes" where
  "host_text (Host_name h) = h"
| "host_text (Host_v6 h) = ''['' @ h @ '']''"

fun host_bytes :: "url_host \<Rightarrow> bytes" where
  "host_bytes (Host_name h) = h"
| "host_bytes (Host_v6 h) = h"

definition authority :: "bytes option \<Rightarrow> url_host \<Rightarrow> nat option \<Rightarrow> bytes" where
  "authority user h n =
     (case user of None \<Rightarrow> [] | Some t \<Rightarrow> t @ ''@'') @ host_text h @ prefixed '':'' (map_option decimal n)"

definition print_url :: "url_parts \<Rightarrow> bytes" where
  "print_url p = part_schema p @ ''://'' @ authority (part_userinfo p) (part_host p) (part_port p) @ part_path p @
     prefixed ''?'' (part_query p) @ prefixed ''#'' (part_fragment p)"

fun host_valid :: "url_host \<Rightarrow> bool" where
  "host_valid (Host_name h) \<longleftrightarrow> h \<noteq> [] \<and> (\<forall>c\<in>set h. IS_HOST_CHAR c)"
| "host_valid (Host_v6 h) \<longleftrightarrow> h \<noteq> [] \<and> (\<forall>c\<in>set h. IS_HEX c \<or> c = CHR '':'' \<or> c = CHR ''.'')"

definition some_of :: "(byte \<Rightarrow> bool) \<Rightarrow> bytes option \<Rightarrow> bool" where
  "some_of P x \<longleftrightarrow> (\<forall>t. x = Some t \<longrightarrow> t \<noteq> [] \<and> (\<forall>c\<in>set t. P c))"

definition url_valid :: "url_parts \<Rightarrow> bool" where
  "url_valid p \<longleftrightarrow> part_schema p \<noteq> [] \<and> (\<forall>c\<in>set (part_schema p). IS_ALPHA c) \<and>
     some_of IS_USERINFO_CHAR (part_userinfo p) \<and> host_valid (part_host p) \<and> (\<forall>n. part_port p = Some n \<longrightarrow> n < 65536) \<and>
     (\<exists>t. part_path p = CHR ''/'' # t \<and> (\<forall>c\<in>set t. IS_URL_CHAR c)) \<and>
     some_of IS_URL_CHAR (part_query p) \<and> some_of IS_URL_CHAR (part_fragment p)"

text \<open>The part a field of the result is to hold.\<close>

definition url_part :: "url_parts \<Rightarrow> http_parser_url_fields \<Rightarrow> bytes option" where
  "url_part p uf =
     (case uf of
        UF_SCHEMA \<Rightarrow> Some (part_schema p)
      | UF_HOST \<Rightarrow> Some (host_bytes (part_host p))
      | UF_PORT \<Rightarrow> map_option decimal (part_port p)
      | UF_PATH \<Rightarrow> Some (part_path p)
      | UF_QUERY \<Rightarrow> part_query p
      | UF_FRAGMENT \<Rightarrow> part_fragment p
      | UF_USERINFO \<Rightarrow> part_userinfo p
      | UF_MAX \<Rightarrow> None)"

definition field_text :: "http_parser_url_fields \<Rightarrow> bytes \<Rightarrow> http_parser_url \<Rightarrow> bytes option" where
  "field_text uf buf u =
     (if has_field uf u then Some (slice (unat (f_off (field_data u uf))) (unat (f_len (field_data u uf))) buf) else None)"

section \<open>The structure as a map\<close>

text \<open>\<^theory_text>\<open>F uf = Some (i, k)\<close>: the field \<^theory_text>\<open>uf\<close> is set, to \<^theory_text>\<open>k\<close> bytes from \<^theory_text>\<open>i\<close> on.\<close>

type_synonym url_map = "http_parser_url_fields \<Rightarrow> (nat \<times> nat) option"

definition url_view :: "url_map \<Rightarrow> http_parser_url \<Rightarrow> bool" where
  "url_view F u \<longleftrightarrow> (\<forall>n\<ge>8. \<not> bit (field_set u) n) \<and> (\<forall>uf. has_field uf u = (F uf \<noteq> None) \<and>
     (\<forall>i k. F uf = Some (i, k) \<longrightarrow> f_off (field_data u uf) = of_nat i \<and> f_len (field_data u uf) = of_nat k))"

lemma field_set_simps [simp]:
  "field_set (set_off uf n u) = field_set u"
  "field_set (set_len uf w u) = field_set u"
  "field_set (inc_len uf u) = field_set u"
  by (simp_all add: set_off_def set_len_def inc_len_def)

lemma uf_num_less_8: "uf_num uf < 8"
  by (cases uf) simp_all

lemma bit_mark: "8 \<le> n \<Longrightarrow> bit (field_set (mark_field uf u)) n = bit (field_set u) n"
  using uf_num_less_8[of uf] by (auto simp: mark_field_def uf_bit_def bit_or_iff push_bit_eq_mult bit_exp_iff)

text \<open>Which fields are set determines \<^verbatim>\<open>field_set\<close>.\<close>

lemma field_set_eqI:
  assumes "\<forall>n\<ge>8. \<not> bit (field_set u) n" "\<forall>n\<ge>8. \<not> bit (field_set v) n" "\<And>uf. has_field uf u = has_field uf v"
  shows "field_set u = field_set v"
proof (rule bit_eqI)
  fix n
  have f: "bit (field_set u) (uf_num uf) = bit (field_set v) (uf_num uf)" for uf
    using assms(3) by (simp add: has_field_bit)
  show "bit (field_set u) n = bit (field_set v) n"
  proof (cases "n < 8")
    case True
    then have "n \<in> {0, 1, 2, 3, 4, 5, 6, 7}" by auto
    then show ?thesis
      using f[of UF_SCHEMA] f[of UF_HOST] f[of UF_PORT] f[of UF_PATH] f[of UF_QUERY] f[of UF_FRAGMENT] f[of UF_USERINFO] f[of UF_MAX]
      by auto
  qed (use assms(1,2) in simp)
qed

lemma view_open: "url_view F u \<Longrightarrow> url_view (F(uf \<mapsto> (i, 1))) (open_field uf i u)"
  by (auto simp: url_view_def open_field_def bit_mark)

lemma view_start: "url_view F u \<Longrightarrow> url_view (F(uf \<mapsto> (i, 0))) (start_field uf i u)"
  by (auto simp: url_view_def start_field_def bit_mark)

lemma view_off: "url_view F u \<Longrightarrow> F uf = Some (j, k) \<Longrightarrow> url_view (F(uf \<mapsto> (i, k))) (set_off uf i u)"
  by (auto simp: url_view_def)

lemma view_clear: "url_view F u \<Longrightarrow> F uf = Some (j, k) \<Longrightarrow> url_view (F(uf \<mapsto> (j, 0))) (set_len uf 0 u)"
  by (auto simp: url_view_def)

lemma view_inc: "url_view F u \<Longrightarrow> F uf = Some (j, k) \<Longrightarrow> url_view (F(uf \<mapsto> (j, Suc k))) (inc_len uf u)"
  by (auto simp: url_view_def)

section \<open>Runs of the URL loop\<close>

lemma url_run:
  "url_byte s = Url_byte uf \<Longrightarrow> s \<noteq> s_req_server_with_at \<Longrightarrow> \<forall>c\<in>set cs. parse_url_char s c = s \<Longrightarrow>
   url_view F u \<Longrightarrow> F uf = Some (j, k) \<Longrightarrow>
   \<exists>u'. url_loop (cs @ rest) (length cs + n) i s uf fa u = url_loop rest n (i + length cs) s uf fa u' \<and>
     url_view (F(uf \<mapsto> (j, k + length cs))) u'"
proof (induction cs arbitrary: i u F k)
  case Nil
  then show ?case by (auto simp: fun_upd_idem)
next
  case (Cons c cs)
  have e: "url_loop ((c # cs) @ rest) (length (c # cs) + n) i s uf fa u =
      url_loop (cs @ rest) (length cs + n) (i + 1) s uf fa (inc_len uf u)"
    using Cons.prems(1,2,3) by (simp add: Let_def)
  have v: "url_view (F(uf \<mapsto> (j, Suc k))) (inc_len uf u)" by (rule view_inc[OF Cons.prems(4,5)])
  have ih: "\<exists>u'. url_loop (cs @ rest) (length cs + n) (i + 1) s uf fa (inc_len uf u) =
      url_loop rest n (i + 1 + length cs) s uf fa u' \<and> url_view ((F(uf \<mapsto> (j, Suc k)))(uf \<mapsto> (j, Suc k + length cs))) u'"
    by (rule Cons.IH[OF Cons.prems(1,2) _ v]) (use Cons.prems(3) in simp_all)
  have l: "i + 1 + length cs = i + length (c # cs)" "Suc k + length cs = k + length (c # cs)" by simp_all
  from ih show ?case unfolding e l fun_upd_upd .
qed

text \<open>A run that opens its field.\<close>

lemma url_segment:
  assumes "url_byte s = Url_byte uf" "s \<noteq> s_req_server_with_at" "old \<noteq> uf" "url_view F u"
    and "parse_url_char s0 c = s" "\<forall>c\<in>set cs. parse_url_char s c = s"
  shows "\<exists>u'. url_loop (c # cs @ rest) (Suc (length cs + n)) i s0 old fa u = url_loop rest n (i + Suc (length cs)) s uf fa u' \<and>
     url_view (F(uf \<mapsto> (i, Suc (length cs)))) u'"
proof -
  have "url_loop (c # cs @ rest) (Suc (length cs + n)) i s0 old fa u =
      url_loop (cs @ rest) (length cs + n) (i + 1) s uf fa (open_field uf i u)"
    using assms(1,2,3,5) by (auto simp: Let_def)
  with url_run[OF assms(1,2,6) view_open[OF assms(4), of uf i], of i 1 rest n "i + 1" fa] show ?thesis by simp
qed

lemma url_delimiter:
  assumes "url_byte (parse_url_char s c) = Url_delimiter"
  shows "url_loop (c # bs) (Suc n) i s old fa u = url_loop bs n (i + 1) (parse_url_char s c) old fa u"
proof -
  have "parse_url_char s c \<noteq> s_req_server_with_at" using assms by (auto simp: url_byte_def)
  with assms show ?thesis by (simp add: Let_def)
qed

definition server_char :: "byte \<Rightarrow> bool" where
  "server_char c \<longleftrightarrow> IS_USERINFO_CHAR c \<or> c = CHR ''['' \<or> c = CHR '']''"

lemmas char_class_defs = IS_USERINFO_CHAR_def IS_HOST_CHAR_def IS_ALPHANUM_def IS_HEX_def IS_ALPHA_def IS_NUM_def IS_MARK_def LOWER_def

lemma server_char_excludes:
  assumes "server_char c"
  shows "c \<noteq> SP \<and> c \<noteq> CR \<and> c \<noteq> LF \<and> c \<noteq> HT \<and> c \<noteq> FF \<and> c \<noteq> CHR ''/'' \<and> c \<noteq> CHR ''?'' \<and> c \<noteq> CHR ''@''"
proof -
  have "\<forall>d\<in>{SP, CR, LF, HT, FF, CHR ''/'', CHR ''?'', CHR ''@''}. \<not> server_char d"
    by (simp add: server_char_def char_class_defs)
  with assms show ?thesis by auto
qed

lemma server_char_state:
  assumes "server_char c" "s \<in> {s_req_server_start, s_req_server, s_req_server_with_at}"
  shows "parse_url_char s c = s_req_server"
  using server_char_excludes[OF assms(1)] assms
  by (elim insertE) (simp_all add: parse_url_char_def parse_server_char_def server_char_def)

text \<open>The user's part and its \<^verbatim>\<open>@\<close>, then the host and port: one field, and \<^verbatim>\<open>found_at\<close>.\<close>

lemma url_server:
  assumes "url_view F u" "old \<noteq> UF_HOST" "t \<noteq> []" "\<forall>c\<in>set t. server_char c"
  shows "\<exists>u'. url_loop (t @ rest) (length t + n) i s_req_server_start old fa u =
      url_loop rest n (i + length t) s_req_server UF_HOST fa u' \<and> url_view (F(UF_HOST \<mapsto> (i, length t))) u'"
proof -
  obtain c cs where t: "t = c # cs" using assms(3) by (cases t) auto
  have b: "url_byte s_req_server = Url_byte UF_HOST" by (simp add: url_byte_def)
  have "\<forall>c\<in>set cs. parse_url_char s_req_server c = s_req_server"
    using assms(4) t server_char_state[of _ s_req_server] by simp
  with url_segment[OF b _ assms(2,1), of s_req_server_start c cs rest n i fa] assms(4) t
    server_char_state[of c s_req_server_start] show ?thesis by simp
qed

lemma url_at:
  assumes "url_view F u" "F UF_HOST = Some (j, k)" "t \<noteq> []" "\<forall>c\<in>set t. server_char c"
  shows "\<exists>u'. url_loop (CHR ''@'' # t @ rest) (Suc (length t + n)) i s_req_server UF_HOST fa u =
      url_loop rest n (i + Suc (length t)) s_req_server UF_HOST True u' \<and> url_view (F(UF_HOST \<mapsto> (j, k + Suc (length t)))) u'"
proof -
  obtain c cs where t: "t = c # cs" using assms(3) by (cases t) auto
  have b: "url_byte s_req_server = Url_byte UF_HOST" "url_byte s_req_server_with_at = Url_byte UF_HOST"
    by (simp_all add: url_byte_def)
  have at: "parse_url_char s_req_server CHR ''@'' = s_req_server_with_at"
    by (simp add: parse_url_char_def parse_server_char_def)
  have c: "parse_url_char s_req_server_with_at c = s_req_server" and
    cs: "\<forall>c\<in>set cs. parse_url_char s_req_server c = s_req_server"
    using assms(4) t server_char_state[of c s_req_server_with_at] server_char_state[of _ s_req_server] by simp_all
  let ?u = "inc_len UF_HOST (inc_len UF_HOST u)"
  have "url_view ((F(UF_HOST \<mapsto> (j, Suc k)))(UF_HOST \<mapsto> (j, Suc (Suc k)))) ?u"
    by (rule view_inc[OF view_inc[OF assms(1,2)]]) simp
  then have v: "url_view (F(UF_HOST \<mapsto> (j, Suc (Suc k)))) ?u" by (simp only: fun_upd_upd)
  have e: "url_loop (CHR ''@'' # t @ rest) (Suc (length t + n)) i s_req_server UF_HOST fa u =
      url_loop (cs @ rest) (length cs + n) (i + 2) s_req_server UF_HOST True ?u"
    using at c b t by (simp add: Let_def)
  have l: "i + 2 + length cs = i + Suc (length t)" "Suc (Suc k) + length cs = k + Suc (length t)" using t by simp_all
  from url_run[OF b(1) _ cs v, of j "Suc (Suc k)" rest n "i + 2" True] show ?thesis
    unfolding e l fun_upd_upd by simp
qed

lemma url_authority:
  assumes "url_view F u" "old \<noteq> UF_HOST" "some_of IS_USERINFO_CHAR user" "t \<noteq> []" "\<forall>c\<in>set t. server_char c"
    and "a = (case user of None \<Rightarrow> [] | Some x \<Rightarrow> x @ ''@'') @ t"
  shows "\<exists>u'. url_loop (a @ rest) (length a + n) i s_req_server_start old False u =
      url_loop rest n (i + length a) s_req_server UF_HOST (user \<noteq> None) u' \<and> url_view (F(UF_HOST \<mapsto> (i, length a))) u'"
proof (cases user)
  case None
  with url_server[OF assms(1,2,4,5), of rest n i False] assms(6) show ?thesis by simp
next
  case (Some x)
  then have x: "x \<noteq> []" "\<forall>c\<in>set x. server_char c" using assms(3) by (simp_all add: some_of_def server_char_def)
  obtain u1 where 1: "url_loop (x @ CHR ''@'' # t @ rest) (length x + Suc (length t + n)) i s_req_server_start old False u =
      url_loop (CHR ''@'' # t @ rest) (Suc (length t + n)) (i + length x) s_req_server UF_HOST False u1"
    "url_view (F(UF_HOST \<mapsto> (i, length x))) u1"
    using url_server[OF assms(1,2) x, of "CHR ''@'' # t @ rest" "Suc (length t + n)" i False] by blast
  have l: "a @ rest = x @ CHR ''@'' # t @ rest" "length a + n = length x + Suc (length t + n)"
    "i + length x + Suc (length t) = i + length a" "length x + Suc (length t) = length a"
    using assms(6) Some by simp_all
  from url_at[OF 1(2) _ assms(4,5), of i "length x" rest n "i + length x" False] show ?thesis
    unfolding l(1,2) 1(1) l(3,4) fun_upd_upd using Some by simp
qed

section \<open>Runs of the host loop\<close>

definition host_run_state :: "http_host_state \<Rightarrow> http_parser_url_fields \<Rightarrow> bool" where
  "host_run_state s uf \<longleftrightarrow> (s = s_http_host \<and> uf = UF_HOST) \<or> (s = s_http_host_v6 \<and> uf = UF_HOST) \<or>
     (s = s_http_host_port \<and> uf = UF_PORT) \<or> (s = s_http_userinfo \<and> uf = UF_USERINFO)"

lemma host_run:
  "host_run_state s uf \<Longrightarrow> \<forall>c\<in>set cs. http_parse_host_char s c = s \<Longrightarrow> url_view F u \<Longrightarrow> F uf = Some (j, k) \<Longrightarrow>
   \<exists>u'. host_loop (cs @ rest) (length cs + n) i s u = host_loop rest n (i + length cs) s u' \<and>
     url_view (F(uf \<mapsto> (j, k + length cs))) u'"
proof (induction cs arbitrary: i u F k)
  case Nil
  then show ?case by (auto simp: fun_upd_idem)
next
  case (Cons c cs)
  have "host_field i s s u = inc_len uf u" "s \<noteq> s_http_host_dead"
    using Cons.prems(1) by (auto simp: host_run_state_def host_field_def)
  then have e: "host_loop ((c # cs) @ rest) (length (c # cs) + n) i s u =
      host_loop (cs @ rest) (length cs + n) (i + 1) s (inc_len uf u)"
    using Cons.prems(2) by (simp add: Let_def)
  have v: "url_view (F(uf \<mapsto> (j, Suc k))) (inc_len uf u)" by (rule view_inc[OF Cons.prems(3,4)])
  have ih: "\<exists>u'. host_loop (cs @ rest) (length cs + n) (i + 1) s (inc_len uf u) =
      host_loop rest n (i + 1 + length cs) s u' \<and> url_view ((F(uf \<mapsto> (j, Suc k)))(uf \<mapsto> (j, Suc k + length cs))) u'"
    by (rule Cons.IH[OF Cons.prems(1) _ v]) (use Cons.prems(2) in simp_all)
  have l: "i + 1 + length cs = i + length (c # cs)" "Suc k + length cs = k + length (c # cs)" by simp_all
  from ih show ?case unfolding e l fun_upd_upd .
qed

text \<open>A run that opens its field; the host is there already, with length 0.\<close>

lemma host_segment:
  assumes "host_run_state s uf" "s0 \<noteq> s" "url_view F u" "uf = UF_HOST \<Longrightarrow> F UF_HOST = Some (m, 0)" "t \<noteq> []"
    and "\<forall>c\<in>set t. http_parse_host_char s0 c = s \<and> http_parse_host_char s c = s"
  shows "\<exists>u'. host_loop (t @ rest) (length t + n) i s0 u = host_loop rest n (i + length t) s u' \<and>
     url_view (F(uf \<mapsto> (i, length t))) u'"
proof -
  obtain c cs where t: "t = c # cs" using assms(5) by (cases t) auto
  have v: "url_view (F(uf \<mapsto> (i, 1))) (host_field i s0 s u)"
  proof (cases "uf = UF_HOST")
    case True
    then have "host_field i s0 s u = inc_len uf (set_off uf i u)"
      using assms(1,2) by (auto simp: host_run_state_def host_field_def)
    with view_inc[OF view_off[OF assms(3) assms(4)[OF True], of i], of UF_HOST i 0] True show ?thesis by simp
  next
    case False
    then have "host_field i s0 s u = inc_len uf (start_field uf i u)"
      using assms(1,2) by (auto simp: host_run_state_def host_field_def)
    with view_inc[OF view_start[OF assms(3), of uf i], of uf i 0] show ?thesis by simp
  qed
  have "s \<noteq> s_http_host_dead" using assms(1) by (auto simp: host_run_state_def)
  then have e: "host_loop (t @ rest) (length t + n) i s0 u = host_loop (cs @ rest) (length cs + n) (i + 1) s (host_field i s0 s u)"
    using assms(6) t by (simp add: Let_def)
  have l: "i + 1 + length cs = i + length t" "1 + length cs = length t" using t by simp_all
  from host_run[OF assms(1) _ v, of cs i 1 rest n "i + 1"] assms(6) t show ?thesis
    unfolding e l fun_upd_upd by simp
qed

lemma host_delimiter:
  "http_parse_host_char s c \<in> {s_http_host_start, s_http_host_v6_start, s_http_host_v6_end, s_http_host_port_start} \<Longrightarrow>
   host_loop (c # bs) (Suc n) i s u = host_loop bs n (i + 1) (http_parse_host_char s c) u"
  by (auto simp: Let_def host_field_def)

section \<open>The host of a printed URL\<close>

lemma host_chars:
  "IS_HOST_CHAR c \<Longrightarrow> server_char c"
  "IS_HEX c \<or> c = CHR '':'' \<or> c = CHR ''.'' \<Longrightarrow> server_char c \<and> c \<noteq> CHR '']''"
  "IS_NUM c \<Longrightarrow> server_char c"
  "IS_HOST_CHAR c \<Longrightarrow> c \<noteq> CHR ''['' \<and> c \<noteq> CHR ''@''"
  "IS_USERINFO_CHAR c \<Longrightarrow> c \<noteq> CHR ''@''"
proof -
  have n: "\<not> IS_HEX CHR '']''" "\<not> IS_HOST_CHAR CHR ''[''" "\<not> IS_HOST_CHAR CHR ''@''" "\<not> IS_USERINFO_CHAR CHR ''@''"
    by (simp_all add: char_class_defs)
  show "IS_HOST_CHAR c \<Longrightarrow> server_char c"
    by (auto simp: server_char_def IS_USERINFO_CHAR_def IS_HOST_CHAR_def IS_MARK_def)
  show "IS_HEX c \<or> c = CHR '':'' \<or> c = CHR ''.'' \<Longrightarrow> server_char c \<and> c \<noteq> CHR '']''"
    using n(1) by (auto simp: server_char_def IS_USERINFO_CHAR_def IS_HEX_def IS_ALPHANUM_def IS_ALPHA_def IS_MARK_def)
  show "IS_NUM c \<Longrightarrow> server_char c"
    by (simp add: server_char_def IS_USERINFO_CHAR_def IS_ALPHANUM_def)
  show "IS_HOST_CHAR c \<Longrightarrow> c \<noteq> CHR ''['' \<and> c \<noteq> CHR ''@''" using n by auto
  show "IS_USERINFO_CHAR c \<Longrightarrow> c \<noteq> CHR ''@''" using n by auto
qed

lemma host_run_chars:
  "IS_USERINFO_CHAR c \<Longrightarrow> http_parse_host_char s_http_userinfo_start c = s_http_userinfo \<and>
     http_parse_host_char s_http_userinfo c = s_http_userinfo"
  "IS_HOST_CHAR c \<Longrightarrow> http_parse_host_char s_http_host_start c = s_http_host \<and> http_parse_host_char s_http_host c = s_http_host"
  "IS_HEX c \<or> c = CHR '':'' \<or> c = CHR ''.'' \<Longrightarrow>
     http_parse_host_char s_http_host_v6_start c = s_http_host_v6 \<and> http_parse_host_char s_http_host_v6 c = s_http_host_v6"
  "IS_NUM c \<Longrightarrow> http_parse_host_char s_http_host_port_start c = s_http_host_port \<and>
     http_parse_host_char s_http_host_port c = s_http_host_port"
  using host_chars(2,4,5)[of c] by (simp_all add: http_parse_host_char.simps)

definition user_text :: "bytes option \<Rightarrow> bytes" where
  "user_text user = (case user of None \<Rightarrow> [] | Some t \<Rightarrow> t @ ''@'')"

definition host_port_text :: "url_host \<Rightarrow> nat option \<Rightarrow> bytes" where
  "host_port_text h num = host_text h @ prefixed '':'' (map_option decimal num)"

lemma authority_parts: "authority user h num = user_text user @ host_port_text h num"
  by (simp add: authority_def user_text_def host_port_text_def)

lemma host_port_text_ok: "host_valid h \<Longrightarrow> host_port_text h num \<noteq> [] \<and> (\<forall>c\<in>set (host_port_text h num). server_char c)"
proof -
  assume h: "host_valid h"
  have "server_char CHR '':''" "server_char CHR ''[''" "server_char CHR '']''"
    by (simp_all add: server_char_def IS_USERINFO_CHAR_def)
  moreover have "\<forall>c\<in>set (host_text h). server_char c" "host_text h \<noteq> []"
    using h host_chars(1,2) calculation(2,3) by (cases h; simp; blast)+
  moreover have "\<forall>c\<in>set (decimal k). server_char c" for k using decimal_digits host_chars(3) by blast
  ultimately show ?thesis by (cases num) (auto simp: host_port_text_def prefixed_def)
qed

lemma host_user:
  assumes "url_view F u" "some_of IS_USERINFO_CHAR user"
  shows "\<exists>u'. host_loop (user_text user @ rest) (length (user_text user) + n) i
      (if user \<noteq> None then s_http_userinfo_start else s_http_host_start) u =
      host_loop rest n (i + length (user_text user)) s_http_host_start u' \<and>
     url_view (F(UF_USERINFO := (case user of None \<Rightarrow> F UF_USERINFO | Some t \<Rightarrow> Some (i, length t)))) u'"
proof (cases user)
  case None
  then show ?thesis using assms(1) by (auto simp: user_text_def)
next
  case (Some t)
  then have t: "t \<noteq> []" "\<forall>c\<in>set t. IS_USERINFO_CHAR c" using assms(2) by (simp_all add: some_of_def)
  have "\<exists>u'. host_loop (t @ (CHR ''@'' # rest)) (length t + Suc n) i s_http_userinfo_start u =
      host_loop (CHR ''@'' # rest) (Suc n) (i + length t) s_http_userinfo u' \<and> url_view (F(UF_USERINFO \<mapsto> (i, length t))) u'"
    using host_segment[OF _ _ assms(1), of s_http_userinfo UF_USERINFO s_http_userinfo_start 0 t "CHR ''@'' # rest" "Suc n" i] t host_run_chars(1)
    by (simp add: host_run_state_def)
  moreover have "host_loop (CHR ''@'' # rest) (Suc n) j s_http_userinfo v = host_loop rest n (j + 1) s_http_host_start v" for j v
    by (subst host_delimiter) (simp_all add: http_parse_host_char.simps)
  ultimately show ?thesis using Some by (simp add: user_text_def)
qed

definition host_off :: "url_host \<Rightarrow> nat" where
  "host_off h = (case h of Host_name t \<Rightarrow> 0 | Host_v6 t \<Rightarrow> 1)"

definition host_end_state :: "url_host \<Rightarrow> http_host_state" where
  "host_end_state h = (case h of Host_name t \<Rightarrow> s_http_host | Host_v6 t \<Rightarrow> s_http_host_v6_end)"

lemma host_host:
  assumes "url_view F u" "F UF_HOST = Some (m, 0)" "host_valid h"
  shows "\<exists>u'. host_loop (host_text h @ rest) (length (host_text h) + n) i s_http_host_start u =
      host_loop rest n (i + length (host_text h)) (host_end_state h) u' \<and>
     url_view (F(UF_HOST \<mapsto> (i + host_off h, length (host_bytes h)))) u'"
proof (cases h)
  case (Host_name t)
  then have t: "t \<noteq> []" "\<forall>c\<in>set t. IS_HOST_CHAR c" using assms(3) by simp_all
  have "\<exists>u'. host_loop (t @ rest) (length t + n) i s_http_host_start u =
      host_loop rest n (i + length t) s_http_host u' \<and> url_view (F(UF_HOST \<mapsto> (i, length t))) u'"
    using host_segment[OF _ _ assms(1), of s_http_host UF_HOST s_http_host_start m t rest n i] t host_run_chars(2) assms(2)
    by (simp add: host_run_state_def)
  then show ?thesis using Host_name by (simp add: host_off_def host_end_state_def)
next
  case (Host_v6 t)
  then have t: "t \<noteq> []" "\<forall>c\<in>set t. IS_HEX c \<or> c = CHR '':'' \<or> c = CHR ''.''" using assms(3) by simp_all
  have "\<exists>u'. host_loop (t @ (CHR '']'' # rest)) (length t + Suc n) (i + 1) s_http_host_v6_start u =
      host_loop (CHR '']'' # rest) (Suc n) (i + 1 + length t) s_http_host_v6 u' \<and> url_view (F(UF_HOST \<mapsto> (i + 1, length t))) u'"
    using host_segment[OF _ _ assms(1), of s_http_host_v6 UF_HOST s_http_host_v6_start m t "CHR '']'' # rest" "Suc n" "i + 1"]
      t host_run_chars(3) assms(2) by (simp add: host_run_state_def)
  moreover have "host_loop (CHR ''['' # bs) (Suc k) i s_http_host_start u = host_loop bs k (i + 1) s_http_host_v6_start u" for bs k
    by (subst host_delimiter) (simp_all add: http_parse_host_char.simps)
  moreover have "host_loop (CHR '']'' # bs) (Suc k) j s_http_host_v6 v = host_loop bs k (j + 1) s_http_host_v6_end v" for bs k j v
    by (subst host_delimiter) (simp_all add: http_parse_host_char.simps)
  ultimately show ?thesis using Host_v6 by (simp add: host_off_def host_end_state_def)
qed

lemma host_port:
  assumes "url_view F u" "F UF_PORT = None"
  shows "\<exists>s' u'. host_loop (prefixed '':'' (map_option decimal num) @ rest) (length (prefixed '':'' (map_option decimal num))) i (host_end_state h) u =
      Inr (s', u') \<and> s' \<noteq> s_http_host_dead \<and> s' \<notin> set host_unfinished \<and>
     url_view (F(UF_PORT := map_option (\<lambda>k. (i + 1, length (decimal k))) num)) u'"
proof (cases num)
  case None
  then show ?thesis using assms
    by (cases h) (auto simp: prefixed_def host_end_state_def host_unfinished_def fun_upd_idem)
next
  case (Some k)
  let ?d = "decimal k"
  have "\<exists>u'. host_loop (?d @ rest) (length ?d + 0) (i + 1) s_http_host_port_start u =
      host_loop rest 0 (i + 1 + length ?d) s_http_host_port u' \<and> url_view (F(UF_PORT \<mapsto> (i + 1, length ?d))) u'"
    using host_segment[OF _ _ assms(1), of s_http_host_port UF_PORT s_http_host_port_start 0 ?d rest 0 "i + 1"] decimal_digits[of k] host_run_chars(4)
    by (simp add: host_run_state_def)
  moreover have "http_parse_host_char (host_end_state h) CHR '':'' = s_http_host_port_start"
    by (cases h) (simp_all add: host_end_state_def http_parse_host_char.simps IS_HOST_CHAR_def IS_ALPHANUM_def IS_ALPHA_def IS_NUM_def LOWER_def)
  then have "host_loop (CHR '':'' # bs) (Suc n) i (host_end_state h) u = host_loop bs n (i + 1) s_http_host_port_start u" for bs n
    by (subst host_delimiter) simp_all
  ultimately show ?thesis using Some by (auto simp: prefixed_def host_unfinished_def)
qed

text \<open>The fields the host parser adds, for an authority at \<^theory_text>\<open>i\<close>.\<close>

definition authority_map :: "nat \<Rightarrow> bytes option \<Rightarrow> url_host \<Rightarrow> nat option \<Rightarrow> url_map \<Rightarrow> url_map" where
  "authority_map i user h num F =
     (let j = i + length (user_text user)
      in F(UF_USERINFO := map_option (\<lambda>t. (i, length t)) user, UF_HOST \<mapsto> (j + host_off h, length (host_bytes h)),
           UF_PORT := map_option (\<lambda>k. (j + length (host_text h) + 1, length (decimal k))) num))"

lemma parse_authority:
  assumes "url_view F u" "F UF_HOST = Some (i, length a)" "F UF_PORT = None" "F UF_USERINFO = None"
    and "a = authority user h num" "some_of IS_USERINFO_CHAR user" "host_valid h"
    and "drop i buf = a @ rest" "i + length a < 65536"
  shows "\<exists>u'. http_parse_host buf u (user \<noteq> None) = Inr (0, u') \<and> url_view (authority_map i user h num F) u'"
proof -
  let ?u = "set_len UF_HOST 0 u" and ?p = "prefixed '':'' (map_option decimal num)"
  let ?s = "if user \<noteq> None then s_http_userinfo_start else s_http_host_start"
  let ?j = "i + length (user_text user)"
  have off: "unat (f_off (field_data u UF_HOST)) = i" "unat (f_len (field_data u UF_HOST)) = length a"
    using assms(1,2,9) by (simp_all add: url_view_def unat_of_nat take_bit_nat_eq_self)
  have a: "a = user_text user @ host_text h @ ?p" using assms(5) by (simp add: authority_parts host_port_text_def)
  have v: "url_view (F(UF_HOST \<mapsto> (i, 0))) ?u" by (rule view_clear[OF assms(1,2)])
  have up: "(F(UF_HOST \<mapsto> (i, 0)))(UF_USERINFO := (case user of None \<Rightarrow> (F(UF_HOST \<mapsto> (i, 0))) UF_USERINFO | Some t \<Rightarrow> Some (i, length t))) =
      F(UF_HOST \<mapsto> (i, 0), UF_USERINFO := map_option (\<lambda>t. (i, length t)) user)"
    using assms(4) by (cases user) simp_all
  obtain u1 where 1: "host_loop (user_text user @ (host_text h @ ?p @ rest)) (length (user_text user) + (length (host_text h) + length ?p)) i ?s ?u =
      host_loop (host_text h @ ?p @ rest) (length (host_text h) + length ?p) ?j s_http_host_start u1"
    "url_view (F(UF_HOST \<mapsto> (i, 0), UF_USERINFO := map_option (\<lambda>t. (i, length t)) user)) u1"
    using host_user[OF v assms(6), of "host_text h @ ?p @ rest" "length (host_text h) + length ?p" i] unfolding up by blast
  from host_host[OF 1(2) _ assms(7), of i "?p @ rest" "length ?p" ?j] obtain u2 where
    2: "host_loop (host_text h @ ?p @ rest) (length (host_text h) + length ?p) ?j s_http_host_start u1 =
      host_loop (?p @ rest) (length ?p) (?j + length (host_text h)) (host_end_state h) u2"
    "url_view (F(UF_HOST \<mapsto> (i, 0), UF_USERINFO := map_option (\<lambda>t. (i, length t)) user, UF_HOST \<mapsto> (?j + host_off h, length (host_bytes h)))) u2"
    by auto
  from host_port[OF 2(2), of num rest "?j + length (host_text h)" h] assms(3) obtain s' u' where
    3: "host_loop (?p @ rest) (length ?p) (?j + length (host_text h)) (host_end_state h) u2 = Inr (s', u')"
    "s' \<noteq> s_http_host_dead" "s' \<notin> set host_unfinished"
    "url_view (F(UF_HOST \<mapsto> (i, 0), UF_USERINFO := map_option (\<lambda>t. (i, length t)) user, UF_HOST \<mapsto> (?j + host_off h, length (host_bytes h)),
       UF_PORT := map_option (\<lambda>k. (?j + length (host_text h) + 1, length (decimal k))) num)) u'"
    by auto
  have m: "F(UF_HOST \<mapsto> (i, 0), UF_USERINFO := map_option (\<lambda>t. (i, length t)) user, UF_HOST \<mapsto> (?j + host_off h, length (host_bytes h)),
       UF_PORT := map_option (\<lambda>k. (?j + length (host_text h) + 1, length (decimal k))) num) = authority_map i user h num F"
    by (auto simp: authority_map_def Let_def)
  have "host_loop (drop i buf) (length a) i ?s ?u = Inr (s', u')"
    using 1(1) 2(1) 3(1) unfolding assms(8) a by simp
  then show ?thesis using 3(2-4) unfolding m by (auto simp: http_parse_host_def Let_def off)
qed

section \<open>The URL around it\<close>

lemma url_char_excludes:
  "IS_URL_CHAR c \<Longrightarrow> c \<noteq> SP \<and> c \<noteq> CR \<and> c \<noteq> LF \<and> c \<noteq> HT \<and> c \<noteq> FF"
  "IS_ALPHA c \<Longrightarrow> c \<noteq> SP \<and> c \<noteq> CR \<and> c \<noteq> LF \<and> c \<noteq> HT \<and> c \<noteq> FF \<and> c \<noteq> CHR ''/'' \<and> c \<noteq> CHR ''*''"
proof -
  have "\<forall>d\<in>{SP, CR, LF, HT, FF}. \<not> IS_URL_CHAR d"
    by (simp add: IS_URL_CHAR_def BIT_AT_def normal_url_char_def)
  then show "IS_URL_CHAR c \<Longrightarrow> c \<noteq> SP \<and> c \<noteq> CR \<and> c \<noteq> LF \<and> c \<noteq> HT \<and> c \<noteq> FF" by auto
  have "\<forall>d\<in>{SP, CR, LF, HT, FF, CHR ''/'', CHR ''*''}. \<not> IS_ALPHA d"
    by (simp add: char_class_defs)
  then show "IS_ALPHA c \<Longrightarrow> c \<noteq> SP \<and> c \<noteq> CR \<and> c \<noteq> LF \<and> c \<noteq> HT \<and> c \<noteq> FF \<and> c \<noteq> CHR ''/'' \<and> c \<noteq> CHR ''*''" by auto
qed

lemma url_char_states:
  "IS_ALPHA c \<Longrightarrow> parse_url_char s_req_spaces_before_url c = s_req_schema \<and> parse_url_char s_req_schema c = s_req_schema"
  "IS_URL_CHAR c \<Longrightarrow> parse_url_char s_req_path c = s_req_path"
  "IS_URL_CHAR c \<Longrightarrow> parse_url_char s_req_query_string_start c = s_req_query_string \<and>
     parse_url_char s_req_query_string c = s_req_query_string"
  "IS_URL_CHAR c \<Longrightarrow> parse_url_char s_req_fragment_start c = s_req_fragment \<and> parse_url_char s_req_fragment c = s_req_fragment"
  using url_char_excludes[of c] by (simp_all add: parse_url_char_def parse_query_char_def)

lemma url_delimiters:
  "parse_url_char s_req_schema CHR '':'' = s_req_schema_slash"
  "parse_url_char s_req_schema_slash CHR ''/'' = s_req_schema_slash_slash"
  "parse_url_char s_req_schema_slash_slash CHR ''/'' = s_req_server_start"
  "parse_url_char s_req_server CHR ''/'' = s_req_path"
  "parse_url_char s_req_path CHR ''?'' = s_req_query_string_start"
  "parse_url_char s_req_path CHR ''#'' = s_req_fragment_start"
  "parse_url_char s_req_query_string CHR ''#'' = s_req_fragment_start"
  by (simp_all add: parse_url_char_def parse_server_char_def parse_query_char_def IS_ALPHA_def LOWER_def
      IS_URL_CHAR_def BIT_AT_def normal_url_char_def)

lemma url_optional:
  assumes "url_byte s = Url_byte uf" "s \<noteq> s_req_server_with_at" "old \<noteq> uf" "url_view F u" "F uf = None" "some_of IS_URL_CHAR x"
    and "url_byte s1 = Url_delimiter" "parse_url_char s0 d = s1"
    and "\<And>c. IS_URL_CHAR c \<Longrightarrow> parse_url_char s1 c = s \<and> parse_url_char s c = s"
  shows "\<exists>u'. url_loop (prefixed [d] x @ rest) (length (prefixed [d] x) + n) i s0 old fa u =
      url_loop rest n (i + length (prefixed [d] x)) (if x = None then s0 else s) (if x = None then old else uf) fa u' \<and>
    url_view (F(uf := map_option (\<lambda>t. (i + 1, length t)) x)) u'"
proof (cases x)
  case None
  have "F(uf := None) = F" using assms(5) by auto
  then show ?thesis using assms(4) None by (auto simp: prefixed_def)
next
  case (Some t)
  then obtain c cs where t: "t = c # cs" "\<forall>c\<in>set t. IS_URL_CHAR c" using assms(6) by (cases t) (auto simp: some_of_def)
  have "\<forall>c\<in>set cs. parse_url_char s c = s" "parse_url_char s1 c = s" using t assms(9) by auto
  with url_segment[OF assms(1-4), of s1 c cs rest n "i + 1" fa] t(1) Some
    url_delimiter[of s0 d "t @ rest" "length t + n" i old fa u] assms(7,8)
  show ?thesis by (simp add: prefixed_def)
qed

text \<open>The fields the loop over a printed URL leaves.\<close>

definition url_loop_map :: "url_parts \<Rightarrow> url_map" where
  "url_loop_map p =
     (let i = length (part_schema p) + 3;
          a = length (authority (part_userinfo p) (part_host p) (part_port p));
          j = i + a + length (part_path p);
          k = j + length (prefixed ''?'' (part_query p))
      in (\<lambda>uf. None)(UF_SCHEMA \<mapsto> (0, length (part_schema p)), UF_HOST \<mapsto> (i, a), UF_PATH \<mapsto> (i + a, length (part_path p)),
           UF_QUERY := map_option (\<lambda>t. (j + 1, length t)) (part_query p),
           UF_FRAGMENT := map_option (\<lambda>t. (k + 1, length t)) (part_fragment p)))"

lemma url_loop_print:
  assumes "url_valid p" "field_set u = 0"
  shows "\<exists>u'. url_loop (print_url p @ junk) (length (print_url p)) 0 s_req_spaces_before_url UF_MAX False u =
     Inr (Some (part_userinfo p \<noteq> None), u') \<and> url_view (url_loop_map p) u'"
proof -
  let ?sch = "part_schema p" and ?a = "authority (part_userinfo p) (part_host p) (part_port p)" and ?fa = "part_userinfo p \<noteq> None"
  let ?q = "prefixed ''?'' (part_query p)" and ?f = "prefixed ''#'' (part_fragment p)"
  let ?i = "length ?sch + 3"
  obtain c cs where c: "?sch = c # cs" "IS_ALPHA c" "\<forall>c\<in>set cs. IS_ALPHA c"
    using assms(1) by (cases ?sch) (auto simp: url_valid_def)
  obtain t where t: "part_path p = CHR ''/'' # t" "\<forall>c\<in>set t. IS_URL_CHAR c" using assms(1) by (auto simp: url_valid_def)
  have b: "url_byte s_req_schema = Url_byte UF_SCHEMA" "url_byte s_req_path = Url_byte UF_PATH"
    "url_byte s_req_query_string = Url_byte UF_QUERY" "url_byte s_req_fragment = Url_byte UF_FRAGMENT"
    "url_byte s_req_schema_slash = Url_delimiter" "url_byte s_req_schema_slash_slash = Url_delimiter"
    "url_byte s_req_server_start = Url_delimiter" "url_byte s_req_query_string_start = Url_delimiter"
    "url_byte s_req_fragment_start = Url_delimiter"
    by (simp_all add: url_byte_def)
  have v0: "url_view (\<lambda>uf. None) u" using assms(2) by (simp add: url_view_def has_field_def)
  define r1 where "r1 = ?a @ part_path p @ ?q @ ?f @ junk"
  define n1 where "n1 = length ?a + (length (part_path p) + (length ?q + (length ?f + 0)))"
  have "\<forall>c\<in>set cs. parse_url_char s_req_schema c = s_req_schema" "parse_url_char s_req_spaces_before_url c = s_req_schema"
    using c url_char_states(1) by auto
  with url_segment[OF b(1) _ _ v0, of UF_MAX s_req_spaces_before_url c cs "''://'' @ r1" "3 + n1" 0 False] c(1)
  obtain u1 where 1: "url_loop (?sch @ ''://'' @ r1) (length ?sch + (3 + n1)) 0 s_req_spaces_before_url UF_MAX False u =
      url_loop (''://'' @ r1) (3 + n1) (length ?sch) s_req_schema UF_SCHEMA False u1"
    "url_view ((\<lambda>uf. None)(UF_SCHEMA \<mapsto> (0, length ?sch))) u1" by auto
  have 2: "url_loop (''://'' @ r1) (3 + n1) (length ?sch) s_req_schema UF_SCHEMA False u1 =
      url_loop r1 n1 ?i s_req_server_start UF_SCHEMA False u1"
    by (simp add: url_delimiters b numeral_3_eq_3)
  have hp: "some_of IS_USERINFO_CHAR (part_userinfo p)" "host_valid (part_host p)" using assms(1) by (simp_all add: url_valid_def)
  from url_authority[OF 1(2) _ hp(1) conjunct1[OF host_port_text_ok[OF hp(2)]] conjunct2[OF host_port_text_ok[OF hp(2)]],
      of UF_SCHEMA ?a "part_port p" "part_path p @ ?q @ ?f @ junk" "length (part_path p) + (length ?q + (length ?f + 0))" ?i]
  obtain u2 where 3: "url_loop r1 n1 ?i s_req_server_start UF_SCHEMA False u1 =
      url_loop (part_path p @ ?q @ ?f @ junk) (length (part_path p) + (length ?q + (length ?f + 0))) (?i + length ?a) s_req_server UF_HOST ?fa u2"
    "url_view ((\<lambda>uf. None)(UF_SCHEMA \<mapsto> (0, length ?sch), UF_HOST \<mapsto> (?i, length ?a))) u2"
    unfolding r1_def n1_def by (auto simp: authority_parts user_text_def)
  from url_segment[OF b(2) _ _ 3(2), of UF_HOST s_req_server "CHR ''/''" t "?q @ ?f @ junk" "length ?q + (length ?f + 0)" "?i + length ?a" ?fa]
  obtain u3 where 4: "url_loop (part_path p @ ?q @ ?f @ junk) (length (part_path p) + (length ?q + (length ?f + 0))) (?i + length ?a) s_req_server UF_HOST ?fa u2 =
      url_loop (?q @ ?f @ junk) (length ?q + (length ?f + 0)) (?i + length ?a + length (part_path p)) s_req_path UF_PATH ?fa u3"
    "url_view ((\<lambda>uf. None)(UF_SCHEMA \<mapsto> (0, length ?sch), UF_HOST \<mapsto> (?i, length ?a), UF_PATH \<mapsto> (?i + length ?a, length (part_path p)))) u3"
    using t url_char_states(2) url_delimiters(4) by auto
  let ?j = "?i + length ?a + length (part_path p)" and ?s = "if part_query p = None then s_req_path else s_req_query_string"
  let ?old = "if part_query p = None then UF_PATH else UF_QUERY"
  have qf: "some_of IS_URL_CHAR (part_query p)" "some_of IS_URL_CHAR (part_fragment p)" using assms(1) by (simp_all add: url_valid_def)
  from url_optional[OF b(3) _ _ 4(2) _ qf(1) b(8) url_delimiters(5), of UF_PATH "?f @ junk" "length ?f + 0" ?j ?fa] url_char_states(3)
  obtain u4 where 5: "url_loop (?q @ ?f @ junk) (length ?q + (length ?f + 0)) ?j s_req_path UF_PATH ?fa u3 =
      url_loop (?f @ junk) (length ?f + 0) (?j + length ?q) ?s ?old ?fa u4"
    "url_view ((\<lambda>uf. None)(UF_SCHEMA \<mapsto> (0, length ?sch), UF_HOST \<mapsto> (?i, length ?a), UF_PATH \<mapsto> (?i + length ?a, length (part_path p)),
       UF_QUERY := map_option (\<lambda>t. (?j + 1, length t)) (part_query p))) u4"
    by auto
  have d: "parse_url_char ?s CHR ''#'' = s_req_fragment_start" by (simp add: url_delimiters)
  have old: "?old \<noteq> UF_FRAGMENT" "s_req_fragment \<noteq> s_req_server_with_at" by simp_all
  obtain u5 s5 old5 where 6: "url_loop (?f @ junk) (length ?f + 0) (?j + length ?q) ?s ?old ?fa u4 =
      url_loop junk 0 (?j + length ?q + length ?f) s5 old5 ?fa u5"
    "url_view (url_loop_map p) u5"
    using url_optional[OF b(4) old(2,1) 5(2) _ qf(2) b(9) d url_char_states(4), of junk 0 "?j + length ?q" ?fa]
    unfolding url_loop_map_def Let_def by fastforce
  have p: "print_url p @ junk = ?sch @ ''://'' @ r1" "length (print_url p) = length ?sch + (3 + n1)"
    by (simp_all add: print_url_def r1_def n1_def)
  have "url_loop (print_url p @ junk) (length (print_url p)) 0 s_req_spaces_before_url UF_MAX False u = Inr (Some ?fa, u5)"
    unfolding p 1(1) 2 3(1) 4(1) 5(1) 6(1) by simp
  with 6(2) show ?thesis by blast
qed

section \<open>Reading the fields\<close>

lemma field_text_view:
  assumes "url_view F u" "F uf = Some (length pre, length t)" "buf = pre @ t @ post" "length pre + length t < 65536"
  shows "field_text uf buf u = Some t"
proof -
  have "has_field uf u" "unat (f_off (field_data u uf)) = length pre" "unat (f_len (field_data u uf)) = length t"
    using assms(1,2,4) by (simp_all add: url_view_def unat_of_nat take_bit_nat_eq_self)
  then show ?thesis using assms(3) by (simp add: field_text_def)
qed

lemma field_text_None: "url_view F u \<Longrightarrow> F uf = None \<Longrightarrow> field_text uf buf u = None"
  by (simp add: url_view_def field_text_def)

text \<open>The port is read up to the first byte that is no digit, wherever the field ends.\<close>

lemma check_port_view:
  assumes "url_view F u" "F UF_PORT = Some (length pre, k)" "length pre < 65536"
    and "buf = pre @ ds @ c # post" "ds \<noteq> []" "\<forall>d\<in>set ds. IS_NUM d" "\<not> IS_NUM c" "digits_value ds < 65536"
  shows "check_port buf u = Inr (0, u\<lparr>port := of_nat (digits_value ds)\<rparr>)"
proof -
  have "has_field UF_PORT u" "unat (f_off (field_data u UF_PORT)) = length pre"
    using assms(1,2,3) by (simp_all add: url_view_def unat_of_nat take_bit_nat_eq_self)
  moreover have "strtoul (ds @ c # post) = (digits_value ds, c # post, False)"
    by (rule strtoul_digits) (use assms in simp_all)
  ultimately show ?thesis using assms(4,8) by (simp add: check_port_def)
qed

lemma port_kept [simp]:
  "port (set_off uf n u) = port u" "port (set_len uf w u) = port u" "port (inc_len uf u) = port u"
  "port (mark_field uf u) = port u" "port (open_field uf n u) = port u" "port (start_field uf n u) = port u"
  by (simp_all add: set_off_def set_len_def inc_len_def mark_field_def open_field_def start_field_def)

lemma url_loop_port: "url_loop bs n i s old fa u = Inr (r, u') \<Longrightarrow> port u' = port u"
  by (induction bs n i s old fa u rule: url_loop.induct) (auto simp: Let_def split: url_byte.splits if_splits)

lemma host_field_port: "port (host_field i s new_s u) = port u"
  by (simp add: host_field_def split: http_host_state.split)

lemma host_loop_port: "host_loop bs n i s u = Inr (r, u') \<Longrightarrow> port u' = port u"
  by (induction bs n i s u rule: host_loop.induct) (auto simp: Let_def host_field_port split: if_splits)

lemma parse_host_port: "http_parse_host buf u fa = Inr (r, u') \<Longrightarrow> port u' = port u"
  by (auto simp: http_parse_host_def Let_def rbind_Inr_iff dest: host_loop_port split: if_splits)

lemma has_host_set: "has_field UF_HOST u \<Longrightarrow> field_set u AND (uf_bit UF_SCHEMA OR uf_bit UF_HOST) \<noteq> 0"
  by (simp add: has_field_def bit.conj_disj_distrib or_eq_0_iff)

section \<open>Whole URLs\<close>

text \<open>The fields after the host parser, and where each stands in the text.\<close>

definition url_map_of :: "url_parts \<Rightarrow> url_map" where
  "url_map_of p = authority_map (length (part_schema p) + 3) (part_userinfo p) (part_host p) (part_port p) (url_loop_map p)"

lemma field_text_print:
  assumes "url_view (url_map_of p) u" "length (print_url p) < 65536"
  shows "field_text uf (print_url p @ junk) u = url_part p uf"
proof -
  let ?sch = "part_schema p" and ?us = "user_text (part_userinfo p)" and ?h = "host_text (part_host p)"
  let ?n = "prefixed '':'' (map_option decimal (part_port p))" and ?pa = "part_path p"
  let ?q = "prefixed ''?'' (part_query p)" and ?f = "prefixed ''#'' (part_fragment p)"
  have t: "print_url p = ?sch @ ''://'' @ ?us @ ?h @ ?n @ ?pa @ ?q @ ?f"
    by (simp add: print_url_def authority_parts host_port_text_def)
  note view = field_text_view[OF assms(1), where buf = "print_url p @ junk"]
  note none = field_text_None[OF assms(1)]
  note maps = url_map_of_def authority_map_def url_loop_map_def Let_def
  show ?thesis
  proof (cases uf)
    case UF_SCHEMA
    then show ?thesis using view[of uf "[]" ?sch "''://'' @ ?us @ ?h @ ?n @ ?pa @ ?q @ ?f @ junk"] assms(2)
      by (simp add: maps t url_part_def)
  next
    case UF_HOST
    then show ?thesis
      using view[of uf "?sch @ ''://'' @ ?us" "host_bytes (part_host p)" "?n @ ?pa @ ?q @ ?f @ junk"]
        view[of uf "?sch @ ''://'' @ ?us @ ''[''" "host_bytes (part_host p)" "'']'' @ ?n @ ?pa @ ?q @ ?f @ junk"] assms(2)
      by (cases "part_host p") (simp_all add: maps t url_part_def host_off_def)
  next
    case UF_PORT
    then show ?thesis
      using view[of uf "?sch @ ''://'' @ ?us @ ?h @ '':''" "decimal (the (part_port p))" "?pa @ ?q @ ?f @ junk"] none[of uf] assms(2)
      by (cases "part_port p") (simp_all add: maps t url_part_def prefixed_def)
  next
    case UF_PATH
    then show ?thesis
      using view[of uf "?sch @ ''://'' @ ?us @ ?h @ ?n" ?pa "?q @ ?f @ junk"] assms(2)
      by (simp add: maps t url_part_def authority_parts host_port_text_def)
  next
    case UF_QUERY
    then show ?thesis
      using view[of uf "?sch @ ''://'' @ ?us @ ?h @ ?n @ ?pa @ ''?''" "the (part_query p)" "?f @ junk"] none[of uf] assms(2)
      by (cases "part_query p") (simp_all add: maps t url_part_def authority_parts host_port_text_def prefixed_def)
  next
    case UF_FRAGMENT
    then show ?thesis
      using view[of uf "?sch @ ''://'' @ ?us @ ?h @ ?n @ ?pa @ ?q @ ''#''" "the (part_fragment p)" junk] none[of uf] assms(2)
      by (cases "part_fragment p") (simp_all add: maps t url_part_def authority_parts host_port_text_def prefixed_def)
  next
    case UF_USERINFO
    then show ?thesis
      using view[of uf "?sch @ ''://''" "the (part_userinfo p)" "''@'' @ ?h @ ?n @ ?pa @ ?q @ ?f @ junk"] none[of uf] assms(2)
      by (cases "part_userinfo p") (simp_all add: maps t url_part_def user_text_def)
  next
    case UF_MAX
    then show ?thesis using none[of uf] by (simp add: maps url_part_def)
  qed
qed

lemma check_port_print:
  assumes "url_valid p" "url_view (url_map_of p) u" "length (print_url p) < 65536" "port u = 0"
  shows "check_port (print_url p @ junk) u = Inr (0, u\<lparr>port := of_nat (case part_port p of None \<Rightarrow> 0 | Some k \<Rightarrow> k)\<rparr>)"
proof (cases "part_port p")
  case None
  then have "\<not> has_field UF_PORT u" using assms(2) by (simp add: url_view_def url_map_of_def authority_map_def Let_def)
  then show ?thesis using None assms(4) by (simp add: check_port_def)
next
  case (Some k)
  let ?pre = "part_schema p @ ''://'' @ user_text (part_userinfo p) @ host_text (part_host p) @ '':''"
  obtain t where t: "part_path p = CHR ''/'' # t" using assms(1) by (auto simp: url_valid_def)
  have k: "k < 65536" using assms(1) Some by (simp add: url_valid_def)
  have "check_port (print_url p @ junk) u = Inr (0, u\<lparr>port := of_nat (digits_value (decimal k))\<rparr>)"
  proof (rule check_port_view[OF assms(2)])
    show "url_map_of p UF_PORT = Some (length ?pre, length (decimal k))"
      using Some by (simp add: url_map_of_def authority_map_def Let_def)
    show "print_url p @ junk = ?pre @ decimal k @ CHR ''/'' # (t @ prefixed ''?'' (part_query p) @ prefixed ''#'' (part_fragment p) @ junk)"
      using Some t by (simp add: print_url_def authority_parts host_port_text_def prefixed_def)
    show "length ?pre < 65536" using assms(3) Some by (simp add: print_url_def authority_parts host_port_text_def prefixed_def)
  qed (use k decimal_digits in \<open>simp_all add: digits_value_decimal IS_NUM_def\<close>)
  then show ?thesis using Some by (simp add: digits_value_decimal)
qed

lemma parse_url_print:
  assumes "url_valid p" "length (print_url p) < 65536"
  shows "\<exists>u'. http_parser_parse_url (print_url p @ junk) (length (print_url p)) False u = Inr (0, u') \<and>
     port u' = of_nat (case part_port p of None \<Rightarrow> 0 | Some k \<Rightarrow> k) \<and>
     (\<forall>uf. field_text uf (print_url p @ junk) u' = url_part p uf)"
proof -
  let ?u = "u\<lparr>port := 0, field_set := 0\<rparr>" and ?buf = "print_url p @ junk"
  let ?a = "authority (part_userinfo p) (part_host p) (part_port p)" and ?i = "length (part_schema p) + 3"
  obtain u1 where 1: "url_loop ?buf (length (print_url p)) 0 s_req_spaces_before_url UF_MAX False ?u = Inr (Some (part_userinfo p \<noteq> None), u1)"
    "url_view (url_loop_map p) u1" using url_loop_print[OF assms(1), of ?u junk] by auto
  have hp: "some_of IS_USERINFO_CHAR (part_userinfo p)" "host_valid (part_host p)" using assms(1) by (simp_all add: url_valid_def)
  have "drop ?i ?buf = ?a @ (part_path p @ prefixed ''?'' (part_query p) @ prefixed ''#'' (part_fragment p) @ junk)"
    "?i + length ?a < 65536" using assms(2) by (simp_all add: print_url_def)
  from parse_authority[OF 1(2) _ _ _ refl hp this] obtain u2 where
    2: "http_parse_host ?buf u1 (part_userinfo p \<noteq> None) = Inr (0, u2)" "url_view (url_map_of p) u2"
    by (auto simp: url_map_of_def url_loop_map_def Let_def)
  have "field_set u1 AND (uf_bit UF_SCHEMA OR uf_bit UF_HOST) \<noteq> 0"
    by (rule has_host_set) (use 1(2) in \<open>simp add: url_view_def url_loop_map_def Let_def\<close>)
  moreover have "port u2 = 0" using url_loop_port[OF 1(1)] parse_host_port[OF 2(1)] by simp
  ultimately have "http_parser_parse_url ?buf (length (print_url p)) False u =
      Inr (0, u2\<lparr>port := of_nat (case part_port p of None \<Rightarrow> 0 | Some k \<Rightarrow> k)\<rparr>)"
    using 1(1) 2(1) check_port_print[OF assms(1) 2(2) assms(2), of junk] by (simp add: http_parser_parse_url_def)
  moreover have "field_text uf ?buf (u2\<lparr>port := x\<rparr>) = field_text uf ?buf u2" for uf x
    by (simp add: field_text_def)
  ultimately show ?thesis using field_text_print[OF 2(2) assms(2), of _ junk] by simp
qed

section \<open>The target of CONNECT\<close>

lemma connect_field_set:
  assumes "url_view F u" "\<And>uf. F uf \<noteq> None \<longleftrightarrow> uf = UF_HOST \<or> uf = UF_PORT"
  shows "field_set u = uf_bit UF_HOST OR uf_bit UF_PORT"
proof -
  let ?v = "mark_field UF_PORT (mark_field UF_HOST (u\<lparr>field_set := 0\<rparr>))"
  have "field_set u = field_set ?v"
  proof (rule field_set_eqI)
    show "\<forall>n\<ge>8. \<not> bit (field_set ?v) n" by (simp add: bit_mark)
    show "has_field uf u = has_field uf ?v" for uf
      using assms by (auto simp: url_view_def) (simp_all add: has_field_def)
  qed (use assms(1) in \<open>simp add: url_view_def\<close>)
  then show ?thesis by (simp add: mark_field_def)
qed

lemma parse_url_connect:
  assumes "host_valid h" "\<forall>d\<in>set ds. IS_NUM d" "\<not> IS_NUM c" "digits_value (decimal k @ ds) < 65536"
    and "a = authority None h (Some k)" "length a < 65536"
  shows "\<exists>u'. http_parser_parse_url (a @ ds @ c # junk) (length a) True u = Inr (0, u') \<and>
     port u' = of_nat (digits_value (decimal k @ ds)) \<and>
     field_text UF_HOST (a @ ds @ c # junk) u' = Some (host_bytes h) \<and> field_text UF_PORT (a @ ds @ c # junk) u' = Some (decimal k)"
proof -
  let ?u = "u\<lparr>port := 0, field_set := 0\<rparr>" and ?buf = "a @ ds @ c # junk" and ?F = "\<lambda>uf. None"
  let ?G = "authority_map 0 None h (Some k) (?F(UF_HOST \<mapsto> (0, length a)))"
  have at: "a = host_port_text h (Some k)" using assms(5) by (simp add: authority_parts user_text_def)
  have a: "a = host_text h @ '':'' @ decimal k" using at by (simp add: host_port_text_def prefixed_def)
  have v0: "url_view ?F ?u" by (simp add: url_view_def has_field_def)
  have "some_of IS_USERINFO_CHAR None" by (simp add: some_of_def)
  from url_authority[OF v0 _ this, of UF_MAX a a "ds @ c # junk" 0 0] host_port_text_ok[OF assms(1), of "Some k"] at
  obtain u1 where 1: "url_loop ?buf (length a) 0 s_req_server_start UF_MAX False ?u = Inr (Some False, u1)"
    "url_view (?F(UF_HOST \<mapsto> (0, length a))) u1" by auto
  have "some_of IS_USERINFO_CHAR None" by (simp add: some_of_def)
  from parse_authority[OF 1(2) _ _ _ assms(5) this assms(1), of 0 ?buf "ds @ c # junk"] assms(6) obtain u2 where
    2: "http_parse_host ?buf u1 False = Inr (0, u2)" "url_view ?G u2" by auto
  have G: "?G UF_PORT = Some (length (host_text h @ '':''), length (decimal k))" "?G UF_HOST = Some (host_off h, length (host_bytes h))"
    by (simp_all add: authority_map_def Let_def user_text_def)
  have set: "field_set u2 = uf_bit UF_HOST OR uf_bit UF_PORT"
    by (rule connect_field_set[OF 2(2)]) (auto simp: authority_map_def Let_def)
  have "field_set u1 AND (uf_bit UF_SCHEMA OR uf_bit UF_HOST) \<noteq> 0"
    by (rule has_host_set) (use 1(2) in \<open>simp add: url_view_def\<close>)
  moreover have "check_port ?buf u2 = Inr (0, u2\<lparr>port := of_nat (digits_value (decimal k @ ds))\<rparr>)"
  proof (rule check_port_view[OF 2(2) G(1)])
    show "?buf = (host_text h @ '':'') @ (decimal k @ ds) @ c # junk" using a by simp
  qed (use assms(2,3,4,6) a decimal_digits in auto)
  ultimately have "http_parser_parse_url ?buf (length a) True u = Inr (0, u2\<lparr>port := of_nat (digits_value (decimal k @ ds))\<rparr>)"
    using 1(1) 2(1) set by (simp add: http_parser_parse_url_def)
  moreover have "field_text uf ?buf (u2\<lparr>port := x\<rparr>) = field_text uf ?buf u2" for uf x
    by (simp add: field_text_def)
  moreover have "field_text UF_PORT ?buf u2 = Some (decimal k)"
    by (rule field_text_view[OF 2(2) G(1), of _ "ds @ c # junk"]) (use a assms(6) in simp_all)
  moreover have "field_text UF_HOST ?buf u2 = Some (host_bytes h)"
  proof (cases h)
    case (Host_name t)
    then show ?thesis
      using field_text_view[OF 2(2), of UF_HOST "[]" t ?buf "'':'' @ decimal k @ ds @ c # junk"] G(2) a assms(6)
      by (simp add: host_off_def)
  next
    case (Host_v6 t)
    then show ?thesis
      using field_text_view[OF 2(2), of UF_HOST "''[''" t ?buf "'']:'' @ decimal k @ ds @ c # junk"] G(2) a assms(6)
      by (simp add: host_off_def)
  qed
  ultimately show ?thesis by simp
qed

end
