(* ===== verification/Http_Url_Properties.thy ===== *)
theory Http_Url_Properties
  imports Http_Url_Print
begin

text \<open>
  The properties of \<^verbatim>\<open>http_parser_parse_url\<close>: it reads back a printed URL, stays within its
  buffer, and two places where it does not.
\<close>

definition demo_url :: url_parts where
  "demo_url = \<lparr>part_schema = ''http'', part_userinfo = Some ''me'', part_host = Host_name ''cam.x'', part_port = Some 8080,
     part_path = ''/a'', part_query = Some ''q=1'', part_fragment = Some ''y''\<rparr>"

lemma demo_url_valid: "url_valid demo_url"
  by (simp add: demo_url_def url_valid_def some_of_def char_class_defs IS_URL_CHAR_def BIT_AT_def normal_url_char_def)

lemma demo_url_text: "print_url demo_url = ''http://me@cam.x:8080/a?q=1#y''"
  by (simp add: demo_url_def print_url_def authority_def prefixed_def decimal.simps digit_literals)

definition zero_url :: http_parser_url where
  "zero_url = \<lparr>field_set = 0, port = 0, field_data = (\<lambda>uf. \<lparr>f_off = 0, f_len = 0\<rparr>)\<rparr>"

text \<open>
  C27. Round trip of a URL. The text of an absolute URL (a schema of letters, perhaps a user's
  part, a host by name or an IPv6 address in brackets, perhaps a port below 65536, a path, perhaps
  a query and a fragment) of less than 64K, whatever follows it in memory, is taken apart without
  an error: every field is exactly the part it was printed from, the fields of absent parts are
  not set, and \<^verbatim>\<open>port\<close> is the number, or 0 without one.
\<close>

theorem url_roundtrip:
  assumes "url_valid p" "length (print_url p) < 65536"
  shows "\<exists>u'. http_parser_parse_url (print_url p @ junk) (length (print_url p)) False u = Inr (0, u') \<and>
     port u' = of_nat (case part_port p of None \<Rightarrow> 0 | Some k \<Rightarrow> k) \<and>
     (\<forall>uf. field_text uf (print_url p @ junk) u' = url_part p uf)"
  using parse_url_print[OF assms] .

lemma url_roundtrip_witness:
  "\<exists>u'. http_parser_parse_url (''http://me@cam.x:8080/a?q=1#y'' @ []) 28 False zero_url = Inr (0, u') \<and>
     port u' = 8080 \<and> field_text UF_HOST (''http://me@cam.x:8080/a?q=1#y'' @ []) u' = Some ''cam.x''"
proof -
  have "length (print_url demo_url) < 65536" by (simp add: demo_url_text)
  then obtain u' where u: "http_parser_parse_url (print_url demo_url @ []) (length (print_url demo_url)) False zero_url = Inr (0, u')"
    "port u' = of_nat (case part_port demo_url of None \<Rightarrow> 0 | Some k \<Rightarrow> k)"
    "field_text UF_HOST (print_url demo_url @ []) u' = url_part demo_url UF_HOST"
    using url_roundtrip[OF demo_url_valid, of "[]" zero_url] by blast
  have d: "part_port demo_url = Some 8080" "url_part demo_url UF_HOST = Some ''cam.x''"
    by (simp_all add: demo_url_def url_part_def)
  have "length ''http://me@cam.x:8080/a?q=1#y'' = 28" by simp
  with u have "http_parser_parse_url (''http://me@cam.x:8080/a?q=1#y'' @ []) 28 False zero_url = Inr (0, u')" "port u' = 8080"
    "field_text UF_HOST (''http://me@cam.x:8080/a?q=1#y'' @ []) u' = Some ''cam.x''"
    unfolding demo_url_text d by (simp_all only: option.case of_nat_numeral)
  then show ?thesis by blast
qed

text \<open>
  C28. The target of a CONNECT request, \<^verbatim>\<open>host:port\<close>: the two fields are right, but the number is
  read with \<^verbatim>\<open>strtoul\<close> and without the end of the buffer. Digits that stand in memory behind the
  \<^verbatim>\<open>buflen\<close> bytes, \<^theory_text>\<open>ds\<close> here, become part of \<^verbatim>\<open>port\<close>; without such digits it is the port of
  the text.
\<close>

theorem connect_target:
  assumes "host_valid h" "\<forall>d\<in>set ds. IS_NUM d" "\<not> IS_NUM c" "digits_value (decimal k @ ds) < 65536"
    and "a = authority None h (Some k)" "length a < 65536"
  shows "\<exists>u'. http_parser_parse_url (a @ ds @ c # junk) (length a) True u = Inr (0, u') \<and>
     port u' = of_nat (digits_value (decimal k @ ds)) \<and>
     field_text UF_HOST (a @ ds @ c # junk) u' = Some (host_bytes h) \<and> field_text UF_PORT (a @ ds @ c # junk) u' = Some (decimal k)"
  using parse_url_connect[OF assms] .

lemma connect_target_witness:
  "\<exists>u'. http_parser_parse_url (''h:8'' @ ''0'' @ NUL # []) 3 True zero_url = Inr (0, u') \<and> port u' = 80 \<and>
     field_text UF_PORT (''h:8'' @ ''0'' @ NUL # []) u' = Some ''8''"
proof -
  have "\<exists>u'. http_parser_parse_url (''h:8'' @ ''0'' @ NUL # []) (length ''h:8'') True zero_url = Inr (0, u') \<and>
     port u' = of_nat (digits_value (decimal 8 @ ''0'')) \<and>
     field_text UF_HOST (''h:8'' @ ''0'' @ NUL # []) u' = Some (host_bytes (Host_name ''h'')) \<and>
     field_text UF_PORT (''h:8'' @ ''0'' @ NUL # []) u' = Some (decimal 8)"
    by (rule connect_target)
      (simp_all add: char_class_defs digits_value_def digit_val_def authority_def prefixed_def digit_literals)
  then show ?thesis by (auto simp: digits_value_def digit_val_def digit_literals numeral_3_eq_3)
qed

text \<open>
  C29. Safety of the URL parser. On any C string of \<^theory_text>\<open>n\<close> bytes, of any length, when the caller's
  structure is zeroed, it returns 0 or 1: its assertion never fails and it never reads
  outside the string; when it returns 0, every field it sets lies within the string.
\<close>

theorem url_parser_within_string:
  assumes "field_data u UF_HOST = \<lparr>f_off = 0, f_len = 0\<rparr>" "n < length buf" "buf ! n = NUL"
  shows "\<exists>r u'. http_parser_parse_url buf n is_connect u = Inr (r, u') \<and> (r = 0 \<or> r = 1) \<and>
     (r = 0 \<longrightarrow> (\<forall>uf. has_field uf u' \<longrightarrow> unat (f_off (field_data u' uf)) + unat (f_len (field_data u' uf)) \<le> n))"
proof -
  have "field_end UF_HOST u \<le> n" using assms(1) by (simp add: field_end_def)
  from parse_url_ok[OF this assms(2,3), of is_connect] show ?thesis
    by (simp add: fields_within_def field_end_def)
qed

lemma url_parser_within_string_witness:
  "\<exists>r u'. http_parser_parse_url ([CHR ''/'', CHR 0x80, NUL]) 2 False zero_url = Inr (r, u') \<and> (r = 0 \<or> r = 1) \<and>
     (r = 0 \<longrightarrow> (\<forall>uf. has_field uf u' \<longrightarrow> unat (f_off (field_data u' uf)) + unat (f_len (field_data u' uf)) \<le> 2))"
  by (rule url_parser_within_string) (simp_all add: zero_url_def)

lemma toto_loop:
  "\<exists>u1. url_loop (''http:///toto'' @ junk) 12 0 s_req_spaces_before_url UF_MAX False (u\<lparr>port := 0, field_set := 0\<rparr>) = Inr (Some False, u1) \<and>
     field_data u1 UF_HOST = field_data u UF_HOST \<and> has_field UF_SCHEMA u1 \<and> \<not> has_field UF_HOST u1 \<and> \<not> has_field UF_PORT u1"
proof -
  have s: "parse_url_char s_req_spaces_before_url CHR ''h'' = s_req_schema" "parse_url_char s_req_schema CHR ''t'' = s_req_schema"
    "parse_url_char s_req_schema CHR ''p'' = s_req_schema" "parse_url_char s_req_server_start CHR ''/'' = s_req_path"
    "parse_url_char s_req_path CHR ''t'' = s_req_path" "parse_url_char s_req_path CHR ''o'' = s_req_path"
    by (simp_all add: parse_url_char_def parse_server_char_def IS_ALPHA_def LOWER_def IS_URL_CHAR_def BIT_AT_def normal_url_char_def)
  have b: "url_byte s_req_schema = Url_byte UF_SCHEMA" "url_byte s_req_path = Url_byte UF_PATH"
    "url_byte s_req_schema_slash = Url_delimiter" "url_byte s_req_schema_slash_slash = Url_delimiter"
    "url_byte s_req_server_start = Url_delimiter"
    by (simp_all add: url_byte_def)
  have "\<not> has_field uf (u\<lparr>port := 0, field_set := 0\<rparr>)" for uf by (simp add: has_field_def)
  then show ?thesis by (simp add: numeral_eq_Suc s b url_delimiters Let_def open_field_def)
qed

lemma parse_after_loop:
  assumes "url_loop buf n 0 s_req_spaces_before_url UF_MAX False (u\<lparr>port := 0, field_set := 0\<rparr>) = Inr (Some fa, u1)"
    and "has_field UF_SCHEMA u1"
  shows "http_parser_parse_url buf n False u =
     rbind (http_parse_host buf u1 fa) (\<lambda>(ret, u). if ret \<noteq> 0 then Inr (1, u) else check_port buf u)"
proof -
  have "field_set u1 AND (uf_bit UF_SCHEMA OR uf_bit UF_HOST) \<noteq> 0"
    using assms(2) by (simp add: has_field_def bit.conj_disj_distrib or_eq_0_iff)
  then show ?thesis using assms(1) by (simp add: http_parser_parse_url_def cong: if_cong)
qed

text \<open>
  C30. A URL without a host. The comment says that parsing \<^verbatim>\<open>http:///toto\<close> will fail; it does when
  the caller's structure has an empty host field. The field is not set by the loop, but the host
  parser reads it nevertheless: with what stands there it goes on reading behind the buffer, or,
  when the field happens to name the first four bytes, accepts the URL.
\<close>

theorem missing_host_reads_callers_field:
  assumes "u = v\<lparr>field_data := (field_data v)(UF_HOST := \<lparr>f_off = off, f_len = n\<rparr>)\<rparr>"
  shows "(n = 0 \<longrightarrow> (\<exists>u'. http_parser_parse_url (''http:///toto'' @ junk) 12 False u = Inr (1, u'))) \<and>
    (n \<noteq> 0 \<and> 12 + length junk \<le> unat off \<longrightarrow>
       http_parser_parse_url (''http:///toto'' @ junk) 12 False u = Inl (Out_of_bounds In_http_parser)) \<and>
    (off = 0 \<and> n = 4 \<longrightarrow> (\<exists>u'. http_parser_parse_url (''http:///toto'' @ junk) 12 False u = Inr (0, u')))"
proof -
  obtain u1 where 1: "url_loop (''http:///toto'' @ junk) 12 0 s_req_spaces_before_url UF_MAX False (u\<lparr>port := 0, field_set := 0\<rparr>) =
      Inr (Some False, u1)" "field_data u1 UF_HOST = \<lparr>f_off = off, f_len = n\<rparr>" "\<not> has_field UF_PORT u1" "has_field UF_SCHEMA u1"
    using toto_loop[of junk u] assms by auto
  have none: "http_parse_host (''http:///toto'' @ junk) u1 False = Inr (1, set_len UF_HOST 0 u1)" if "n = 0"
    using 1(2) that by (simp add: http_parse_host_def host_unfinished_def)
  have outside: "http_parse_host (''http:///toto'' @ junk) u1 False = Inl (Out_of_bounds In_http_parser)"
    if "n \<noteq> 0" "12 + length junk \<le> unat off"
  proof -
    obtain k where "unat n = Suc k" using \<open>n \<noteq> 0\<close> by (metis not0_implies_Suc unat_eq_zero)
    moreover have "drop (unat off) (''http:///toto'' @ junk) = []" using that(2) by simp
    ultimately show ?thesis using 1(2) by (simp add: http_parse_host_def del: append.simps append_Cons)
  qed
  have accepted: "\<exists>u2. http_parse_host (''http:///toto'' @ junk) u1 False = Inr (0, u2) \<and> \<not> has_field UF_PORT u2" if "off = 0" "n = 4"
  proof -
    have h: "http_parse_host_char s_http_host_start CHR ''h'' = s_http_host" "http_parse_host_char s_http_host CHR ''t'' = s_http_host"
      "http_parse_host_char s_http_host CHR ''p'' = s_http_host"
      by (simp_all add: http_parse_host_char.simps char_class_defs)
    have "unat n = Suc (Suc (Suc (Suc 0)))" using that(2) by simp
    then show ?thesis using 1(2,3) that(1) by (simp add: http_parse_host_def h Let_def host_unfinished_def host_field_def)
  qed
  show ?thesis
    unfolding parse_after_loop[OF 1(1,4)] using none outside accepted by (auto simp: check_port_def)
qed

lemma missing_host_reads_callers_field_witness:
  "http_parser_parse_url (''http:///toto'' @ [NUL]) 12 False (zero_url\<lparr>field_data := (field_data zero_url)(UF_HOST := \<lparr>f_off = 13, f_len = 1\<rparr>)\<rparr>) =
     Inl (Out_of_bounds In_http_parser)"
  using missing_host_reads_callers_field[OF refl, where junk = "[NUL]" and v = zero_url and off = 13 and n = 1] by simp

end
