(* ===== verification/Http_Exec.thy ===== *)
theory Http_Exec
  imports Http_Base
begin

text \<open>
  What \<^verbatim>\<open>http_parser_execute\<close> works on: the parser, its local variables and the callbacks.

  A callback is a parameter: a function of the parser and the application's state. It may
  fault; otherwise it gives its return value, whether it called \<^verbatim>\<open>http_parser_pause(parser, 1)\<close>
  (the one change of the parser the header offers to a callback) and the application's new
  state. A callback that is not set is \<^theory_text>\<open>None\<close>.
\<close>

type_synonym 's cb_result = "(int \<times> bool \<times> 's) res"
type_synonym 's http_cb = "http_parser \<Rightarrow> 's \<Rightarrow> 's cb_result"
type_synonym 's http_data_cb = "http_parser \<Rightarrow> bytes \<Rightarrow> 's \<Rightarrow> 's cb_result"

record 's http_parser_settings =
  on_message_begin :: "'s http_cb option"
  on_url :: "'s http_data_cb option"
  on_status_complete :: "'s http_cb option"
  on_header_field :: "'s http_data_cb option"
  on_header_value :: "'s http_data_cb option"
  on_headers_complete :: "'s http_cb option"
  on_body :: "'s http_data_cb option"
  on_message_complete :: "'s http_cb option"

text \<open>
  The variables of one call: the parser, \<^verbatim>\<open>p - data\<close>, the four marks (offsets in \<^verbatim>\<open>data\<close>;
  \<^theory_text>\<open>None\<close> is the null pointer) and the application's state.
\<close>

record 's exec =
  prs :: http_parser
  pos :: nat
  field_mark :: "nat option"
  value_mark :: "nat option"
  url_mark :: "nat option"
  body_mark :: "nat option"
  app :: 's

text \<open>
  How the code of a state ends: with \<^verbatim>\<open>break\<close> (on to the next byte), \<^verbatim>\<open>goto reexecute_byte\<close>,
  \<^verbatim>\<open>return\<close>, \<^verbatim>\<open>goto error\<close>, or in a fault.
\<close>

datatype 's ctl =
    Next "'s exec"
  | Again "'s exec"
  | Return nat "'s exec"
  | Error "'s exec"
  | Fault fault

definition to_state :: "state \<Rightarrow> 's exec \<Rightarrow> 's exec" where
  "to_state s ex = prs_update (hp_state_update (\<lambda>_. s)) ex"

definition goto_error :: "http_errno \<Rightarrow> 's exec \<Rightarrow> 's ctl" where
  "goto_error e ex = Error (prs_update (hp_errno_update (\<lambda>_. e)) ex)"

definition STRICT_CHECK :: "bool \<Rightarrow> 's exec \<Rightarrow> 's ctl \<Rightarrow> 's ctl" where
  "STRICT_CHECK cond ex k = (if cond then goto_error HPE_STRICT ex else k)"

definition assert_parser :: "bool \<Rightarrow> 's ctl \<Rightarrow> 's ctl" where
  "assert_parser cond k = (if cond then k else Fault (Assert_failed In_http_parser))"

text \<open>\<^verbatim>\<open>MARK(FOR)\<close>: a mark that is set already stays.\<close>

definition set_mark :: "nat \<Rightarrow> nat option \<Rightarrow> nat option" where
  "set_mark p m = (case m of None \<Rightarrow> Some p | Some q \<Rightarrow> Some q)"

text \<open>What a callback's outcome does to the call: shared by both callback macros.\<close>

definition run_callback ::
  "'s cb_result \<Rightarrow> http_errno \<Rightarrow> nat \<Rightarrow> 's exec \<Rightarrow> ('s exec \<Rightarrow> 's ctl) \<Rightarrow> 's ctl" where
  "run_callback r err er ex k =
     (case r of
        Inl f \<Rightarrow> Fault f
      | Inr (ret, paused, s') \<Rightarrow>
          (case (if paused then http_parser_pause (prs ex) True else Inr (prs ex)) of
             Inl f \<Rightarrow> Fault f
           | Inr p1 \<Rightarrow>
               let p2 = (if ret \<noteq> 0 then p1\<lparr>hp_errno := err\<rparr> else p1);
                   ex' = ex\<lparr>prs := p2, app := s'\<rparr>
               in if hp_errno p2 \<noteq> HPE_OK then Return er ex' else k ex'))"

definition callback_notify ::
  "'s http_cb option \<Rightarrow> http_errno \<Rightarrow> nat \<Rightarrow> 's exec \<Rightarrow> ('s exec \<Rightarrow> 's ctl) \<Rightarrow> 's ctl" where
  "callback_notify cb err er ex k =
     assert_parser (hp_errno (prs ex) = HPE_OK)
       (case cb of
          None \<Rightarrow> k ex
        | Some f \<Rightarrow> run_callback (f (prs ex) (app ex)) err er ex k)"

text \<open>\<^verbatim>\<open>CALLBACK_DATA_\<close> on the bytes from the mark up to \<^theory_text>\<open>e\<close> (excluded).\<close>

definition callback_data ::
  "'s http_data_cb option \<Rightarrow> http_errno \<Rightarrow> nat option \<Rightarrow> ('s exec \<Rightarrow> 's exec) \<Rightarrow> bytes \<Rightarrow> nat \<Rightarrow> nat \<Rightarrow>
   's exec \<Rightarrow> ('s exec \<Rightarrow> 's ctl) \<Rightarrow> 's ctl" where
  "callback_data cb err mark clear data e er ex k =
     assert_parser (hp_errno (prs ex) = HPE_OK)
       (case mark of
          None \<Rightarrow> k ex
        | Some m \<Rightarrow>
            (case cb of
               None \<Rightarrow> k (clear ex)
             | Some f \<Rightarrow>
                 run_callback (f (prs ex) (slice m (e - m) data) (app ex)) err er ex
                   (\<lambda>ex'. k (clear ex'))))"

text \<open>The data callback of each mark, up to \<^theory_text>\<open>e\<close>, returning \<^theory_text>\<open>er\<close> when it ends the call.\<close>

definition CALLBACK_header_field ::
  "'s http_parser_settings \<Rightarrow> bytes \<Rightarrow> nat \<Rightarrow> nat \<Rightarrow> 's exec \<Rightarrow> ('s exec \<Rightarrow> 's ctl) \<Rightarrow> 's ctl" where
  "CALLBACK_header_field st data e er ex =
     callback_data (on_header_field st) HPE_CB_header_field (field_mark ex)
       (field_mark_update (\<lambda>_. None)) data e er ex"

definition CALLBACK_header_value ::
  "'s http_parser_settings \<Rightarrow> bytes \<Rightarrow> nat \<Rightarrow> nat \<Rightarrow> 's exec \<Rightarrow> ('s exec \<Rightarrow> 's ctl) \<Rightarrow> 's ctl" where
  "CALLBACK_header_value st data e er ex =
     callback_data (on_header_value st) HPE_CB_header_value (value_mark ex)
       (value_mark_update (\<lambda>_. None)) data e er ex"

definition CALLBACK_url ::
  "'s http_parser_settings \<Rightarrow> bytes \<Rightarrow> nat \<Rightarrow> nat \<Rightarrow> 's exec \<Rightarrow> ('s exec \<Rightarrow> 's ctl) \<Rightarrow> 's ctl" where
  "CALLBACK_url st data e er ex =
     callback_data (on_url st) HPE_CB_url (url_mark ex)
       (url_mark_update (\<lambda>_. None)) data e er ex"

definition CALLBACK_body ::
  "'s http_parser_settings \<Rightarrow> bytes \<Rightarrow> nat \<Rightarrow> nat \<Rightarrow> 's exec \<Rightarrow> ('s exec \<Rightarrow> 's ctl) \<Rightarrow> 's ctl" where
  "CALLBACK_body st data e er ex =
     callback_data (on_body st) HPE_CB_body (body_mark ex)
       (body_mark_update (\<lambda>_. None)) data e er ex"

definition CALLBACK_message_begin ::
  "'s http_parser_settings \<Rightarrow> nat \<Rightarrow> 's exec \<Rightarrow> ('s exec \<Rightarrow> 's ctl) \<Rightarrow> 's ctl" where
  "CALLBACK_message_begin st er ex = callback_notify (on_message_begin st) HPE_CB_message_begin er ex"

definition CALLBACK_status_complete ::
  "'s http_parser_settings \<Rightarrow> nat \<Rightarrow> 's exec \<Rightarrow> ('s exec \<Rightarrow> 's ctl) \<Rightarrow> 's ctl" where
  "CALLBACK_status_complete st er ex = callback_notify (on_status_complete st) HPE_CB_status_complete er ex"

definition CALLBACK_message_complete ::
  "'s http_parser_settings \<Rightarrow> nat \<Rightarrow> 's exec \<Rightarrow> ('s exec \<Rightarrow> 's ctl) \<Rightarrow> 's ctl" where
  "CALLBACK_message_complete st er ex = callback_notify (on_message_complete st) HPE_CB_message_complete er ex"

end
