(* ===== verification/Http_Start.thy ===== *)
theory Http_Start
  imports Http_Url Http_Exec
begin

text \<open>
  The states of \<^verbatim>\<open>http_parser_execute\<close> that read the first line of a message: one
  definition per \<^verbatim>\<open>case\<close> of its switch (states that only check a letter share one). Each
  takes the byte \<^verbatim>\<open>ch\<close> and the call's variables; \<^theory_text>\<open>pos ex + 1\<close> is \<^verbatim>\<open>p - data + 1\<close>, the
  value the macros return that consume the byte.
\<close>

section \<open>Dead and start states\<close>

definition step_dead :: "byte \<Rightarrow> 's exec \<Rightarrow> 's ctl" where [step_defs]:
  "step_dead ch ex =
     (if ch = CR \<or> ch = LF then Next ex else goto_error HPE_CLOSED_CONNECTION ex)"

definition reset_message :: "http_parser \<Rightarrow> http_parser" where
  "reset_message p = p\<lparr>hp_flags := 0, hp_content_length := ULLONG_MAX\<rparr>"

definition step_start_req_or_res :: "'s http_parser_settings \<Rightarrow> byte \<Rightarrow> 's exec \<Rightarrow> 's ctl" where [step_defs]:
  "step_start_req_or_res st ch ex =
     (if ch = CR \<or> ch = LF then Next ex
      else
        (let ex = prs_update reset_message ex
         in if ch = CHR ''H''
            then CALLBACK_message_begin st (pos ex + 1) (to_state s_res_or_resp_H ex) Next
            else Again (to_state s_start_req (prs_update (hp_type_update (\<lambda>_. HTTP_REQUEST)) ex))))"

definition step_res_or_resp_H :: "byte \<Rightarrow> 's exec \<Rightarrow> 's ctl" where [step_defs]:
  "step_res_or_resp_H ch ex =
     (if ch = CHR ''T''
      then Next (to_state s_res_HT (prs_update (hp_type_update (\<lambda>_. HTTP_RESPONSE)) ex))
      else if ch \<noteq> CHR ''E'' then goto_error HPE_INVALID_CONSTANT ex
      else Next (prs_update (\<lambda>p. p\<lparr>hp_type := HTTP_REQUEST, hp_method := HTTP_HEAD,
             hp_index := 2, hp_state := s_req_method\<rparr>) ex))"

definition step_start_res :: "'s http_parser_settings \<Rightarrow> byte \<Rightarrow> 's exec \<Rightarrow> 's ctl" where [step_defs]:
  "step_start_res st ch ex =
     (let ex = prs_update reset_message ex
      in if ch = CHR ''H''
         then CALLBACK_message_begin st (pos ex + 1) (to_state s_res_H ex) Next
         else if ch = CR \<or> ch = LF
         then CALLBACK_message_begin st (pos ex + 1) ex Next
         else goto_error HPE_INVALID_CONSTANT ex)"

text \<open>A state that accepts one letter of \<^verbatim>\<open>HTTP/\<close>, in responses and in requests.\<close>

definition step_letter :: "byte \<Rightarrow> state \<Rightarrow> byte \<Rightarrow> 's exec \<Rightarrow> 's ctl" where [step_defs]:
  "step_letter expected next ch ex = STRICT_CHECK (ch \<noteq> expected) ex (Next (to_state next ex))"

section \<open>Versions and status\<close>

text \<open>\<^verbatim>\<open>n *= 10; n += ch - '0'\<close> on an \<^verbatim>\<open>unsigned short\<close>.\<close>

definition add_digit :: "16 word \<Rightarrow> byte \<Rightarrow> 16 word" where
  "add_digit n ch = n * 10 + of_nat (digit_val ch)"

definition step_res_first_http_major :: "byte \<Rightarrow> 's exec \<Rightarrow> 's ctl" where [step_defs]:
  "step_res_first_http_major ch ex =
     (if \<not> IS_NUM ch then goto_error HPE_INVALID_VERSION ex
      else Next (prs_update (\<lambda>p. p\<lparr>hp_http_major := of_nat (digit_val ch), hp_state := s_res_http_major\<rparr>) ex))"

text \<open>The code after the first digit of a major version, with the state a dot leads to.\<close>

definition step_http_major :: "state \<Rightarrow> byte \<Rightarrow> 's exec \<Rightarrow> 's ctl" where [step_defs]:
  "step_http_major next ch ex =
     (if ch = CHR ''.'' then Next (to_state next ex)
      else if \<not> IS_NUM ch then goto_error HPE_INVALID_VERSION ex
      else
        (let ex = prs_update (\<lambda>p. p\<lparr>hp_http_major := add_digit (hp_http_major p) ch\<rparr>) ex
         in if hp_http_major (prs ex) > 999 then goto_error HPE_INVALID_VERSION ex else Next ex))"

definition step_first_http_minor :: "state \<Rightarrow> byte \<Rightarrow> 's exec \<Rightarrow> 's ctl" where [step_defs]:
  "step_first_http_minor next ch ex =
     (if \<not> IS_NUM ch then goto_error HPE_INVALID_VERSION ex
      else Next (prs_update (\<lambda>p. p\<lparr>hp_http_minor := of_nat (digit_val ch), hp_state := next\<rparr>) ex))"

definition minor_digit :: "byte \<Rightarrow> 's exec \<Rightarrow> 's ctl" where [step_defs]:
  "minor_digit ch ex =
     (if \<not> IS_NUM ch then goto_error HPE_INVALID_VERSION ex
      else
        (let ex = prs_update (\<lambda>p. p\<lparr>hp_http_minor := add_digit (hp_http_minor p) ch\<rparr>) ex
         in if hp_http_minor (prs ex) > 999 then goto_error HPE_INVALID_VERSION ex else Next ex))"

definition step_res_http_minor :: "byte \<Rightarrow> 's exec \<Rightarrow> 's ctl" where [step_defs]:
  "step_res_http_minor ch ex =
     (if ch = SP then Next (to_state s_res_first_status_code ex) else minor_digit ch ex)"

definition step_res_first_status_code :: "byte \<Rightarrow> 's exec \<Rightarrow> 's ctl" where [step_defs]:
  "step_res_first_status_code ch ex =
     (if \<not> IS_NUM ch
      then (if ch = SP then Next ex else goto_error HPE_INVALID_STATUS ex)
      else Next (prs_update (\<lambda>p. p\<lparr>hp_status_code := of_nat (digit_val ch), hp_state := s_res_status_code\<rparr>) ex))"

definition step_res_status_code :: "byte \<Rightarrow> 's exec \<Rightarrow> 's ctl" where [step_defs]:
  "step_res_status_code ch ex =
     (if \<not> IS_NUM ch
      then (if ch = SP then Next (to_state s_res_status ex)
            else if ch = CR then Next (to_state s_res_line_almost_done ex)
            else if ch = LF then Next (to_state s_header_field_start ex)
            else goto_error HPE_INVALID_STATUS ex)
      else
        (let ex = prs_update (\<lambda>p. p\<lparr>hp_status_code := add_digit (hp_status_code p) ch\<rparr>) ex
         in if hp_status_code (prs ex) > 999 then goto_error HPE_INVALID_STATUS ex else Next ex))"

definition step_res_status :: "byte \<Rightarrow> 's exec \<Rightarrow> 's ctl" where [step_defs]:
  "step_res_status ch ex =
     (if ch = CR then Next (to_state s_res_line_almost_done ex)
      else if ch = LF then Next (to_state s_header_field_start ex)
      else Next ex)"

definition step_res_line_almost_done :: "'s http_parser_settings \<Rightarrow> byte \<Rightarrow> 's exec \<Rightarrow> 's ctl" where [step_defs]:
  "step_res_line_almost_done st ch ex =
     STRICT_CHECK (ch \<noteq> LF) ex
       (CALLBACK_status_complete st (pos ex + 1) (to_state s_header_field_start ex) Next)"

section \<open>Request line\<close>

definition first_method :: "byte \<Rightarrow> http_method option" where
  "first_method ch =
     (if ch = CHR ''C'' then Some HTTP_CONNECT
      else if ch = CHR ''D'' then Some HTTP_DELETE
      else if ch = CHR ''G'' then Some HTTP_GET
      else if ch = CHR ''H'' then Some HTTP_HEAD
      else if ch = CHR ''L'' then Some HTTP_LOCK
      else if ch = CHR ''M'' then Some HTTP_MKCOL
      else if ch = CHR ''N'' then Some HTTP_NOTIFY
      else if ch = CHR ''O'' then Some HTTP_OPTIONS
      else if ch = CHR ''P'' then Some HTTP_POST
      else if ch = CHR ''R'' then Some HTTP_REPORT
      else if ch = CHR ''S'' then Some HTTP_SUBSCRIBE
      else if ch = CHR ''T'' then Some HTTP_TRACE
      else if ch = CHR ''U'' then Some HTTP_UNLOCK
      else None)"

definition step_start_req :: "'s http_parser_settings \<Rightarrow> byte \<Rightarrow> 's exec \<Rightarrow> 's ctl" where [step_defs]:
  "step_start_req st ch ex =
     (if ch = CR \<or> ch = LF then Next ex
      else
        (let ex = prs_update reset_message ex
         in if \<not> IS_ALPHA ch then goto_error HPE_INVALID_METHOD ex
            else
              (let ex = prs_update (\<lambda>p. p\<lparr>hp_method := HTTP_DELETE, hp_index := 1\<rparr>) ex
               in case first_method ch of
                    None \<Rightarrow> goto_error HPE_INVALID_METHOD ex
                  | Some m \<Rightarrow>
                      CALLBACK_message_begin st (pos ex + 1)
                        (prs_update (\<lambda>p. p\<lparr>hp_method := m, hp_state := s_req_method\<rparr>) ex) Next)))"

text \<open>
  The method matcher, between the reading of \<^verbatim>\<open>matcher[parser->index]\<close> and \<^verbatim>\<open>++parser->index\<close>:
  the new method, the new state (\<^theory_text>\<open>None\<close> when it stays), or the errno it goes to
  \<^verbatim>\<open>error\<close> with. \<^theory_text>\<open>HPE_OK\<close> stands for a plain \<^verbatim>\<open>goto error\<close>.
\<close>

definition match_method ::
  "http_method \<Rightarrow> nat \<Rightarrow> byte \<Rightarrow> byte \<Rightarrow> http_errno + (http_method \<times> state option)" where
  "match_method m index mch ch =
     (if ch = SP \<and> mch = NUL then Inr (m, Some s_req_spaces_before_url)
      else if ch = mch then Inr (m, None)
      else if m = HTTP_CONNECT then
        (if index = 1 \<and> ch = CHR ''H'' then Inr (HTTP_CHECKOUT, None)
         else if index = 2 \<and> ch = CHR ''P'' then Inr (HTTP_COPY, None)
         else Inl HPE_OK)
      else if m = HTTP_MKCOL then
        (if index = 1 \<and> ch = CHR ''O'' then Inr (HTTP_MOVE, None)
         else if index = 1 \<and> ch = CHR ''E'' then Inr (HTTP_MERGE, None)
         else if index = 1 \<and> ch = CHR ''-'' then Inr (HTTP_MSEARCH, None)
         else if index = 2 \<and> ch = CHR ''A'' then Inr (HTTP_MKACTIVITY, None)
         else Inl HPE_OK)
      else if m = HTTP_SUBSCRIBE then
        (if index = 1 \<and> ch = CHR ''E'' then Inr (HTTP_SEARCH, None) else Inl HPE_OK)
      else if index = 1 \<and> m = HTTP_POST then
        (if ch = CHR ''R'' then Inr (HTTP_PROPFIND, None)
         else if ch = CHR ''U'' then Inr (HTTP_PUT, None)
         else if ch = CHR ''A'' then Inr (HTTP_PATCH, None)
         else Inl HPE_OK)
      else if index = 2 then
        (if m = HTTP_PUT then (if ch = CHR ''R'' then Inr (HTTP_PURGE, None) else Inr (m, None))
         else if m = HTTP_UNLOCK then (if ch = CHR ''S'' then Inr (HTTP_UNSUBSCRIBE, None) else Inr (m, None))
         else Inr (m, None))
      else if index = 4 \<and> m = HTTP_PROPFIND \<and> ch = CHR ''P'' then Inr (HTTP_PROPPATCH, None)
      else Inl HPE_INVALID_METHOD)"

definition step_req_method :: "byte \<Rightarrow> 's exec \<Rightarrow> 's ctl" where [step_defs]:
  "step_req_method ch ex =
     (if ch = NUL then goto_error HPE_INVALID_METHOD ex
      else
        (let p = prs ex;
             matcher = method_string (hp_method p) @ [NUL];
             index = unat (hp_index p)
         in if index \<ge> length matcher then Fault (Out_of_bounds In_http_parser)
            else case match_method (hp_method p) index (matcher ! index) ch of
                   Inl e \<Rightarrow> (if e = HPE_OK then Error ex else goto_error e ex)
                 | Inr (m, st') \<Rightarrow>
                     Next (prs_update (\<lambda>p. p\<lparr>hp_method := m, hp_index := hp_index p + 1,
                       hp_state := (case st' of None \<Rightarrow> hp_state p | Some s \<Rightarrow> s)\<rparr>) ex)))"

text \<open>\<^verbatim>\<open>parser->state = parse_url_char(...)\<close> and the test for \<^verbatim>\<open>s_dead\<close> after it.\<close>

definition url_char :: "byte \<Rightarrow> 's exec \<Rightarrow> 's ctl" where [step_defs]:
  "url_char ch ex =
     (let ex = to_state (parse_url_char (hp_state (prs ex)) ch) ex
      in if hp_state (prs ex) = s_dead then goto_error HPE_INVALID_URL ex else Next ex)"

definition step_req_spaces_before_url :: "byte \<Rightarrow> 's exec \<Rightarrow> 's ctl" where [step_defs]:
  "step_req_spaces_before_url ch ex =
     (if ch = SP then Next ex
      else
        (let ex = url_mark_update (set_mark (pos ex)) ex;
             ex = (if hp_method (prs ex) = HTTP_CONNECT then to_state s_req_server_start ex else ex)
         in url_char ch ex))"

definition step_req_schema :: "byte \<Rightarrow> 's exec \<Rightarrow> 's ctl" where [step_defs]:
  "step_req_schema ch ex =
     (if ch = SP \<or> ch = CR \<or> ch = LF then goto_error HPE_INVALID_URL ex else url_char ch ex)"

definition step_req_url :: "'s http_parser_settings \<Rightarrow> bytes \<Rightarrow> byte \<Rightarrow> 's exec \<Rightarrow> 's ctl" where [step_defs]:
  "step_req_url st data ch ex =
     (if ch = SP then CALLBACK_url st data (pos ex) (pos ex + 1) (to_state s_req_http_start ex) Next
      else if ch = CR \<or> ch = LF then
        CALLBACK_url st data (pos ex) (pos ex + 1)
          (prs_update (\<lambda>p. p\<lparr>hp_http_major := 0, hp_http_minor := 9,
             hp_state := (if ch = CR then s_req_line_almost_done else s_header_field_start)\<rparr>) ex) Next
      else url_char ch ex)"

definition step_req_http_start :: "byte \<Rightarrow> 's exec \<Rightarrow> 's ctl" where [step_defs]:
  "step_req_http_start ch ex =
     (if ch = CHR ''H'' then Next (to_state s_req_http_H ex)
      else if ch = SP then Next ex
      else goto_error HPE_INVALID_CONSTANT ex)"

definition step_req_first_http_major :: "byte \<Rightarrow> 's exec \<Rightarrow> 's ctl" where [step_defs]:
  "step_req_first_http_major ch ex =
     (if ord_of ch < ord_of CHR ''1'' \<or> ord_of ch > ord_of CHR ''9'' then goto_error HPE_INVALID_VERSION ex
      else Next (prs_update (\<lambda>p. p\<lparr>hp_http_major := of_nat (digit_val ch), hp_state := s_req_http_major\<rparr>) ex))"

definition step_req_http_minor :: "byte \<Rightarrow> 's exec \<Rightarrow> 's ctl" where [step_defs]:
  "step_req_http_minor ch ex =
     (if ch = CR then Next (to_state s_req_line_almost_done ex)
      else if ch = LF then Next (to_state s_header_field_start ex)
      else minor_digit ch ex)"

definition step_req_line_almost_done :: "byte \<Rightarrow> 's exec \<Rightarrow> 's ctl" where [step_defs]:
  "step_req_line_almost_done ch ex =
     (if ch \<noteq> LF then goto_error HPE_LF_EXPECTED ex else Next (to_state s_header_field_start ex))"

end
