(* ===== verification/Http_Headers.thy ===== *)
theory Http_Headers
  imports Http_Exec
begin

text \<open>
  The states of \<^verbatim>\<open>http_parser_execute\<close> that read header fields, their values and the end of
  the headers.
\<close>

section \<open>Matching the names and values the parser knows\<close>

abbreviation "PROXY_CONNECTION \<equiv> ''proxy-connection''"
abbreviation "CONNECTION \<equiv> ''connection''"
abbreviation "CONTENT_LENGTH \<equiv> ''content-length''"
abbreviation "TRANSFER_ENCODING \<equiv> ''transfer-encoding''"
abbreviation "UPGRADE \<equiv> ''upgrade''"
abbreviation "CHUNKED \<equiv> ''chunked''"
abbreviation "KEEP_ALIVE \<equiv> ''keep-alive''"
abbreviation "CLOSE \<equiv> ''close''"

text \<open>
  The block the matching states repeat: \<^verbatim>\<open>sizeof(S) - 1\<close> is the length of the literal, whose
  terminating zero can be read, and \<^theory_text>\<open>found\<close> the state once its last byte has matched.
\<close>

definition match_next :: "string \<Rightarrow> header_states \<Rightarrow> byte \<Rightarrow> http_parser \<Rightarrow> http_parser" where
  "match_next S found c p =
     (let p = p\<lparr>hp_index := hp_index p + 1\<rparr>;
          i = unat (hp_index p)
      in if i > length S \<or> c \<noteq> (S @ [NUL]) ! i then p\<lparr>hp_header_state := h_general\<rparr>
         else if i = length S - 1 then p\<lparr>hp_header_state := found\<rparr>
         else p)"

definition match_letter :: "byte \<Rightarrow> header_states \<Rightarrow> byte \<Rightarrow> http_parser \<Rightarrow> http_parser" where
  "match_letter expected next c p =
     p\<lparr>hp_index := hp_index p + 1, hp_header_state := (if c = expected then next else h_general)\<rparr>"

text \<open>One token byte of a field name: \<^theory_text>\<open>c\<close> is \<^verbatim>\<open>TOKEN(ch)\<close>.\<close>

definition field_char :: "byte \<Rightarrow> byte \<Rightarrow> http_parser \<Rightarrow> http_parser res" where
  "field_char ch c p =
     (case hp_header_state p of
        h_general \<Rightarrow> Inr p
      | h_C \<Rightarrow> Inr (match_letter CHR ''o'' h_CO c p)
      | h_CO \<Rightarrow> Inr (match_letter CHR ''n'' h_CON c p)
      | h_CON \<Rightarrow> Inr (p\<lparr>hp_index := hp_index p + 1,
                   hp_header_state := (if c = CHR ''n'' then h_matching_connection
                                       else if c = CHR ''t'' then h_matching_content_length
                                       else h_general)\<rparr>)
      | h_matching_connection \<Rightarrow> Inr (match_next CONNECTION h_connection c p)
      | h_matching_proxy_connection \<Rightarrow> Inr (match_next PROXY_CONNECTION h_connection c p)
      | h_matching_content_length \<Rightarrow> Inr (match_next CONTENT_LENGTH h_content_length c p)
      | h_matching_transfer_encoding \<Rightarrow> Inr (match_next TRANSFER_ENCODING h_transfer_encoding c p)
      | h_matching_upgrade \<Rightarrow> Inr (match_next UPGRADE h_upgrade c p)
      | h_connection \<Rightarrow> Inr (if ch \<noteq> SP then p\<lparr>hp_header_state := h_general\<rparr> else p)
      | h_content_length \<Rightarrow> Inr (if ch \<noteq> SP then p\<lparr>hp_header_state := h_general\<rparr> else p)
      | h_transfer_encoding \<Rightarrow> Inr (if ch \<noteq> SP then p\<lparr>hp_header_state := h_general\<rparr> else p)
      | h_upgrade \<Rightarrow> Inr (if ch \<noteq> SP then p\<lparr>hp_header_state := h_general\<rparr> else p)
      | _ \<Rightarrow> Inl (Assert_failed In_http_parser))"

section \<open>Field names\<close>

definition first_header_state :: "byte \<Rightarrow> header_states" where
  "first_header_state c =
     (if c = CHR ''c'' then h_C
      else if c = CHR ''p'' then h_matching_proxy_connection
      else if c = CHR ''t'' then h_matching_transfer_encoding
      else if c = CHR ''u'' then h_matching_upgrade
      else h_general)"

definition step_header_field_start :: "byte \<Rightarrow> 's exec \<Rightarrow> 's ctl" where [step_defs]:
  "step_header_field_start ch ex =
     (if ch = CR then Next (to_state s_headers_almost_done ex)
      else if ch = LF then Again (to_state s_headers_almost_done ex)
      else
        (let c = TOKEN ch
         in if c = NUL then goto_error HPE_INVALID_HEADER_TOKEN ex
            else Next (prs_update (\<lambda>p. p\<lparr>hp_index := 0, hp_state := s_header_field,
                   hp_header_state := first_header_state c\<rparr>)
                   (field_mark_update (set_mark (pos ex)) ex))))"

definition step_header_field :: "'s http_parser_settings \<Rightarrow> bytes \<Rightarrow> byte \<Rightarrow> 's exec \<Rightarrow> 's ctl" where [step_defs]:
  "step_header_field st data ch ex =
     (let c = TOKEN ch
      in if c \<noteq> NUL then
           (case field_char ch c (prs ex) of Inl f \<Rightarrow> Fault f | Inr p \<Rightarrow> Next (ex\<lparr>prs := p\<rparr>))
         else if ch = CHR '':'' then
           CALLBACK_header_field st data (pos ex) (pos ex + 1) (to_state s_header_value_start ex) Next
         else if ch = CR then
           CALLBACK_header_field st data (pos ex) (pos ex + 1) (to_state s_header_almost_done ex) Next
         else if ch = LF then
           CALLBACK_header_field st data (pos ex) (pos ex + 1) (to_state s_header_field_start ex) Next
         else goto_error HPE_INVALID_HEADER_TOKEN ex)"

section \<open>Field values\<close>

text \<open>The first byte of a value; \<^theory_text>\<open>c\<close> is \<^verbatim>\<open>LOWER(ch)\<close>.\<close>

definition value_start_char :: "byte \<Rightarrow> 's exec \<Rightarrow> 's ctl" where
  "value_start_char ch ex =
     (let c = LOWER ch;
          set_h = (\<lambda>h. prs_update (hp_header_state_update (\<lambda>_. h)) ex)
      in case hp_header_state (prs ex) of
           h_upgrade \<Rightarrow> Next (prs_update (\<lambda>p. (set_flag F_UPGRADE p)\<lparr>hp_header_state := h_general\<rparr>) ex)
         | h_transfer_encoding \<Rightarrow>
             Next (set_h (if c = CHR ''c'' then h_matching_transfer_encoding_chunked else h_general))
         | h_content_length \<Rightarrow>
             (if \<not> IS_NUM ch then goto_error HPE_INVALID_CONTENT_LENGTH ex
              else Next (prs_update (hp_content_length_update (\<lambda>_. of_nat (digit_val ch))) ex))
         | h_connection \<Rightarrow>
             Next (set_h (if c = CHR ''k'' then h_matching_connection_keep_alive
                          else if c = CHR ''c'' then h_matching_connection_close
                          else h_general))
         | _ \<Rightarrow> Next (set_h h_general))"

definition step_header_value_start :: "'s http_parser_settings \<Rightarrow> bytes \<Rightarrow> byte \<Rightarrow> 's exec \<Rightarrow> 's ctl" where [step_defs]:
  "step_header_value_start st data ch ex =
     (if ch = SP \<or> ch = HT then Next ex
      else
        (let ex = prs_update (\<lambda>p. p\<lparr>hp_state := s_header_value, hp_index := 0\<rparr>)
                    (value_mark_update (set_mark (pos ex)) ex)
         in if ch = CR then
              CALLBACK_header_value st data (pos ex) (pos ex + 1)
                (prs_update (\<lambda>p. p\<lparr>hp_header_state := h_general, hp_state := s_header_almost_done\<rparr>) ex) Next
            else if ch = LF then
              CALLBACK_header_value st data (pos ex) (pos ex + 1) (to_state s_header_field_start ex) Next
            else value_start_char ch ex))"

text \<open>\<^verbatim>\<open>t *= base; t += digit\<close> on a \<^verbatim>\<open>uint64_t\<close> and the test for overflow that follows.\<close>

definition grow_length :: "64 word \<Rightarrow> 64 word \<Rightarrow> 64 word \<Rightarrow> 64 word option" where
  "grow_length len base digit =
     (let t = len * base + digit in if t < len \<or> t = ULLONG_MAX then None else Some t)"

text \<open>A further byte of a value.\<close>

definition value_char :: "byte \<Rightarrow> 's exec \<Rightarrow> 's ctl" where
  "value_char ch ex =
     (let c = LOWER ch;
          with = (\<lambda>f. Next (prs_update f ex));
          trailing = (if ch \<noteq> SP then Next (prs_update (hp_header_state_update (\<lambda>_. h_general)) ex) else Next ex)
      in case hp_header_state (prs ex) of
           h_general \<Rightarrow> Next ex
         | h_connection \<Rightarrow> Fault (Assert_failed In_http_parser)
         | h_transfer_encoding \<Rightarrow> Fault (Assert_failed In_http_parser)
         | h_content_length \<Rightarrow>
             (if ch = SP then Next ex
              else if \<not> IS_NUM ch then goto_error HPE_INVALID_CONTENT_LENGTH ex
              else (case grow_length (hp_content_length (prs ex)) 10 (of_nat (digit_val ch)) of
                      None \<Rightarrow> goto_error HPE_INVALID_CONTENT_LENGTH ex
                    | Some t \<Rightarrow> with (hp_content_length_update (\<lambda>_. t))))
         | h_matching_transfer_encoding_chunked \<Rightarrow> with (match_next CHUNKED h_transfer_encoding_chunked c)
         | h_matching_connection_keep_alive \<Rightarrow> with (match_next KEEP_ALIVE h_connection_keep_alive c)
         | h_matching_connection_close \<Rightarrow> with (match_next CLOSE h_connection_close c)
         | h_transfer_encoding_chunked \<Rightarrow> trailing
         | h_connection_keep_alive \<Rightarrow> trailing
         | h_connection_close \<Rightarrow> trailing
         | _ \<Rightarrow> with (\<lambda>p. p\<lparr>hp_state := s_header_value, hp_header_state := h_general\<rparr>))"

definition step_header_value :: "'s http_parser_settings \<Rightarrow> bytes \<Rightarrow> byte \<Rightarrow> 's exec \<Rightarrow> 's ctl" where [step_defs]:
  "step_header_value st data ch ex =
     (if ch = CR then
        CALLBACK_header_value st data (pos ex) (pos ex + 1) (to_state s_header_almost_done ex) Next
      else if ch = LF then
        CALLBACK_header_value st data (pos ex) (pos ex) (to_state s_header_almost_done ex) Again
      else value_char ch ex)"

section \<open>Ends of lines and of the headers\<close>

definition step_header_almost_done :: "byte \<Rightarrow> 's exec \<Rightarrow> 's ctl" where [step_defs]:
  "step_header_almost_done ch ex =
     STRICT_CHECK (ch \<noteq> LF) ex
       (let ex = to_state s_header_value_lws ex
        in case hp_header_state (prs ex) of
             h_connection_keep_alive \<Rightarrow> Next (prs_update (set_flag F_CONNECTION_KEEP_ALIVE) ex)
           | h_connection_close \<Rightarrow> Next (prs_update (set_flag F_CONNECTION_CLOSE) ex)
           | h_transfer_encoding_chunked \<Rightarrow> Next (prs_update (set_flag F_CHUNKED) ex)
           | _ \<Rightarrow> Next ex)"

definition step_header_value_lws :: "byte \<Rightarrow> 's exec \<Rightarrow> 's ctl" where [step_defs]:
  "step_header_value_lws ch ex =
     (if ch = SP \<or> ch = HT then Next (to_state s_header_value_start ex)
      else Again (to_state s_header_field_start ex))"

text \<open>
  \<^verbatim>\<open>on_headers_complete\<close>: 0 goes on, 1 means that there is no body, any other value is an
  error; the callback may also have paused the parser.
\<close>

definition headers_complete :: "'s http_parser_settings \<Rightarrow> 's exec \<Rightarrow> 's ctl" where
  "headers_complete st ex =
     (case on_headers_complete st of
        None \<Rightarrow> (if hp_errno (prs ex) \<noteq> HPE_OK then Return (pos ex) ex else Again ex)
      | Some f \<Rightarrow>
          (case f (prs ex) (app ex) of
             Inl flt \<Rightarrow> Fault flt
           | Inr (ret, paused, s') \<Rightarrow>
               (case (if paused then http_parser_pause (prs ex) True else Inr (prs ex)) of
                  Inl flt \<Rightarrow> Fault flt
                | Inr p1 \<Rightarrow>
                    let ex' = ex\<lparr>prs := p1, app := s'\<rparr>
                    in if ret \<noteq> 0 \<and> ret \<noteq> 1
                       then Return (pos ex') (prs_update (hp_errno_update (\<lambda>_. HPE_CB_headers_complete)) ex')
                       else
                         (let ex'' = (if ret = 1 then prs_update (set_flag F_SKIPBODY) ex' else ex')
                          in if hp_errno (prs ex'') \<noteq> HPE_OK then Return (pos ex'') ex'' else Again ex''))))"

definition step_headers_almost_done :: "'s http_parser_settings \<Rightarrow> byte \<Rightarrow> 's exec \<Rightarrow> 's ctl" where [step_defs]:
  "step_headers_almost_done st ch ex =
     STRICT_CHECK (ch \<noteq> LF) ex
       (if has_flag F_TRAILING (prs ex)
        then CALLBACK_message_complete st (pos ex + 1) (to_state (NEW_MESSAGE (prs ex)) ex) Next
        else headers_complete st
               (prs_update (\<lambda>p. p\<lparr>hp_state := s_headers_done,
                  hp_upgrade := (has_flag F_UPGRADE p \<or> hp_method p = HTTP_CONNECT)\<rparr>) ex))"

text \<open>The message ends here: \<^verbatim>\<open>parser->state = NEW_MESSAGE(); CALLBACK_NOTIFY(message_complete)\<close>.\<close>

definition message_complete :: "'s http_parser_settings \<Rightarrow> 's exec \<Rightarrow> ('s exec \<Rightarrow> 's ctl) \<Rightarrow> 's ctl" where
  "message_complete st ex = CALLBACK_message_complete st (pos ex + 1) (to_state (NEW_MESSAGE (prs ex)) ex)"

definition step_headers_done :: "'s http_parser_settings \<Rightarrow> byte \<Rightarrow> 's exec \<Rightarrow> 's ctl" where [step_defs]:
  "step_headers_done st ch ex =
     STRICT_CHECK (ch \<noteq> LF) ex
       (let ex = prs_update (hp_nread_update (\<lambda>_. 0)) ex; p = prs ex
        in if hp_upgrade p then message_complete st ex (\<lambda>ex. Return (pos ex + 1) ex)
           else if has_flag F_SKIPBODY p then message_complete st ex Next
           else if has_flag F_CHUNKED p then Next (to_state s_chunk_size_start ex)
           else if hp_content_length p = 0 then message_complete st ex Next
           else if hp_content_length p \<noteq> ULLONG_MAX then Next (to_state s_body_identity ex)
           else if hp_type p = HTTP_REQUEST \<or> \<not> http_message_needs_eof p then message_complete st ex Next
           else Next (to_state s_body_identity_eof ex))"

end
