(* ===== verification/Http_Body.thy ===== *)
theory Http_Body
  imports Http_Headers
begin

text \<open>The states of \<^verbatim>\<open>http_parser_execute\<close> that read a body, chunked or not.\<close>

section \<open>Bodies with a length, or up to the end of the connection\<close>

text \<open>
  The bytes of the body in this buffer: \<^verbatim>\<open>MIN(content_length, (data + len) - p)\<close>. A buffer is
  shorter than \<^verbatim>\<open>2^64\<close> bytes, so the minimum is taken on natural numbers.
\<close>

definition body_to_read :: "bytes \<Rightarrow> 's exec \<Rightarrow> nat" where
  "body_to_read data ex = min (unat (hp_content_length (prs ex))) (length data - pos ex)"

text \<open>\<^verbatim>\<open>MARK(body); content_length -= to_read; p += to_read - 1\<close>.\<close>

definition take_body :: "bytes \<Rightarrow> 's exec \<Rightarrow> 's exec" where
  "take_body data ex =
     (let n = body_to_read data ex;
          ex = body_mark_update (set_mark (pos ex)) ex
      in pos_update (\<lambda>q. q + n - 1)
           (prs_update (\<lambda>p. p\<lparr>hp_content_length := hp_content_length p - of_nat n\<rparr>) ex))"

definition step_body_identity :: "'s http_parser_settings \<Rightarrow> bytes \<Rightarrow> byte \<Rightarrow> 's exec \<Rightarrow> 's ctl" where [step_defs]:
  "step_body_identity st data ch ex =
     assert_parser (hp_content_length (prs ex) \<noteq> 0 \<and> hp_content_length (prs ex) \<noteq> ULLONG_MAX)
       (let ex = take_body data ex
        in if hp_content_length (prs ex) = 0
           then CALLBACK_body st data (pos ex + 1) (pos ex) (to_state s_message_done ex) Again
           else Next ex)"

definition step_body_identity_eof :: "bytes \<Rightarrow> 's exec \<Rightarrow> 's ctl" where [step_defs]:
  "step_body_identity_eof data ex =
     Next (pos_update (\<lambda>_. length data - 1) (body_mark_update (set_mark (pos ex)) ex))"

definition step_message_done :: "'s http_parser_settings \<Rightarrow> 's exec \<Rightarrow> 's ctl" where [step_defs]:
  "step_message_done st ex = message_complete st ex Next"

section \<open>Chunked bodies\<close>

definition step_chunk_size_start :: "byte \<Rightarrow> 's exec \<Rightarrow> 's ctl" where [step_defs]:
  "step_chunk_size_start ch ex =
     assert_parser (hp_nread (prs ex) = 1)
       (assert_parser (has_flag F_CHUNKED (prs ex))
         (let unhex_val = unhex ! ord_of ch
          in if unhex_val = - 1 then goto_error HPE_INVALID_CHUNK_SIZE ex
             else Next (prs_update (\<lambda>p. p\<lparr>hp_content_length := of_int unhex_val, hp_state := s_chunk_size\<rparr>) ex)))"

definition step_chunk_size :: "byte \<Rightarrow> 's exec \<Rightarrow> 's ctl" where [step_defs]:
  "step_chunk_size ch ex =
     assert_parser (has_flag F_CHUNKED (prs ex))
       (if ch = CR then Next (to_state s_chunk_size_almost_done ex)
        else
          (let unhex_val = unhex ! ord_of ch
           in if unhex_val = - 1
              then (if ch = CHR '';'' \<or> ch = SP then Next (to_state s_chunk_parameters ex)
                    else goto_error HPE_INVALID_CHUNK_SIZE ex)
              else (case grow_length (hp_content_length (prs ex)) 16 (of_int unhex_val) of
                      None \<Rightarrow> goto_error HPE_INVALID_CONTENT_LENGTH ex
                    | Some t \<Rightarrow> Next (prs_update (hp_content_length_update (\<lambda>_. t)) ex))))"

definition step_chunk_parameters :: "byte \<Rightarrow> 's exec \<Rightarrow> 's ctl" where [step_defs]:
  "step_chunk_parameters ch ex =
     assert_parser (has_flag F_CHUNKED (prs ex))
       (if ch = CR then Next (to_state s_chunk_size_almost_done ex) else Next ex)"

definition step_chunk_size_almost_done :: "byte \<Rightarrow> 's exec \<Rightarrow> 's ctl" where [step_defs]:
  "step_chunk_size_almost_done ch ex =
     assert_parser (has_flag F_CHUNKED (prs ex))
       (STRICT_CHECK (ch \<noteq> LF) ex
         (let ex = prs_update (hp_nread_update (\<lambda>_. 0)) ex
          in if hp_content_length (prs ex) = 0
             then Next (to_state s_header_field_start (prs_update (set_flag F_TRAILING) ex))
             else Next (to_state s_chunk_data ex)))"

definition step_chunk_data :: "bytes \<Rightarrow> 's exec \<Rightarrow> 's ctl" where [step_defs]:
  "step_chunk_data data ex =
     assert_parser (has_flag F_CHUNKED (prs ex))
       (assert_parser (hp_content_length (prs ex) \<noteq> 0 \<and> hp_content_length (prs ex) \<noteq> ULLONG_MAX)
         (let ex = take_body data ex
          in if hp_content_length (prs ex) = 0 then Next (to_state s_chunk_data_almost_done ex) else Next ex))"

definition step_chunk_data_almost_done :: "'s http_parser_settings \<Rightarrow> bytes \<Rightarrow> byte \<Rightarrow> 's exec \<Rightarrow> 's ctl" where [step_defs]:
  "step_chunk_data_almost_done st data ch ex =
     assert_parser (has_flag F_CHUNKED (prs ex))
       (assert_parser (hp_content_length (prs ex) = 0)
         (STRICT_CHECK (ch \<noteq> CR) ex
           (CALLBACK_body st data (pos ex) (pos ex + 1) (to_state s_chunk_data_done ex) Next)))"

definition step_chunk_data_done :: "byte \<Rightarrow> 's exec \<Rightarrow> 's ctl" where [step_defs]:
  "step_chunk_data_done ch ex =
     assert_parser (has_flag F_CHUNKED (prs ex))
       (STRICT_CHECK (ch \<noteq> LF) ex
         (Next (to_state s_chunk_size_start (prs_update (hp_nread_update (\<lambda>_. 0)) ex))))"

end
