(* ===== verification/Http_Execute.thy ===== *)
theory Http_Execute
  imports Http_Start Http_Body
begin

text \<open>
  \<^verbatim>\<open>http_parser_execute\<close> itself: the switch, the two loops (\<^verbatim>\<open>goto reexecute_byte\<close> inside the
  loop over the buffer), the callbacks for marks left over, and the special treatment of an
  empty buffer. Both loops terminate, so the model is a total function without fuel: a state
  executed again for the same byte has a smaller \<^theory_text>\<open>goto_rank\<close>, and every byte done moves
  \<^verbatim>\<open>p\<close> forward.
\<close>

section \<open>The switch\<close>

definition exec_state :: "'s http_parser_settings \<Rightarrow> bytes \<Rightarrow> byte \<Rightarrow> 's exec \<Rightarrow> 's ctl" where
  "exec_state st data ch ex =
     (case hp_state (prs ex) of
        s_dead \<Rightarrow> step_dead ch ex
      | s_start_req_or_res \<Rightarrow> step_start_req_or_res st ch ex
      | s_res_or_resp_H \<Rightarrow> step_res_or_resp_H ch ex
      | s_start_res \<Rightarrow> step_start_res st ch ex
      | s_res_H \<Rightarrow> step_letter CHR ''T'' s_res_HT ch ex
      | s_res_HT \<Rightarrow> step_letter CHR ''T'' s_res_HTT ch ex
      | s_res_HTT \<Rightarrow> step_letter CHR ''P'' s_res_HTTP ch ex
      | s_res_HTTP \<Rightarrow> step_letter CHR ''/'' s_res_first_http_major ch ex
      | s_res_first_http_major \<Rightarrow> step_res_first_http_major ch ex
      | s_res_http_major \<Rightarrow> step_http_major s_res_first_http_minor ch ex
      | s_res_first_http_minor \<Rightarrow> step_first_http_minor s_res_http_minor ch ex
      | s_res_http_minor \<Rightarrow> step_res_http_minor ch ex
      | s_res_first_status_code \<Rightarrow> step_res_first_status_code ch ex
      | s_res_status_code \<Rightarrow> step_res_status_code ch ex
      | s_res_status \<Rightarrow> step_res_status ch ex
      | s_res_line_almost_done \<Rightarrow> step_res_line_almost_done st ch ex
      | s_start_req \<Rightarrow> step_start_req st ch ex
      | s_req_method \<Rightarrow> step_req_method ch ex
      | s_req_spaces_before_url \<Rightarrow> step_req_spaces_before_url ch ex
      | s_req_schema \<Rightarrow> step_req_schema ch ex
      | s_req_schema_slash \<Rightarrow> step_req_schema ch ex
      | s_req_schema_slash_slash \<Rightarrow> step_req_schema ch ex
      | s_req_server_start \<Rightarrow> step_req_schema ch ex
      | s_req_server \<Rightarrow> step_req_url st data ch ex
      | s_req_server_with_at \<Rightarrow> step_req_url st data ch ex
      | s_req_path \<Rightarrow> step_req_url st data ch ex
      | s_req_query_string_start \<Rightarrow> step_req_url st data ch ex
      | s_req_query_string \<Rightarrow> step_req_url st data ch ex
      | s_req_fragment_start \<Rightarrow> step_req_url st data ch ex
      | s_req_fragment \<Rightarrow> step_req_url st data ch ex
      | s_req_http_start \<Rightarrow> step_req_http_start ch ex
      | s_req_http_H \<Rightarrow> step_letter CHR ''T'' s_req_http_HT ch ex
      | s_req_http_HT \<Rightarrow> step_letter CHR ''T'' s_req_http_HTT ch ex
      | s_req_http_HTT \<Rightarrow> step_letter CHR ''P'' s_req_http_HTTP ch ex
      | s_req_http_HTTP \<Rightarrow> step_letter CHR ''/'' s_req_first_http_major ch ex
      | s_req_first_http_major \<Rightarrow> step_req_first_http_major ch ex
      | s_req_http_major \<Rightarrow> step_http_major s_req_first_http_minor ch ex
      | s_req_first_http_minor \<Rightarrow> step_first_http_minor s_req_http_minor ch ex
      | s_req_http_minor \<Rightarrow> step_req_http_minor ch ex
      | s_req_line_almost_done \<Rightarrow> step_req_line_almost_done ch ex
      | s_header_field_start \<Rightarrow> step_header_field_start ch ex
      | s_header_field \<Rightarrow> step_header_field st data ch ex
      | s_header_value_start \<Rightarrow> step_header_value_start st data ch ex
      | s_header_value \<Rightarrow> step_header_value st data ch ex
      | s_header_almost_done \<Rightarrow> step_header_almost_done ch ex
      | s_header_value_lws \<Rightarrow> step_header_value_lws ch ex
      | s_headers_almost_done \<Rightarrow> step_headers_almost_done st ch ex
      | s_headers_done \<Rightarrow> step_headers_done st ch ex
      | s_body_identity \<Rightarrow> step_body_identity st data ch ex
      | s_body_identity_eof \<Rightarrow> step_body_identity_eof data ex
      | s_message_done \<Rightarrow> step_message_done st ex
      | s_chunk_size_start \<Rightarrow> step_chunk_size_start ch ex
      | s_chunk_size \<Rightarrow> step_chunk_size ch ex
      | s_chunk_parameters \<Rightarrow> step_chunk_parameters ch ex
      | s_chunk_size_almost_done \<Rightarrow> step_chunk_size_almost_done ch ex
      | s_chunk_data \<Rightarrow> step_chunk_data data ex
      | s_chunk_data_almost_done \<Rightarrow> step_chunk_data_almost_done st data ch ex
      | s_chunk_data_done \<Rightarrow> step_chunk_data_done ch ex
      | s_zero \<Rightarrow> Fault (Assert_failed In_http_parser))"

section \<open>How callbacks and steps continue\<close>

text \<open>
  The outcome of a callback macro in one equation: the call goes on, with nothing changed but the
  application's state (and the cleared mark), exactly when the callback returned 0 and did not
  pause the parser.
\<close>

definition after_callback ::
  "'s cb_result \<Rightarrow> http_errno \<Rightarrow> nat \<Rightarrow> 's exec \<Rightarrow> ('s exec \<Rightarrow> 's ctl) \<Rightarrow> 's ctl" where
  "after_callback r err er ex k =
     (case r of
        Inl f \<Rightarrow> Fault f
      | Inr (ret, paused, s') \<Rightarrow>
          (if ret = 0 \<and> \<not> paused then k (ex\<lparr>app := s'\<rparr>)
           else Return er (ex\<lparr>prs := (prs ex)\<lparr>hp_errno := (if ret \<noteq> 0 then err else HPE_PAUSED)\<rparr>, app := s'\<rparr>)))"

lemma run_callback_after:
  "hp_errno (prs ex) = HPE_OK \<Longrightarrow> err \<noteq> HPE_OK \<Longrightarrow> run_callback r err er ex k = after_callback r err er ex k"
  by (simp add: run_callback_def after_callback_def http_parser_pause_def split: sum.split prod.split)

lemma callback_notify_after:
  "err \<noteq> HPE_OK \<Longrightarrow> callback_notify cb err er ex k =
     assert_parser (hp_errno (prs ex) = HPE_OK)
       (case cb of None \<Rightarrow> k ex | Some f \<Rightarrow> after_callback (f (prs ex) (app ex)) err er ex k)"
  by (simp add: callback_notify_def assert_parser_def run_callback_after split: option.split)

lemma callback_data_after:
  "err \<noteq> HPE_OK \<Longrightarrow> callback_data cb err mark clear data e er ex k =
     assert_parser (hp_errno (prs ex) = HPE_OK)
       (case mark of None \<Rightarrow> k ex
        | Some m \<Rightarrow> (case cb of None \<Rightarrow> k (clear ex)
            | Some f \<Rightarrow> after_callback (f (prs ex) (slice m (e - m) data) (app ex)) err er ex (\<lambda>ex'. k (clear ex'))))"
  by (simp add: callback_data_def assert_parser_def run_callback_after split: option.split)

lemmas callback_macros =
  CALLBACK_header_field_def CALLBACK_header_value_def CALLBACK_url_def CALLBACK_body_def
  CALLBACK_message_begin_def CALLBACK_status_complete_def CALLBACK_message_complete_def

lemma assert_parser_split:
  "P (assert_parser c k) \<longleftrightarrow> (c \<longrightarrow> P k) \<and> (\<not> c \<longrightarrow> P (Fault (Assert_failed In_http_parser)))"
  by (simp add: assert_parser_def)

lemma STRICT_CHECK_split:
  "P (STRICT_CHECK c ex k) \<longleftrightarrow> (c \<longrightarrow> P (goto_error HPE_STRICT ex)) \<and> (\<not> c \<longrightarrow> P k)"
  by (simp add: STRICT_CHECK_def)

lemma after_callback_split:
  "P (after_callback r err er ex k) \<longleftrightarrow>
     (\<forall>f. r = Inl f \<longrightarrow> P (Fault f)) \<and>
     (\<forall>s'. r = Inr (0, False, s') \<longrightarrow> P (k (ex\<lparr>app := s'\<rparr>))) \<and>
     (\<forall>ret paused s'. r = Inr (ret, paused, s') \<and> (ret \<noteq> 0 \<or> paused) \<longrightarrow>
        P (Return er (ex\<lparr>prs := (prs ex)\<lparr>hp_errno := (if ret \<noteq> 0 then err else HPE_PAUSED)\<rparr>, app := s'\<rparr>)))"
  by (auto simp: after_callback_def split: sum.split prod.split)

lemma assert_parser_split_asm:
  "P (assert_parser c k) \<longleftrightarrow> \<not> ((c \<and> \<not> P k) \<or> (\<not> c \<and> \<not> P (Fault (Assert_failed In_http_parser))))"
  by (simp add: assert_parser_def)

lemma STRICT_CHECK_split_asm:
  "P (STRICT_CHECK c ex k) \<longleftrightarrow> \<not> ((c \<and> \<not> P (goto_error HPE_STRICT ex)) \<or> (\<not> c \<and> \<not> P k))"
  by (simp add: STRICT_CHECK_def)

lemma after_callback_split_asm:
  "P (after_callback r err er ex k) \<longleftrightarrow> \<not> (
     (\<exists>f. r = Inl f \<and> \<not> P (Fault f)) \<or>
     (\<exists>s'. r = Inr (0, False, s') \<and> \<not> P (k (ex\<lparr>app := s'\<rparr>))) \<or>
     (\<exists>ret paused s'. r = Inr (ret, paused, s') \<and> (ret \<noteq> 0 \<or> paused) \<and>
        \<not> P (Return er (ex\<lparr>prs := (prs ex)\<lparr>hp_errno := (if ret \<noteq> 0 then err else HPE_PAUSED)\<rparr>, app := s'\<rparr>))))"
  by (auto simp: after_callback_def split: sum.split prod.split)

lemmas ctl_splits =
  assert_parser_split assert_parser_split_asm STRICT_CHECK_split STRICT_CHECK_split_asm
  after_callback_split after_callback_split_asm option.splits sum.splits if_splits

lemma goto_error_simps [simp]:
  "goto_error e ex \<noteq> Next x" "goto_error e ex \<noteq> Again x" "goto_error e ex \<noteq> Return n x" "goto_error e ex \<noteq> Fault f"
  by (simp_all add: goto_error_def)

lemma to_state_simps [simp]:
  "hp_state (prs (to_state s ex)) = s" "pos (to_state s ex) = pos ex" "app (to_state s ex) = app ex"
  "hp_errno (prs (to_state s ex)) = hp_errno (prs ex)"
  by (simp_all add: to_state_def)

section \<open>Re-executing a byte comes to an end\<close>

definition goto_rank :: "state \<Rightarrow> nat" where
  "goto_rank s = (case s of
     s_start_req_or_res \<Rightarrow> 1 | s_header_value \<Rightarrow> 1 | s_header_value_lws \<Rightarrow> 3 | s_header_field_start \<Rightarrow> 2
   | s_headers_almost_done \<Rightarrow> 1 | s_body_identity \<Rightarrow> 1 | _ \<Rightarrow> 0)"

lemma notify_Next_not_Again: "callback_notify cb err er ex Next = Again ex' \<Longrightarrow> err \<noteq> HPE_OK \<Longrightarrow> False"
  by (simp add: callback_notify_after split: ctl_splits)

lemma step_Again_None:
  "step_dead ch ex \<noteq> Again ex'" "step_res_or_resp_H ch ex \<noteq> Again ex'"
  "step_letter c s ch ex \<noteq> Again ex'" "step_res_first_http_major ch ex \<noteq> Again ex'"
  "step_http_major s ch ex \<noteq> Again ex'" "step_first_http_minor s ch ex \<noteq> Again ex'"
  "step_res_http_minor ch ex \<noteq> Again ex'" "step_res_first_status_code ch ex \<noteq> Again ex'"
  "step_res_status_code ch ex \<noteq> Again ex'" "step_res_status ch ex \<noteq> Again ex'"
  "step_req_method ch ex \<noteq> Again ex'" "step_req_spaces_before_url ch ex \<noteq> Again ex'"
  "step_req_schema ch ex \<noteq> Again ex'" "step_req_http_start ch ex \<noteq> Again ex'"
  "step_req_first_http_major ch ex \<noteq> Again ex'" "step_req_http_minor ch ex \<noteq> Again ex'"
  "step_req_line_almost_done ch ex \<noteq> Again ex'" "step_header_almost_done ch ex \<noteq> Again ex'"
  "step_body_identity_eof data ex \<noteq> Again ex'" "step_chunk_size_start ch ex \<noteq> Again ex'"
  "step_chunk_size ch ex \<noteq> Again ex'" "step_chunk_parameters ch ex \<noteq> Again ex'"
  "step_chunk_size_almost_done ch ex \<noteq> Again ex'" "step_chunk_data data ex \<noteq> Again ex'"
  "step_chunk_data_done ch ex \<noteq> Again ex'"
  by (simp_all add: step_defs Let_def split: ctl_splits header_states.splits)

lemma step_Again_None_callbacks:
  "step_start_res st ch ex \<noteq> Again ex'" "step_res_line_almost_done st ch ex \<noteq> Again ex'"
  "step_start_req st ch ex \<noteq> Again ex'" "step_req_url st data ch ex \<noteq> Again ex'"
  "step_header_field st data ch ex \<noteq> Again ex'" "step_header_value_start st data ch ex \<noteq> Again ex'"
  "step_headers_done st ch ex \<noteq> Again ex'" "step_message_done st ex \<noteq> Again ex'"
  "step_chunk_data_almost_done st data ch ex \<noteq> Again ex'"
  by (simp_all add: step_defs Let_def callback_macros callback_notify_after callback_data_after
        value_start_char_def message_complete_def split: ctl_splits header_states.splits)

text \<open>The six states that go on with the same byte, and the states they go on in.\<close>

lemma step_Again_target:
  "step_start_req_or_res st ch ex = Again ex' \<Longrightarrow> hp_state (prs ex') = s_start_req"
  "step_header_field_start ch ex = Again ex' \<Longrightarrow> hp_state (prs ex') = s_headers_almost_done"
  "step_header_value st data ch ex = Again ex' \<Longrightarrow> hp_state (prs ex') = s_header_almost_done"
  "step_header_value_lws ch ex = Again ex' \<Longrightarrow> hp_state (prs ex') = s_header_field_start"
  "step_headers_almost_done st ch ex = Again ex' \<Longrightarrow> hp_state (prs ex') = s_headers_done"
  "step_body_identity st data ch ex = Again ex' \<Longrightarrow> hp_state (prs ex') = s_message_done"
  by (auto simp: step_defs Let_def callback_macros callback_notify_after callback_data_after
        headers_complete_def value_char_def set_flag_def http_parser_pause_def
        split: ctl_splits header_states.splits)

lemma exec_state_Again:
  "exec_state st data ch ex = Again ex' \<Longrightarrow> goto_rank (hp_state (prs ex')) < goto_rank (hp_state (prs ex))"
  by (cases "hp_state (prs ex)")
    (simp_all add: exec_state_def goto_rank_def step_Again_None step_Again_None_callbacks step_Again_target)

function (sequential) run_byte :: "'s http_parser_settings \<Rightarrow> bytes \<Rightarrow> byte \<Rightarrow> 's exec \<Rightarrow> 's ctl" where
  "run_byte st data ch ex =
     (case exec_state st data ch ex of Again ex' \<Rightarrow> run_byte st data ch ex' | r \<Rightarrow> r)"
  by pat_completeness auto
termination
  by (relation "measure (\<lambda>(st, data, ch, ex). goto_rank (hp_state (prs ex)))") (simp_all add: exec_state_Again)

declare run_byte.simps [simp del]

text \<open>While a byte is read, \<^verbatim>\<open>p\<close> never moves back and stays inside the buffer.\<close>

lemma take_body_pos:
  assumes "pos ex < length data" and "hp_content_length (prs ex) \<noteq> 0"
  shows "pos ex \<le> pos (take_body data ex) \<and> pos (take_body data ex) < length data"
proof -
  have "0 < unat (hp_content_length (prs ex))"
    using assms(2) by (simp add: unat_gt_0)
  then show ?thesis
    using assms(1) by (simp add: take_body_def body_to_read_def Let_def) linarith
qed

fun keeps_pos :: "nat \<Rightarrow> 's ctl \<Rightarrow> bool" where
  "keeps_pos p (Next ex) = (pos ex = p)"
| "keeps_pos p (Again ex) = (pos ex = p)"
| "keeps_pos p _ = True"

lemma goto_error_keeps [simp]: "keeps_pos p (goto_error e ex)"
  by (simp add: goto_error_def)

lemma step_keeps_pos:
  "keeps_pos (pos ex) (step_dead ch ex)" "keeps_pos (pos ex) (step_res_or_resp_H ch ex)"
  "keeps_pos (pos ex) (step_letter c s ch ex)" "keeps_pos (pos ex) (step_res_first_http_major ch ex)"
  "keeps_pos (pos ex) (step_http_major s ch ex)" "keeps_pos (pos ex) (step_first_http_minor s ch ex)"
  "keeps_pos (pos ex) (step_res_http_minor ch ex)" "keeps_pos (pos ex) (step_res_first_status_code ch ex)"
  "keeps_pos (pos ex) (step_res_status_code ch ex)" "keeps_pos (pos ex) (step_res_status ch ex)"
  "keeps_pos (pos ex) (step_req_method ch ex)" "keeps_pos (pos ex) (step_req_spaces_before_url ch ex)"
  "keeps_pos (pos ex) (step_req_schema ch ex)" "keeps_pos (pos ex) (step_req_http_start ch ex)"
  "keeps_pos (pos ex) (step_req_first_http_major ch ex)" "keeps_pos (pos ex) (step_req_http_minor ch ex)"
  "keeps_pos (pos ex) (step_req_line_almost_done ch ex)" "keeps_pos (pos ex) (step_header_almost_done ch ex)"
  "keeps_pos (pos ex) (step_header_field_start ch ex)" "keeps_pos (pos ex) (step_header_value_lws ch ex)"
  "keeps_pos (pos ex) (step_chunk_size_start ch ex)" "keeps_pos (pos ex) (step_chunk_size ch ex)"
  "keeps_pos (pos ex) (step_chunk_parameters ch ex)" "keeps_pos (pos ex) (step_chunk_size_almost_done ch ex)"
  "keeps_pos (pos ex) (step_chunk_data_done ch ex)"
  by (simp_all add: step_defs Let_def split: ctl_splits header_states.splits)

lemma step_keeps_pos_callbacks:
  "keeps_pos (pos ex) (step_start_req_or_res st ch ex)" "keeps_pos (pos ex) (step_start_res st ch ex)"
  "keeps_pos (pos ex) (step_res_line_almost_done st ch ex)" "keeps_pos (pos ex) (step_start_req st ch ex)"
  "keeps_pos (pos ex) (step_req_url st data ch ex)" "keeps_pos (pos ex) (step_header_field st data ch ex)"
  "keeps_pos (pos ex) (step_header_value_start st data ch ex)" "keeps_pos (pos ex) (step_header_value st data ch ex)"
  "keeps_pos (pos ex) (step_headers_almost_done st ch ex)" "keeps_pos (pos ex) (step_headers_done st ch ex)"
  "keeps_pos (pos ex) (step_message_done st ex)" "keeps_pos (pos ex) (step_chunk_data_almost_done st data ch ex)"
  by (simp_all add: step_defs Let_def callback_macros callback_notify_after callback_data_after
        value_start_char_def value_char_def message_complete_def headers_complete_def
        split: ctl_splits header_states.splits prod.splits)

fun advances :: "nat \<Rightarrow> nat \<Rightarrow> 's ctl \<Rightarrow> bool" where
  "advances p n (Next ex) = (p \<le> pos ex \<and> pos ex < n)"
| "advances p n (Again ex) = (p \<le> pos ex \<and> pos ex < n)"
| "advances p n _ = True"

lemma keeps_pos_advances: "keeps_pos p r \<Longrightarrow> p < n \<Longrightarrow> advances p n r"
  by (cases r) auto

lemma advances_trans: "advances q n r \<Longrightarrow> p \<le> q \<Longrightarrow> advances p n r"
  by (cases r) auto

lemma step_body_advances:
  assumes "pos ex < length data"
  shows "advances (pos ex) (length data) (step_body_identity st data ch ex)"
    and "advances (pos ex) (length data) (step_body_identity_eof data ex)"
    and "advances (pos ex) (length data) (step_chunk_data data ex)"
  using assms take_body_pos[OF assms]
  by (simp_all add: step_defs Let_def callback_macros callback_data_after split: ctl_splits) auto

lemma exec_state_advances:
  "pos ex < length data \<Longrightarrow> advances (pos ex) (length data) (exec_state st data ch ex)"
  by (cases "hp_state (prs ex)")
    (simp_all add: exec_state_def step_keeps_pos[THEN keeps_pos_advances]
      step_keeps_pos_callbacks[THEN keeps_pos_advances] step_body_advances)

lemma run_byte_advances:
  "pos ex < length data \<Longrightarrow> advances (pos ex) (length data) (run_byte st data ch ex)"
proof (induction st data ch ex rule: run_byte.induct)
  case (1 st data ch ex)
  from exec_state_advances[OF "1.prems", of st ch] show ?case
    using "1.IH" by (subst run_byte.simps) (auto split: ctl.split intro: advances_trans)
qed

lemma run_byte_Next:
  assumes "run_byte st data ch ex = Next ex'" and "pos ex < length data"
  shows "pos ex \<le> pos ex'" and "pos ex' < length data"
  using run_byte_advances[OF assms(2), of st ch] assms(1) by simp_all

section \<open>The loop over the buffer\<close>

text \<open>The count of header bytes at the top of the loop.\<close>

definition count_header :: "'s exec \<Rightarrow> 's ctl" where
  "count_header ex =
     (if PARSING_HEADER (hp_state (prs ex))
      then
        (let ex = prs_update (\<lambda>p. p\<lparr>hp_nread := hp_nread p + 1\<rparr>) ex
         in if unat (hp_nread (prs ex)) > HTTP_MAX_HEADER_SIZE then goto_error HPE_HEADER_OVERFLOW ex
            else Next ex)
      else Next ex)"

lemma count_header_pos: "count_header ex = Next ex' \<Longrightarrow> pos ex' = pos ex"
  by (auto simp: count_header_def Let_def split: if_splits)

function (sequential) exec_loop :: "'s http_parser_settings \<Rightarrow> bytes \<Rightarrow> 's exec \<Rightarrow> 's ctl" where
  "exec_loop st data ex =
     (if length data \<le> pos ex then Next ex
      else (case count_header ex of
              Next ex1 \<Rightarrow>
                (case run_byte st data (data ! pos ex1) ex1 of
                   Next ex2 \<Rightarrow> exec_loop st data (pos_update Suc ex2)
                 | r \<Rightarrow> r)
            | r \<Rightarrow> r))"
  by pat_completeness auto
termination
  by (relation "measure (\<lambda>(st, data, ex). length data - pos ex)")
    (auto dest!: run_byte_Next(1) count_header_pos)

declare exec_loop.simps [simp del]

text \<open>The callbacks for marks that are left over when the bytes run out.\<close>

definition count_marks :: "'s exec \<Rightarrow> nat" where
  "count_marks ex =
     (if field_mark ex = None then 0 else 1) + (if value_mark ex = None then 0 else 1) +
     (if url_mark ex = None then 0 else 1) + (if body_mark ex = None then 0 else 1)"

definition finish :: "'s http_parser_settings \<Rightarrow> bytes \<Rightarrow> 's exec \<Rightarrow> 's ctl" where
  "finish st data ex =
     assert_parser (count_marks ex \<le> 1)
       (CALLBACK_header_field st data (pos ex) (pos ex) ex (\<lambda>ex.
        CALLBACK_header_value st data (pos ex) (pos ex) ex (\<lambda>ex.
        CALLBACK_url st data (pos ex) (pos ex) ex (\<lambda>ex.
        CALLBACK_body st data (pos ex) (pos ex) ex (\<lambda>ex.
        Return (length data) ex)))))"

text \<open>The variables when the loop begins: a state inside a token continues it from the start of the buffer.\<close>

definition start_exec :: "http_parser \<Rightarrow> 's \<Rightarrow> 's exec" where
  "start_exec p s =
     \<lparr>prs = p, pos = 0,
      field_mark = (if hp_state p = s_header_field then Some 0 else None),
      value_mark = (if hp_state p = s_header_value then Some 0 else None),
      url_mark = (if List.member url_states (hp_state p) then Some 0 else None),
      body_mark = None, app = s\<rparr>"

text \<open>What the caller gets: the number of bytes parsed, the parser and the application's state.\<close>

fun exec_result :: "'s ctl \<Rightarrow> (nat \<times> http_parser \<times> 's) res" where
  "exec_result (Return n ex) = Inr (n, prs ex, app ex)"
| "exec_result (Error ex) =
     (let p = prs ex in
      Inr (pos ex, (if hp_errno p = HPE_OK then p\<lparr>hp_errno := HPE_UNKNOWN\<rparr> else p), app ex))"
| "exec_result (Fault f) = Inl f"
| "exec_result (Next ex) = Inr (pos ex, prs ex, app ex)"
| "exec_result (Again ex) = Inr (pos ex, prs ex, app ex)"

definition execute_eof :: "'s http_parser_settings \<Rightarrow> http_parser \<Rightarrow> 's \<Rightarrow> (nat \<times> http_parser \<times> 's) res" where
  "execute_eof st p s =
     (case hp_state p of
        s_body_identity_eof \<Rightarrow>
          exec_result (CALLBACK_message_complete st 0 (start_exec p s) (\<lambda>ex. Return 0 ex))
      | s_dead \<Rightarrow> Inr (0, p, s)
      | s_start_req_or_res \<Rightarrow> Inr (0, p, s)
      | s_start_res \<Rightarrow> Inr (0, p, s)
      | s_start_req \<Rightarrow> Inr (0, p, s)
      | _ \<Rightarrow> Inr (1, p\<lparr>hp_errno := HPE_INVALID_EOF_STATE\<rparr>, s))"

definition http_parser_execute ::
  "'s http_parser_settings \<Rightarrow> http_parser \<Rightarrow> bytes \<Rightarrow> 's \<Rightarrow> (nat \<times> http_parser \<times> 's) res" where
  "http_parser_execute st p data s =
     (if hp_errno p \<noteq> HPE_OK then Inr (0, p, s)
      else if data = [] then execute_eof st p s
      else
        (case exec_loop st data (start_exec p s) of
           Next ex \<Rightarrow> exec_result (finish st data ex)
         | r \<Rightarrow> exec_result r))"

end
