(* ===== verification/Http_Safety.thy ===== *)
theory Http_Safety
  imports Http_Execute
begin

text \<open>
  The invariant of the parser between two calls, and the theorem that with it no assertion of
  \<^verbatim>\<open>http_parser_execute\<close> fails and no read leaves a table: every fault of a call comes from a
  callback. The callbacks' contract is a locale; the invariant of the application, the faults
  its callbacks may have and the longest buffer are its parameters.
\<close>

section \<open>The invariant\<close>

definition field_header_states :: "header_states set" where
  "field_header_states = {h_general, h_C, h_CO, h_CON, h_matching_connection, h_matching_proxy_connection,
     h_matching_content_length, h_matching_transfer_encoding, h_matching_upgrade, h_connection,
     h_content_length, h_transfer_encoding, h_upgrade}"

text \<open>
  What each state promises about the rest of the parser. \<^theory_text>\<open>n\<close> is the value of \<^verbatim>\<open>nread\<close> at
  the start of a chunk: 0 between two bytes, 1 once the byte at hand is counted.
\<close>

definition state_ok :: "nat \<Rightarrow> http_parser \<Rightarrow> bool" where
  "state_ok n p \<longleftrightarrow>
     hp_state p \<noteq> s_zero \<and>
     (hp_state p = s_req_method \<longrightarrow> unat (hp_index p) \<le> length (method_string (hp_method p))) \<and>
     (hp_state p = s_header_field \<longrightarrow> hp_header_state p \<in> field_header_states) \<and>
     (hp_state p = s_header_value \<longrightarrow> hp_header_state p \<notin> {h_connection, h_transfer_encoding}) \<and>
     (hp_state p \<in> {s_chunk_size_start, s_chunk_size, s_chunk_parameters, s_chunk_size_almost_done,
         s_chunk_data, s_chunk_data_almost_done, s_chunk_data_done} \<longrightarrow> has_flag F_CHUNKED p) \<and>
     (hp_state p = s_chunk_size_start \<longrightarrow> hp_nread p = of_nat n) \<and>
     (hp_state p \<in> {s_body_identity, s_chunk_size, s_chunk_parameters, s_chunk_size_almost_done, s_chunk_data}
        \<longrightarrow> hp_content_length p \<noteq> ULLONG_MAX) \<and>
     (hp_state p \<in> {s_body_identity, s_chunk_data} \<longrightarrow> hp_content_length p \<noteq> 0) \<and>
     (hp_state p = s_chunk_data_almost_done \<longrightarrow> hp_content_length p = 0)"

definition counters_ok :: "http_parser \<Rightarrow> bool" where
  "counters_ok p \<longleftrightarrow> unat (hp_nread p) \<le> HTTP_MAX_HEADER_SIZE \<and>
     unat (hp_http_major p) \<le> 999 \<and> unat (hp_http_minor p) \<le> 999 \<and> unat (hp_status_code p) \<le> 999"

definition parser_ok :: "http_parser \<Rightarrow> bool" where
  "parser_ok p \<longleftrightarrow> (hp_errno p = HPE_OK \<or> hp_errno p = HPE_PAUSED \<longrightarrow> state_ok 0 p \<and> counters_ok p)"

text \<open>A mark is only set in the states whose token it starts.\<close>

definition marks_ok :: "'s exec \<Rightarrow> bool" where
  "marks_ok ex \<longleftrightarrow>
     (field_mark ex \<noteq> None \<longrightarrow> hp_state (prs ex) = s_header_field) \<and>
     (value_mark ex \<noteq> None \<longrightarrow> hp_state (prs ex) = s_header_value) \<and>
     (url_mark ex \<noteq> None \<longrightarrow> hp_state (prs ex) \<in> set url_states) \<and>
     (body_mark ex \<noteq> None \<longrightarrow> hp_state (prs ex) \<in>
        {s_body_identity, s_body_identity_eof, s_chunk_data, s_chunk_data_almost_done})"

definition exec_ok :: "nat \<Rightarrow> 's exec \<Rightarrow> bool" where
  "exec_ok n ex \<longleftrightarrow> hp_errno (prs ex) = HPE_OK \<and> state_ok n (prs ex) \<and> counters_ok (prs ex) \<and> marks_ok ex"

lemma state_ok_errno [simp]: "state_ok n (p\<lparr>hp_errno := e\<rparr>) = state_ok n p"
  unfolding state_ok_def has_flag_def by simp

lemma counters_ok_errno [simp]: "counters_ok (p\<lparr>hp_errno := e\<rparr>) = counters_ok p"
  unfolding counters_ok_def by simp

lemma http_parser_init_ok: "parser_ok (http_parser_init p t)"
  by (simp add: parser_ok_def state_ok_def counters_ok_def http_parser_init_def zeroed_parser_def)

lemma http_parser_pause_ok: "parser_ok p \<Longrightarrow> http_parser_pause p b = Inr p' \<Longrightarrow> parser_ok p'"
  unfolding http_parser_pause_def parser_ok_def by (cases "hp_errno p = HPE_OK \<or> hp_errno p = HPE_PAUSED") auto

section \<open>Facts about flags and numbers\<close>

lemma has_flag_set_flag [simp]:
  "has_flag f (set_flag g p) \<longleftrightarrow> has_flag f p \<or> g AND f \<noteq> 0"
  by (simp add: has_flag_def set_flag_def bit.conj_disj_distrib2 or_eq_0_iff)

lemma digit_val_less [simp]: "IS_NUM c \<Longrightarrow> digit_val c < 10"
  unfolding IS_NUM_def digit_val_def by simp linarith

lemma unat_digit [simp]: "IS_NUM c \<Longrightarrow> unat (of_nat (digit_val c) :: 16 word) = digit_val c"
  by (drule digit_val_less) (simp add: unat_of_nat)

lemma unat_add_digit:
  "unat n \<le> 999 \<Longrightarrow> IS_NUM c \<Longrightarrow> unat (add_digit n c) = 10 * unat n + digit_val c"
  by (drule digit_val_less) (simp add: add_digit_def unat_word_ariths unat_of_nat)

lemma grow_length_SomeD:
  "grow_length len base d = Some t \<Longrightarrow> t = len * base + d \<and> len \<le> t \<and> t \<noteq> ULLONG_MAX"
  by (auto simp: grow_length_def Let_def split: if_splits)

lemma unat_ULLONG_MAX [simp]: "unat ULLONG_MAX = 18446744073709551615"
  by (simp add: ULLONG_MAX_def unsigned_minus_1_eq_mask mask_eq_exp_minus_1)

lemma take_body_length:
  assumes "hp_content_length (prs ex) \<noteq> 0" and "hp_content_length (prs ex) \<noteq> ULLONG_MAX"
  shows "hp_content_length (prs (take_body data ex)) \<noteq> ULLONG_MAX"
proof -
  let ?c = "hp_content_length (prs ex)"
  let ?n = "body_to_read data ex"
  have n: "?n \<le> unat ?c" by (simp add: body_to_read_def)
  have c: "unat ?c < 2 ^ 64" using unsigned_less[of ?c, where ?'a = nat] by simp
  have "unat (?c - of_nat ?n) = unat ?c - ?n"
    using n c by (simp add: unat_sub word_le_nat_alt unat_of_nat)
  moreover have "unat ?c \<noteq> unat ULLONG_MAX" using assms(2) by (metis unsigned_word_eqI)
  moreover have "unat ?c \<le> unat ULLONG_MAX" using c by simp
  ultimately show ?thesis
    by (auto simp: take_body_def Let_def)
qed

lemma take_body_frame [simp]:
  "hp_errno (prs (take_body data ex)) = hp_errno (prs ex)"
  "hp_state (prs (take_body data ex)) = hp_state (prs ex)"
  "hp_flags (prs (take_body data ex)) = hp_flags (prs ex)"
  "hp_nread (prs (take_body data ex)) = hp_nread (prs ex)"
  "app (take_body data ex) = app ex"
  "counters_ok (prs (take_body data ex)) = counters_ok (prs ex)"
  "field_mark (take_body data ex) = field_mark ex" "value_mark (take_body data ex) = value_mark ex"
  "url_mark (take_body data ex) = url_mark ex"
  by (simp_all add: take_body_def Let_def counters_ok_def)

section \<open>The contract of the callbacks\<close>

definition callback_ok :: "('s \<Rightarrow> bool) \<Rightarrow> (fault \<Rightarrow> bool) \<Rightarrow> 's cb_result \<Rightarrow> bool" where
  "callback_ok I F r \<longleftrightarrow> (case r of Inl f \<Rightarrow> F f | Inr (_, _, s') \<Rightarrow> I s')"

definition notify_callbacks :: "'s http_parser_settings \<Rightarrow> 's http_cb option set" where
  "notify_callbacks st = {on_message_begin st, on_status_complete st, on_headers_complete st, on_message_complete st}"

definition data_callbacks :: "'s http_parser_settings \<Rightarrow> 's http_data_cb option set" where
  "data_callbacks st = {on_url st, on_header_field st, on_header_value st, on_body st}"

locale callback_contract =
  fixes st :: "'s http_parser_settings"
    and I :: "'s \<Rightarrow> bool"
    and F :: "fault \<Rightarrow> bool"
    and N :: nat
  assumes notify_contract: "Some f \<in> notify_callbacks st \<Longrightarrow> I s \<Longrightarrow> callback_ok I F (f p s)"
    and data_contract: "Some g \<in> data_callbacks st \<Longrightarrow> I s \<Longrightarrow> length d \<le> N \<Longrightarrow> callback_ok I F (g p d s)"
begin

fun ctl_ok :: "'s ctl \<Rightarrow> bool" where
  "ctl_ok (Next ex) = (exec_ok 0 ex \<and> I (app ex))"
| "ctl_ok (Again ex) = (exec_ok 1 ex \<and> I (app ex))"
| "ctl_ok (Return n ex) = (parser_ok (prs ex) \<and> I (app ex))"
| "ctl_ok (Error ex) = (hp_errno (prs ex) \<noteq> HPE_PAUSED \<and> I (app ex))"
| "ctl_ok (Fault f) = F f"

lemma ctl_ok_goto_error [simp]:
  "e \<noteq> HPE_PAUSED \<Longrightarrow> ctl_ok (goto_error e ex) = I (app ex)"
  by (simp add: goto_error_def)

lemma after_callback_ok:
  assumes "callback_ok I F r" and "hp_errno (prs ex) = HPE_OK" and "err \<noteq> HPE_OK" and "err \<noteq> HPE_PAUSED"
    and "state_ok 0 (prs ex)" and "counters_ok (prs ex)"
    and "\<And>s'. I s' \<Longrightarrow> ctl_ok (k (ex\<lparr>app := s'\<rparr>))"
  shows "ctl_ok (after_callback r err er ex k)"
  using assms by (auto simp: after_callback_def callback_ok_def parser_ok_def split: sum.splits)

lemma notify_ok:
  assumes "cb \<in> notify_callbacks st" and "hp_errno (prs ex) = HPE_OK" and "err \<noteq> HPE_OK" and "err \<noteq> HPE_PAUSED"
    and "state_ok 0 (prs ex)" and "counters_ok (prs ex)" and "I (app ex)"
    and "\<And>s'. I s' \<Longrightarrow> ctl_ok (k (ex\<lparr>app := s'\<rparr>))"
  shows "ctl_ok (callback_notify cb err er ex k)"
proof (cases cb)
  case None
  with assms(2,3,7) assms(8)[of "app ex"] show ?thesis by (simp add: callback_notify_after assert_parser_def)
next
  case (Some f)
  have "callback_ok I F (f (prs ex) (app ex))"
    using assms(1,7) Some by (intro notify_contract) simp_all
  from after_callback_ok[where k = k, OF this assms(2-6,8)] show ?thesis
    using Some assms(2,3) by (simp add: callback_notify_after assert_parser_def)
qed

lemma data_ok:
  assumes "cb \<in> data_callbacks st" and "hp_errno (prs ex) = HPE_OK" and "err \<noteq> HPE_OK" and "err \<noteq> HPE_PAUSED"
    and "state_ok 0 (prs ex)" and "counters_ok (prs ex)" and "I (app ex)" and "length data \<le> N"
    and "mark = None \<Longrightarrow> ctl_ok (k ex)"
    and "\<And>s'. I s' \<Longrightarrow> ctl_ok (k (clear (ex\<lparr>app := s'\<rparr>)))"
  shows "ctl_ok (callback_data cb err mark clear data e er ex k)"
proof (cases mark)
  case None
  with assms(2,3,9) show ?thesis by (simp add: callback_data_after assert_parser_def)
next
  case (Some m)
  show ?thesis
  proof (cases cb)
    case None
    with Some assms(2,3) assms(10)[of "app ex"] assms(7) show ?thesis
      by (simp add: callback_data_after assert_parser_def)
  next
    case (Some f)
    have "callback_ok I F (f (prs ex) (slice m (e - m) data) (app ex))"
      using assms(1,7,8) Some by (intro data_contract) simp_all
    from after_callback_ok[where k = "\<lambda>ex'. k (clear ex')", OF this assms(2-6,10)] show ?thesis
      using Some \<open>mark = Some m\<close> assms(2,3) by (simp add: callback_data_after assert_parser_def)
  qed
qed

end

end
