(* ===== verification/Http_Invariant.thy ===== *)
theory Http_Invariant
  imports Http_Safety
begin

text \<open>
  Every step of the parser keeps the invariant of \<^verbatim>\<open>Http_Safety\<close>, in the context of the
  callbacks' contract; so do the loop over the buffer, the callbacks at its end and the whole
  of \<^verbatim>\<open>http_parser_execute\<close>.
\<close>

section \<open>Facts about tables and frames\<close>

lemma digit_le [simp]: "IS_NUM c \<Longrightarrow> digit_val c \<le> 999"
  by (drule digit_val_less) simp

lemma counters_ok_frame [simp]:
  "counters_ok (p\<lparr>hp_state := x\<rparr>) = counters_ok p" "counters_ok (p\<lparr>hp_flags := f\<rparr>) = counters_ok p"
  "counters_ok (p\<lparr>hp_content_length := l\<rparr>) = counters_ok p"
  "counters_ok (p\<lparr>hp_header_state := h\<rparr>) = counters_ok p" "counters_ok (p\<lparr>hp_index := i\<rparr>) = counters_ok p"
  "counters_ok (p\<lparr>hp_method := m\<rparr>) = counters_ok p" "counters_ok (p\<lparr>hp_upgrade := u\<rparr>) = counters_ok p"
  "counters_ok (p\<lparr>hp_type := t\<rparr>) = counters_ok p" "counters_ok (reset_message p) = counters_ok p"
  "counters_ok (set_flag f p) = counters_ok p"
  by (simp_all add: counters_ok_def reset_message_def set_flag_def)

lemma unhex_range: "n < 256 \<Longrightarrow> unhex ! n \<in> {- 1, 0, 1, 2, 3, 4, 5, 6, 7, 8, 9, 10, 11, 12, 13, 14, 15}"
proof -
  assume "n < 256"
  then have "unhex ! n \<in> set unhex" by (intro nth_mem) (simp add: unhex_def)
  moreover have "set unhex \<subseteq> {- 1, 0, 1, 2, 3, 4, 5, 6, 7, 8, 9, 10, 11, 12, 13, 14, 15}" by (simp add: unhex_def)
  ultimately show ?thesis by blast
qed

lemma unhex_not_max: "unhex ! ord_of ch \<noteq> - 1 \<Longrightarrow> (of_int (unhex ! ord_of ch) :: 64 word) \<noteq> ULLONG_MAX"
  using unhex_range[of "ord_of ch"] by (auto simp: ULLONG_MAX_def)

lemma url_state_ok: "s \<in> set url_states \<Longrightarrow> state_ok n (p\<lparr>hp_state := s\<rparr>)"
  by (auto simp: state_ok_def url_states_def)

lemma url_state_marks:
  assumes "exec_ok n ex" and "hp_state (prs ex) \<in> set url_states"
  shows "field_mark ex = None" "value_mark ex = None" "body_mark ex = None"
proof -
  have "hp_state (prs ex) \<notin> {s_header_field, s_header_value, s_body_identity, s_body_identity_eof,
      s_chunk_data, s_chunk_data_almost_done}"
    using assms(2) by (auto simp: url_states_def)
  with assms(1) show "field_mark ex = None" "value_mark ex = None" "body_mark ex = None"
    by (auto simp: exec_ok_def marks_ok_def)
qed

lemma method_string_length: "3 \<le> length (method_string m)" "length (method_string m) \<le> 11"
  by (cases m; simp add: method_string_def)+

lemma method_string_pos [simp]: "Suc 0 \<le> length (method_string m)"
  using method_string_length(1)[of m] by linarith

lemma method_lengths:
  "length (method_string HTTP_CHECKOUT) = 8" "length (method_string HTTP_COPY) = 4"
  "length (method_string HTTP_MOVE) = 4" "length (method_string HTTP_MERGE) = 5"
  "length (method_string HTTP_MSEARCH) = 8" "length (method_string HTTP_MKACTIVITY) = 10"
  "length (method_string HTTP_SEARCH) = 6" "length (method_string HTTP_PROPFIND) = 8"
  "length (method_string HTTP_PUT) = 3" "length (method_string HTTP_PATCH) = 5"
  "length (method_string HTTP_PURGE) = 5" "length (method_string HTTP_UNSUBSCRIBE) = 11"
  "length (method_string HTTP_PROPPATCH) = 9"
  by (simp_all add: method_string_def)

lemma state_ok_change: "hp_state p \<noteq> s_chunk_size_start \<Longrightarrow> state_ok n p \<Longrightarrow> state_ok m p"
  by (simp add: state_ok_def)

lemma NEW_MESSAGE_cases: "NEW_MESSAGE p \<in> {s_start_req, s_start_res, s_dead}"
  by (simp add: NEW_MESSAGE_def start_state_def)

section \<open>Calls that are over\<close>

lemma run_byte_not_Again: "run_byte st data ch ex \<noteq> Again ex'"
proof (induction st data ch ex rule: run_byte.induct)
  case (1 st data ch ex)
  then show ?case by (subst run_byte.simps) (auto split: ctl.split)
qed

lemma exec_loop_not_Again: "exec_loop st data ex \<noteq> Again ex'"
proof (induction st data ex rule: exec_loop.induct)
  case (1 st data ex)
  have "count_header ex \<noteq> Again ex'" by (simp add: count_header_def Let_def goto_error_def)
  with 1 show ?case
    by (subst exec_loop.simps) (auto split: ctl.split simp: run_byte_not_Again)
qed

lemma assert_parser_not_Again: "k \<noteq> Again ex' \<Longrightarrow> assert_parser c k \<noteq> Again ex'"
  by (simp add: assert_parser_def)

lemma data_not_Again:
  assumes "\<And>ex. k ex \<noteq> Again ex'"
  shows "CALLBACK_header_field st data e er ex k \<noteq> Again ex'" "CALLBACK_header_value st data e er ex k \<noteq> Again ex'"
    "CALLBACK_url st data e er ex k \<noteq> Again ex'" "CALLBACK_body st data e er ex k \<noteq> Again ex'"
  using assms
  by (simp_all add: callback_macros callback_data_after after_callback_def assert_parser_def
      split: option.split sum.split prod.split)

lemma finish_not_Again: "finish st data ex \<noteq> Again ex'"
  unfolding finish_def
  by (rule assert_parser_not_Again, (rule data_not_Again)+, simp)

section \<open>The steps\<close>

text \<open>The outcome of a call: a fault \<^theory_text>\<open>F\<close> allows, or both invariants again.\<close>

definition call_ok :: "('s \<Rightarrow> bool) \<Rightarrow> (fault \<Rightarrow> bool) \<Rightarrow> (nat \<times> http_parser \<times> 's) res \<Rightarrow> bool" where
  "call_ok I F r \<longleftrightarrow> (case r of Inl f \<Rightarrow> F f | Inr (_, p', s') \<Rightarrow> parser_ok p' \<and> I s')"

context callback_contract
begin

lemmas ok_defs = exec_ok_def state_ok_def marks_ok_def counters_ok_def to_state_def url_states_def

lemma step_response_line_ok:
  assumes "exec_ok 1 ex" and "I (app ex)"
  shows "hp_state (prs ex) = s_dead \<Longrightarrow> ctl_ok (step_dead ch ex)"
    and "hp_state (prs ex) = s_res_or_resp_H \<Longrightarrow> ctl_ok (step_res_or_resp_H ch ex)"
    and "hp_state (prs ex) = s_res_H \<Longrightarrow> ctl_ok (step_letter c s_res_HT ch ex)"
    and "hp_state (prs ex) = s_res_HT \<Longrightarrow> ctl_ok (step_letter c s_res_HTT ch ex)"
    and "hp_state (prs ex) = s_res_HTT \<Longrightarrow> ctl_ok (step_letter c s_res_HTTP ch ex)"
    and "hp_state (prs ex) = s_res_HTTP \<Longrightarrow> ctl_ok (step_letter c s_res_first_http_major ch ex)"
    and "hp_state (prs ex) = s_res_first_http_major \<Longrightarrow> ctl_ok (step_res_first_http_major ch ex)"
    and "hp_state (prs ex) = s_res_http_major \<Longrightarrow> ctl_ok (step_http_major s_res_first_http_minor ch ex)"
    and "hp_state (prs ex) = s_res_first_http_minor \<Longrightarrow> ctl_ok (step_first_http_minor s_res_http_minor ch ex)"
    and "hp_state (prs ex) = s_res_http_minor \<Longrightarrow> ctl_ok (step_res_http_minor ch ex)"
    and "hp_state (prs ex) = s_res_first_status_code \<Longrightarrow> ctl_ok (step_res_first_status_code ch ex)"
    and "hp_state (prs ex) = s_res_status_code \<Longrightarrow> ctl_ok (step_res_status_code ch ex)"
    and "hp_state (prs ex) = s_res_status \<Longrightarrow> ctl_ok (step_res_status ch ex)"
  using assms
  by (simp_all add: step_defs ok_defs Let_def STRICT_CHECK_def word_less_nat_alt method_string_def
      split: if_splits)

lemma step_request_line_ok:
  assumes "exec_ok 1 ex" and "I (app ex)"
  shows "hp_state (prs ex) = s_req_http_start \<Longrightarrow> ctl_ok (step_req_http_start ch ex)"
    and "hp_state (prs ex) = s_req_http_H \<Longrightarrow> ctl_ok (step_letter c s_req_http_HT ch ex)"
    and "hp_state (prs ex) = s_req_http_HT \<Longrightarrow> ctl_ok (step_letter c s_req_http_HTT ch ex)"
    and "hp_state (prs ex) = s_req_http_HTT \<Longrightarrow> ctl_ok (step_letter c s_req_http_HTTP ch ex)"
    and "hp_state (prs ex) = s_req_http_HTTP \<Longrightarrow> ctl_ok (step_letter c s_req_first_http_major ch ex)"
    and "hp_state (prs ex) = s_req_http_major \<Longrightarrow> ctl_ok (step_http_major s_req_first_http_minor ch ex)"
    and "hp_state (prs ex) = s_req_first_http_minor \<Longrightarrow> ctl_ok (step_first_http_minor s_req_http_minor ch ex)"
    and "hp_state (prs ex) = s_req_http_minor \<Longrightarrow> ctl_ok (step_req_http_minor ch ex)"
    and "hp_state (prs ex) = s_req_line_almost_done \<Longrightarrow> ctl_ok (step_req_line_almost_done ch ex)"
    and "hp_state (prs ex) = s_header_value_lws \<Longrightarrow> ctl_ok (step_header_value_lws ch ex)"
    and "hp_state (prs ex) = s_header_almost_done \<Longrightarrow> ctl_ok (step_header_almost_done ch ex)"
  using assms
  by (simp_all add: step_defs ok_defs Let_def STRICT_CHECK_def word_less_nat_alt set_flag_def
      split: if_splits header_states.split)

lemma step_first_major_ok:
  assumes "exec_ok 1 ex" and "I (app ex)" and "hp_state (prs ex) = s_req_first_http_major"
  shows "ctl_ok (step_req_first_http_major ch ex)"
proof -
  have "IS_NUM ch" if "\<not> (ord_of ch < ord_of CHR ''1'' \<or> ord_of ch > ord_of CHR ''9'')"
    using that by (simp add: IS_NUM_def)
  with assms show ?thesis
    by (auto simp: step_defs ok_defs)
qed

lemma step_chunk_ok:
  assumes "exec_ok 1 ex" and "I (app ex)"
  shows "hp_state (prs ex) = s_chunk_parameters \<Longrightarrow> ctl_ok (step_chunk_parameters ch ex)"
    and "hp_state (prs ex) = s_chunk_size_almost_done \<Longrightarrow> ctl_ok (step_chunk_size_almost_done ch ex)"
    and "hp_state (prs ex) = s_chunk_data_done \<Longrightarrow> ctl_ok (step_chunk_data_done ch ex)"
    and "hp_state (prs ex) = s_body_identity_eof \<Longrightarrow> ctl_ok (step_body_identity_eof data ex)"
  using assms
  by (simp_all add: step_defs ok_defs Let_def STRICT_CHECK_def assert_parser_def has_flag_def set_flag_def
      split: if_splits)

lemma step_take_chunk_ok:
  assumes "exec_ok 1 ex" and "I (app ex)"
  shows "hp_state (prs ex) = s_chunk_data \<Longrightarrow> ctl_ok (step_chunk_data data ex)"
  using assms take_body_length[of ex data]
  by (simp add: step_defs exec_ok_def state_ok_def marks_ok_def to_state_def Let_def assert_parser_def
      has_flag_def url_states_def)

lemma step_chunk_size_ok:
  assumes "exec_ok 1 ex" and "I (app ex)"
  shows "hp_state (prs ex) = s_chunk_size_start \<Longrightarrow> ctl_ok (step_chunk_size_start ch ex)"
    and "hp_state (prs ex) = s_chunk_size \<Longrightarrow> ctl_ok (step_chunk_size ch ex)"
  using assms
  by (auto simp: step_defs ok_defs Let_def assert_parser_def has_flag_def unhex_not_max
      dest!: grow_length_SomeD split: if_splits option.split)

lemma url_char_ok:
  assumes "exec_ok n ex" and "I (app ex)" and "hp_state (prs ex) \<in> set url_states"
  shows "ctl_ok (url_char ch ex)"
  using assms url_state_marks[OF assms(1,3)] parse_url_char_states[of "hp_state (prs ex)" ch]
  by (auto simp: url_char_def Let_def exec_ok_def marks_ok_def url_state_ok to_state_def)

lemma step_req_schema_ok:
  assumes "exec_ok 1 ex" and "I (app ex)" and "hp_state (prs ex) \<in> set url_states"
  shows "ctl_ok (step_req_schema ch ex)"
  using url_char_ok[OF assms] assms(2) by (simp add: step_req_schema_def)

lemma step_req_spaces_before_url_ok:
  assumes "exec_ok 1 ex" and "I (app ex)" and "hp_state (prs ex) = s_req_spaces_before_url"
  shows "ctl_ok (step_req_spaces_before_url ch ex)"
proof (cases "ch = SP")
  case True
  have "state_ok 0 (prs ex)" using assms state_ok_change[of "prs ex" 1 0] by (simp add: exec_ok_def)
  with True assms show ?thesis by (simp add: step_defs exec_ok_def)
next
  case False
  have none: "field_mark ex = None" "value_mark ex = None" "body_mark ex = None"
    using assms by (auto simp: exec_ok_def marks_ok_def)
  show ?thesis
    using False assms parse_url_char_states[of s_req_server_start ch]
      parse_url_char_states[of s_req_spaces_before_url ch] none
    by (auto simp: step_defs Let_def exec_ok_def marks_ok_def url_state_ok to_state_def split: if_splits)
qed

lemma match_method_ok:
  assumes "match_method m i mch ch = Inr (m', s')" and "ch \<noteq> NUL"
    and "mch = (method_string m @ [NUL]) ! i" and "i \<le> length (method_string m)"
  shows "s' = Some s_req_spaces_before_url \<or> s' = None \<and> Suc i \<le> length (method_string m')"
proof (cases "ch = mch")
  case True
  then have "i \<noteq> length (method_string m)" using assms(2,3) by auto
  with True assms show ?thesis by (auto simp: match_method_def)
next
  case False
  with assms method_string_length[of m] show ?thesis
    by (auto simp: match_method_def method_lengths split: if_splits)
qed

lemma match_method_error: "match_method m i mch ch = Inl e \<Longrightarrow> e \<noteq> HPE_PAUSED"
  by (auto simp add: match_method_def split: if_splits)

lemma step_req_method_ok:
  assumes "exec_ok 1 ex" and "I (app ex)" and "hp_state (prs ex) = s_req_method"
  shows "ctl_ok (step_req_method ch ex)"
proof -
  let ?p = "prs ex"
  let ?i = "unat (hp_index ?p)"
  have i: "?i \<le> length (method_string (hp_method ?p))"
    using assms by (simp add: exec_ok_def state_ok_def)
  have none: "field_mark ex = None" "value_mark ex = None" "body_mark ex = None" "url_mark ex = None"
    using assms by (auto simp: exec_ok_def marks_ok_def url_states_def)
  have suc: "unat (hp_index ?p + 1) = Suc ?i"
    using i method_string_length(2)[of "hp_method ?p"] by (simp add: unat_word_ariths)
  have ok: "s' = Some s_req_spaces_before_url \<or> s' = None \<and> Suc ?i \<le> length (method_string m')"
    if "match_method (hp_method ?p) ?i ((method_string (hp_method ?p) @ [NUL]) ! ?i) ch = Inr (m', s')"
      and "ch \<noteq> NUL" for m' s'
    using match_method_ok[OF that refl i] .
  show ?thesis
    using assms i none ok
    by (auto simp: step_req_method_def Let_def exec_ok_def marks_ok_def state_ok_def suc
        dest: match_method_error split: sum.split prod.split)
qed

text \<open>The steps that call back.\<close>

lemma callback_members [simp]:
  "on_message_begin st \<in> notify_callbacks st" "on_status_complete st \<in> notify_callbacks st"
  "on_headers_complete st \<in> notify_callbacks st" "on_message_complete st \<in> notify_callbacks st"
  "on_url st \<in> data_callbacks st" "on_header_field st \<in> data_callbacks st"
  "on_header_value st \<in> data_callbacks st" "on_body st \<in> data_callbacks st"
  by (simp_all add: notify_callbacks_def data_callbacks_def)

lemma exec_ok_app [simp]: "exec_ok n (ex\<lparr>app := s\<rparr>) = exec_ok n ex"
  by (simp add: exec_ok_def marks_ok_def)

lemma notify_Next_ok:
  assumes "exec_ok 0 ex" and "I (app ex)"
  shows "ctl_ok (CALLBACK_message_begin st er ex Next)" "ctl_ok (CALLBACK_status_complete st er ex Next)"
    "ctl_ok (CALLBACK_message_complete st er ex Next)"
    "ctl_ok (CALLBACK_message_complete st er ex (\<lambda>ex. Return (Suc (pos ex)) ex))"
  using assms unfolding callback_macros
  by (auto intro!: notify_ok simp: exec_ok_def marks_ok_def parser_ok_def)

lemma data_clear_ok:
  assumes "hp_errno (prs ex) = HPE_OK" "state_ok 0 (prs ex)" "counters_ok (prs ex)" "I (app ex)" "length data \<le> N"
  shows "exec_ok 0 (ex\<lparr>field_mark := None\<rparr>) \<Longrightarrow> ctl_ok (CALLBACK_header_field st data e er ex Next)"
    "exec_ok 0 (ex\<lparr>value_mark := None\<rparr>) \<Longrightarrow> ctl_ok (CALLBACK_header_value st data e er ex Next)"
    "exec_ok 0 (ex\<lparr>url_mark := None\<rparr>) \<Longrightarrow> ctl_ok (CALLBACK_url st data e er ex Next)"
    "exec_ok 0 (ex\<lparr>body_mark := None\<rparr>) \<Longrightarrow> ctl_ok (CALLBACK_body st data e er ex Next)"
    "exec_ok 1 (ex\<lparr>value_mark := None\<rparr>) \<Longrightarrow> ctl_ok (CALLBACK_header_value st data e er ex Again)"
    "exec_ok 1 (ex\<lparr>body_mark := None\<rparr>) \<Longrightarrow> ctl_ok (CALLBACK_body st data e er ex Again)"
  unfolding callback_macros
  by (rule data_ok; use assms in \<open>simp add: exec_ok_def marks_ok_def\<close>)+

lemma step_starts_ok:
  assumes "exec_ok 1 ex" and "I (app ex)"
  shows "hp_state (prs ex) = s_start_req_or_res \<Longrightarrow> ctl_ok (step_start_req_or_res st ch ex)"
    and "hp_state (prs ex) = s_start_res \<Longrightarrow> ctl_ok (step_start_res st ch ex)"
    and "hp_state (prs ex) = s_start_req \<Longrightarrow> ctl_ok (step_start_req st ch ex)"
    and "hp_state (prs ex) = s_res_line_almost_done \<Longrightarrow> ctl_ok (step_res_line_almost_done st ch ex)"
  using assms
  by (simp_all add: step_defs Let_def STRICT_CHECK_def ok_defs reset_message_def method_string_length notify_Next_ok
      split: option.split)

lemma step_req_url_ok:
  assumes "exec_ok 1 ex" and "I (app ex)" and "hp_state (prs ex) \<in> set url_states" and "length data \<le> N"
  shows "ctl_ok (step_req_url st data ch ex)"
proof -
  have base: "hp_errno (prs ex) = HPE_OK" "counters_ok (prs ex)"
    using assms(1) by (simp_all add: exec_ok_def)
  have sp: "ctl_ok (CALLBACK_url st data e er (to_state s_req_http_start ex) Next)" for e er
    by (rule data_clear_ok(3))
      (use base assms(2,4) url_state_marks[OF assms(1,3)] in \<open>simp_all add: exec_ok_def marks_ok_def state_ok_def to_state_def\<close>)
  have nl: "ctl_ok (CALLBACK_url st data e er
      (prs_update (\<lambda>p. p\<lparr>hp_http_major := 0, hp_http_minor := 9, hp_state := s\<rparr>) ex) Next)"
    if "s = s_req_line_almost_done \<or> s = s_header_field_start" for e er s
    by (rule data_clear_ok(3))
      (use that base assms(2,4) url_state_marks[OF assms(1,3)] in
        \<open>auto simp: exec_ok_def marks_ok_def state_ok_def counters_ok_def\<close>)
  show ?thesis
    using sp nl url_char_ok[OF assms(1-3), of ch] by (simp add: step_req_url_def)
qed

lemma step_header_field_start_ok:
  assumes "exec_ok 1 ex" and "I (app ex)" and "hp_state (prs ex) = s_header_field_start"
  shows "ctl_ok (step_header_field_start ch ex)"
  using assms
  by (simp add: step_defs ok_defs Let_def first_header_state_def field_header_states_def)

lemma match_next_eq:
  "match_next S found c p = p\<lparr>hp_index := hp_index p + 1, hp_header_state :=
     (let i = unat (hp_index p + 1)
      in if i > length S \<or> c \<noteq> (S @ [NUL]) ! i then h_general
         else if i = length S - 1 then found else hp_header_state p)\<rparr>"
  by (simp add: match_next_def Let_def)

lemma field_char_total: "hp_header_state p \<in> field_header_states \<Longrightarrow> \<exists>p'. field_char ch c p = Inr p'"
  by (auto simp: field_char_def field_header_states_def)

lemma field_char_frame:
  "field_char ch c p = Inr p' \<Longrightarrow>
   hp_header_state p' \<in> field_header_states \<and> hp_state p' = hp_state p \<and> hp_errno p' = hp_errno p \<and>
   counters_ok p' = counters_ok p"
  by (cases "hp_header_state p")
    (auto simp: field_char_def match_letter_def match_next_eq field_header_states_def Let_def split: if_splits)

lemma step_header_field_ok:
  assumes "exec_ok 1 ex" and "I (app ex)" and "hp_state (prs ex) = s_header_field" and "length data \<le> N"
  shows "ctl_ok (step_header_field st data ch ex)"
proof (cases "TOKEN ch = NUL")
  case False
  have "hp_header_state (prs ex) \<in> field_header_states"
    using assms by (simp add: exec_ok_def state_ok_def)
  then obtain p' where p': "field_char ch (TOKEN ch) (prs ex) = Inr p'"
    using field_char_total by blast
  with False field_char_frame[OF p'] assms(1-3) show ?thesis
    by (simp add: step_header_field_def Let_def exec_ok_def marks_ok_def state_ok_def)
next
  case True
  have base: "hp_errno (prs ex) = HPE_OK" "counters_ok (prs ex)"
    "value_mark ex = None" "url_mark ex = None" "body_mark ex = None"
    using assms(1,3) by (auto simp: exec_ok_def marks_ok_def url_states_def)
  have "ctl_ok (CALLBACK_header_field st data e er (to_state s ex) Next)"
    if "s \<in> {s_header_value_start, s_header_almost_done, s_header_field_start}" for e er s
    by (rule data_clear_ok(1))
      (use that base assms(2,4) in \<open>auto simp: exec_ok_def marks_ok_def state_ok_def to_state_def\<close>)
  with True assms(2) show ?thesis by (simp add: step_header_field_def)
qed

lemma value_start_char_ok:
  assumes "hp_errno (prs ex) = HPE_OK" "counters_ok (prs ex)" "marks_ok ex" "I (app ex)"
    and "hp_state (prs ex) = s_header_value"
  shows "ctl_ok (value_start_char ch ex)"
  using assms
  by (simp add: value_start_char_def Let_def exec_ok_def marks_ok_def state_ok_def set_flag_def url_states_def
      split: header_states.split)

lemma value_char_ok:
  assumes "exec_ok 1 ex" "I (app ex)" and "hp_state (prs ex) = s_header_value"
  shows "ctl_ok (value_char ch ex)"
proof -
  have "hp_header_state (prs ex) \<noteq> h_connection" "hp_header_state (prs ex) \<noteq> h_transfer_encoding"
    using assms by (simp_all add: exec_ok_def state_ok_def)
  with assms show ?thesis
    by (cases "hp_header_state (prs ex)")
      (simp_all add: value_char_def Let_def exec_ok_def marks_ok_def state_ok_def match_next_eq url_states_def
       split: option.split)
qed

lemma header_value_end_ok:
  assumes "hp_errno (prs ex) = HPE_OK" "counters_ok (prs ex)" "I (app ex)" "length data \<le> N"
    and "field_mark ex = None" "url_mark ex = None" "body_mark ex = None"
    and "hp_state (prs ex) = s_header_almost_done \<or> hp_state (prs ex) = s_header_field_start"
  shows "ctl_ok (CALLBACK_header_value st data e er ex Next)"
    and "ctl_ok (CALLBACK_header_value st data e er ex Again)"
  by (rule data_clear_ok(2,5);
      use assms in \<open>auto simp: exec_ok_def marks_ok_def state_ok_def\<close>)+

lemma step_header_value_start_ok:
  assumes "exec_ok 1 ex" "I (app ex)" "hp_state (prs ex) = s_header_value_start" "length data \<le> N"
  shows "ctl_ok (step_header_value_start st data ch ex)"
proof -
  have base: "hp_errno (prs ex) = HPE_OK" "counters_ok (prs ex)" "state_ok 0 (prs ex)" "field_mark ex = None"
    "value_mark ex = None" "url_mark ex = None" "body_mark ex = None"
    using assms(1,3) state_ok_change[of "prs ex" 1 0] by (auto simp: exec_ok_def marks_ok_def url_states_def)
  let ?ex = "prs_update (\<lambda>p. p\<lparr>hp_state := s_header_value, hp_index := 0\<rparr>) (value_mark_update (set_mark (pos ex)) ex)"
  have v: "ctl_ok (value_start_char ch ?ex)"
    by (rule value_start_char_ok) (use base assms(2) in \<open>simp_all add: marks_ok_def\<close>)
  show ?thesis
    using base assms v
    by (simp add: step_header_value_start_def Let_def to_state_def exec_ok_def header_value_end_ok)
qed

lemma step_header_value_ok:
  assumes "exec_ok 1 ex" "I (app ex)" "hp_state (prs ex) = s_header_value" "length data \<le> N"
  shows "ctl_ok (step_header_value st data ch ex)"
proof -
  have base: "hp_errno (prs ex) = HPE_OK" "counters_ok (prs ex)" "field_mark ex = None"
    "url_mark ex = None" "body_mark ex = None"
    using assms(1,3) by (auto simp: exec_ok_def marks_ok_def url_states_def)
  show ?thesis
    using base assms value_char_ok[OF assms(1-3), of ch]
    by (simp add: step_header_value_def to_state_def header_value_end_ok)
qed

lemma message_complete_ok:
  assumes "hp_errno (prs ex) = HPE_OK" "counters_ok (prs ex)" "I (app ex)"
    and "field_mark ex = None" "value_mark ex = None" "url_mark ex = None" "body_mark ex = None"
  shows "ctl_ok (message_complete st ex Next)"
    and "ctl_ok (message_complete st ex (\<lambda>ex. Return (Suc (pos ex)) ex))"
    and "ctl_ok (CALLBACK_message_complete st er (to_state (NEW_MESSAGE (prs ex)) ex) Next)"
proof -
  have "exec_ok 0 (to_state (NEW_MESSAGE (prs ex)) ex)"
    using assms NEW_MESSAGE_cases[of "prs ex"]
    by (auto simp: exec_ok_def marks_ok_def state_ok_def to_state_def)
  from notify_Next_ok[OF this] assms(3)
  show "ctl_ok (message_complete st ex Next)"
    and "ctl_ok (message_complete st ex (\<lambda>ex. Return (Suc (pos ex)) ex))"
    and "ctl_ok (CALLBACK_message_complete st er (to_state (NEW_MESSAGE (prs ex)) ex) Next)"
    by (simp_all add: message_complete_def)
qed

lemma headers_complete_ok:
  assumes "exec_ok 0 ex" "I (app ex)" "hp_state (prs ex) = s_headers_done"
  shows "ctl_ok (headers_complete st ex)"
proof (cases "on_headers_complete st")
  case None
  then show ?thesis
    using assms state_ok_change[of "prs ex" 0 1] by (simp add: headers_complete_def exec_ok_def)
next
  case (Some f)
  then have "Some f \<in> notify_callbacks st" using callback_members(3) by metis
  then have "callback_ok I F (f (prs ex) (app ex))"
    using assms(2) by (rule notify_contract)
  then show ?thesis
    using Some assms state_ok_change[of "prs ex" 0 1]
    by (auto simp: headers_complete_def callback_ok_def http_parser_pause_def exec_ok_def marks_ok_def
        state_ok_def parser_ok_def set_flag_def has_flag_def Let_def split: sum.split prod.split)
qed

lemma step_headers_almost_done_ok:
  assumes "exec_ok 1 ex" "I (app ex)" "hp_state (prs ex) = s_headers_almost_done"
  shows "ctl_ok (step_headers_almost_done st ch ex)"
proof -
  have base: "hp_errno (prs ex) = HPE_OK" "counters_ok (prs ex)" "field_mark ex = None"
    "value_mark ex = None" "url_mark ex = None" "body_mark ex = None"
    using assms(1,3) by (auto simp: exec_ok_def marks_ok_def url_states_def)
  have "ctl_ok (headers_complete st (prs_update (\<lambda>p. p\<lparr>hp_state := s_headers_done, hp_upgrade := u p\<rparr>) ex))" for u
    by (rule headers_complete_ok) (use base assms(2) in \<open>simp_all add: exec_ok_def marks_ok_def state_ok_def\<close>)
  with base assms(2) show ?thesis
    by (simp add: step_headers_almost_done_def STRICT_CHECK_def message_complete_ok)
qed

lemma step_headers_done_ok:
  assumes "exec_ok 1 ex" "I (app ex)" "hp_state (prs ex) = s_headers_done"
  shows "ctl_ok (step_headers_done st ch ex)"
proof -
  have base: "hp_errno (prs ex) = HPE_OK" "counters_ok (prs ex)" "field_mark ex = None"
    "value_mark ex = None" "url_mark ex = None" "body_mark ex = None"
    using assms(1,3) by (auto simp: exec_ok_def marks_ok_def url_states_def)
  have c: "counters_ok (prs (prs_update (hp_nread_update (\<lambda>_. 0)) ex))"
    using base(2) by (simp add: counters_ok_def)
  show ?thesis
    using base assms(2) c
    by (simp add: step_headers_done_def STRICT_CHECK_def Let_def message_complete_ok exec_ok_def marks_ok_def
        state_ok_def to_state_def has_flag_def)
qed

lemma step_message_done_ok:
  assumes "exec_ok 1 ex" "I (app ex)" "hp_state (prs ex) = s_message_done"
  shows "ctl_ok (step_message_done st ex)"
  unfolding step_message_done_def
  by (rule message_complete_ok(1)) (use assms in \<open>auto simp: exec_ok_def marks_ok_def url_states_def\<close>)

lemma step_body_identity_ok:
  assumes "exec_ok 1 ex" "I (app ex)" "hp_state (prs ex) = s_body_identity" "length data \<le> N"
  shows "ctl_ok (step_body_identity st data ch ex)"
proof -
  let ?ex = "take_body data ex"
  have l: "hp_content_length (prs ex) \<noteq> 0" "hp_content_length (prs ex) \<noteq> ULLONG_MAX"
    and base: "hp_errno (prs ex) = HPE_OK" "counters_ok (prs ex)" "field_mark ex = None"
      "value_mark ex = None" "url_mark ex = None"
    using assms(1,3) by (auto simp: exec_ok_def state_ok_def marks_ok_def url_states_def)
  have "ctl_ok (CALLBACK_body st data e er (to_state s_message_done ?ex) Again)" for e er
    by (rule data_clear_ok(6)) (use base assms(2-4) in \<open>simp_all add: exec_ok_def marks_ok_def state_ok_def to_state_def\<close>)
  with l base assms(2,3) take_body_length[OF l] show ?thesis
    by (simp add: step_body_identity_def Let_def assert_parser_def exec_ok_def marks_ok_def state_ok_def)
qed

lemma step_chunk_data_almost_done_ok:
  assumes "exec_ok 1 ex" "I (app ex)" "hp_state (prs ex) = s_chunk_data_almost_done" "length data \<le> N"
  shows "ctl_ok (step_chunk_data_almost_done st data ch ex)"
proof -
  have base: "hp_errno (prs ex) = HPE_OK" "counters_ok (prs ex)" "has_flag F_CHUNKED (prs ex)"
    "hp_content_length (prs ex) = 0" "field_mark ex = None" "value_mark ex = None" "url_mark ex = None"
    using assms(1,3) by (auto simp: exec_ok_def state_ok_def marks_ok_def url_states_def)
  have "ctl_ok (CALLBACK_body st data e er (to_state s_chunk_data_done ex) Next)" for e er
    by (rule data_clear_ok(4))
      (use base assms(2-4) in \<open>simp_all add: exec_ok_def marks_ok_def state_ok_def to_state_def has_flag_def\<close>)
  with base assms(2) show ?thesis
    by (simp add: step_chunk_data_almost_done_def assert_parser_def STRICT_CHECK_def)
qed

text \<open>The switch, the loop and the whole call.\<close>

lemma exec_state_ok:
  assumes "exec_ok 1 ex" "I (app ex)" "length data \<le> N"
  shows "ctl_ok (exec_state st data ch ex)"
  using assms
  by (cases "hp_state (prs ex)")
    (simp_all add: exec_state_def step_response_line_ok step_request_line_ok step_first_major_ok step_chunk_ok
      step_take_chunk_ok step_chunk_size_ok step_req_schema_ok step_req_spaces_before_url_ok step_req_method_ok
      step_starts_ok step_req_url_ok step_header_field_start_ok step_header_field_ok step_header_value_start_ok
      step_header_value_ok step_headers_almost_done_ok step_headers_done_ok step_message_done_ok
      step_body_identity_ok step_chunk_data_almost_done_ok url_states_def exec_ok_def state_ok_def)

lemma run_byte_ok:
  "exec_ok 1 ex \<Longrightarrow> I (app ex) \<Longrightarrow> length data \<le> N \<Longrightarrow> ctl_ok (run_byte st data ch ex)"
proof (induction ex rule: measure_induct_rule[where f = "\<lambda>ex. goto_rank (hp_state (prs ex))"])
  case (less ex)
  from less.prems have "ctl_ok (exec_state st data ch ex)" by (rule exec_state_ok)
  with less exec_state_Again[of st data ch ex] show ?case
    by (subst run_byte.simps) (auto split: ctl.split)
qed

lemma count_header_ok:
  assumes "exec_ok 0 ex"
  shows "(\<exists>ex'. count_header ex = Next ex' \<and> exec_ok 1 ex' \<and> app ex' = app ex) \<or>
    (\<exists>ex'. count_header ex = Error ex' \<and> hp_errno (prs ex') \<noteq> HPE_PAUSED \<and> app ex' = app ex)"
proof (cases "PARSING_HEADER (hp_state (prs ex))")
  case True
  have n: "unat (hp_nread (prs ex)) \<le> HTTP_MAX_HEADER_SIZE"
    using assms by (simp add: exec_ok_def counters_ok_def)
  then have "unat (hp_nread (prs ex) + 1) = Suc (unat (hp_nread (prs ex)))"
    by (simp add: unat_word_ariths HTTP_MAX_HEADER_SIZE_def)
  with True assms show ?thesis
    by (simp add: count_header_def Let_def goto_error_def exec_ok_def marks_ok_def state_ok_def counters_ok_def
        has_flag_def parser_ok_def)
next
  case False
  then have "hp_state (prs ex) \<noteq> s_chunk_size_start"
    by (auto simp: PARSING_HEADER_def less_eq_state_def)
  with False assms state_ok_change[of "prs ex" 0 1] show ?thesis
    by (simp add: count_header_def exec_ok_def)
qed

lemma exec_loop_ok:
  "exec_ok 0 ex \<Longrightarrow> I (app ex) \<Longrightarrow> length data \<le> N \<Longrightarrow> ctl_ok (exec_loop st data ex)"
proof (induction ex rule: measure_induct_rule[where f = "\<lambda>ex. length data - pos ex"])
  case (less ex)
  show ?case
  proof (cases "length data \<le> pos ex")
    case True
    with less.prems show ?thesis by (subst exec_loop.simps) simp
  next
    case False
    from count_header_ok[OF less.prems(1)] show ?thesis
    proof (elim disjE exE conjE)
      fix ex1 assume c: "count_header ex = Next ex1" "exec_ok 1 ex1" "app ex1 = app ex"
      have p: "pos ex1 = pos ex" by (rule count_header_pos[OF c(1)])
      let ?r = "run_byte st data (data ! pos ex1) ex1"
      have r: "ctl_ok ?r" using run_byte_ok c less.prems by simp
      have "ctl_ok (exec_loop st data (pos_update Suc ex2))" if "?r = Next ex2" for ex2
        using less.IH[of "pos_update Suc ex2"] r that run_byte_Next(1)[OF that] p False less.prems(3)
        by (simp add: exec_ok_def marks_ok_def)
      with r c(1) False show ?thesis
        by (subst exec_loop.simps) (auto split: ctl.split)
    next
      fix ex1 assume "count_header ex = Error ex1" "hp_errno (prs ex1) \<noteq> HPE_PAUSED" "app ex1 = app ex"
      with False less.prems(2) show ?thesis by (subst exec_loop.simps) simp
    qed
  qed
qed

text \<open>What is left when the buffer is read: one pending mark at most.\<close>

lemma marks_exclusive: "marks_ok ex \<Longrightarrow> count_marks ex \<le> 1"
  by (cases "hp_state (prs ex)") (simp_all add: marks_ok_def count_marks_def url_states_def)

lemma data_keep_ok:
  assumes "hp_errno (prs ex) = HPE_OK" "state_ok 0 (prs ex)" "counters_ok (prs ex)" "I (app ex)" "length data \<le> N"
    and k: "\<And>ex. hp_errno (prs ex) = HPE_OK \<Longrightarrow> state_ok 0 (prs ex) \<Longrightarrow> counters_ok (prs ex) \<Longrightarrow> I (app ex) \<Longrightarrow>
      ctl_ok (k ex)"
  shows "ctl_ok (CALLBACK_header_field st data e er ex k)" "ctl_ok (CALLBACK_header_value st data e er ex k)"
    "ctl_ok (CALLBACK_url st data e er ex k)" "ctl_ok (CALLBACK_body st data e er ex k)"
  unfolding callback_macros by (rule data_ok; use assms(1-5) in \<open>simp add: k\<close>)+

lemma finish_ok:
  assumes "exec_ok 0 ex" "I (app ex)" "length data \<le> N"
  shows "ctl_ok (finish st data ex)"
proof -
  have base: "hp_errno (prs ex) = HPE_OK" "state_ok 0 (prs ex)" "counters_ok (prs ex)" "marks_ok ex"
    using assms(1) by (simp_all add: exec_ok_def)
  then have "count_marks ex \<le> 1" using marks_exclusive by blast
  with base assms(2,3) show ?thesis
    unfolding finish_def assert_parser_def by (simp add: data_keep_ok parser_ok_def)
qed

lemma start_exec_ok:
  assumes "hp_errno p = HPE_OK" "parser_ok p"
  shows "exec_ok 0 (start_exec p s)"
  using assms by (auto simp: exec_ok_def start_exec_def marks_ok_def parser_ok_def)

lemma start_exec_app: "app (start_exec p s) = s"
  by (simp add: start_exec_def)

lemma exec_result_ok:
  assumes "ctl_ok r" and "\<And>ex. r \<noteq> Again ex"
  shows "call_ok I F (exec_result r)"
proof (cases r)
  case (Again ex)
  with assms(2) show ?thesis by blast
qed (use assms(1) in \<open>simp_all add: call_ok_def parser_ok_def exec_ok_def Let_def\<close>)

lemma execute_eof_ok:
  assumes "hp_errno p = HPE_OK" "parser_ok p" "I s"
  shows "call_ok I F (execute_eof st p s)"
proof -
  have "exec_ok 0 (start_exec p s)" using start_exec_ok[OF assms(1,2)] .
  then have "ctl_ok (CALLBACK_message_complete st 0 (start_exec p s) (\<lambda>ex. Return 0 ex))"
    unfolding callback_macros using assms(3)
    by (auto intro!: notify_ok simp: exec_ok_def parser_ok_def start_exec_def)
  moreover have "CALLBACK_message_complete st 0 (start_exec p s) (\<lambda>ex. Return 0 ex) \<noteq> Again ex" for ex
    by (simp add: callback_macros callback_notify_after split: ctl_splits)
  ultimately have "call_ok I F (exec_result (CALLBACK_message_complete st 0 (start_exec p s) (\<lambda>ex. Return 0 ex)))"
    by (rule exec_result_ok)
  with assms show ?thesis
    by (simp add: execute_eof_def call_ok_def parser_ok_def split: state.split)
qed

theorem http_parser_execute_ok:
  assumes "parser_ok p" "I s" "length data \<le> N"
  shows "call_ok I F (http_parser_execute st p data s)"
proof (cases "hp_errno p = HPE_OK \<and> data \<noteq> []")
  case True
  then have ok: "ctl_ok (exec_loop st data (start_exec p s))"
    using assms exec_loop_ok[OF start_exec_ok] by (simp add: start_exec_app)
  show ?thesis
  proof (cases "exec_loop st data (start_exec p s)")
    case (Next ex)
    with ok finish_ok assms(3) have "ctl_ok (finish st data ex)" by simp
    from exec_result_ok[OF this finish_not_Again] True Next show ?thesis
      by (simp add: http_parser_execute_def)
  qed (use exec_result_ok[OF ok exec_loop_not_Again] True in \<open>simp_all add: http_parser_execute_def\<close>)
next
  case False
  with assms execute_eof_ok show ?thesis by (auto simp: http_parser_execute_def call_ok_def)
qed

end

end
