(* ===== verification/Http_Split.thy ===== *)
theory Http_Split
  imports Http_Invariant
begin

text \<open>
  The parser does not depend on how the stream is cut. Two calls' variables are twins when they
  hold the same parser and stand at corresponding places of their buffers; with callbacks that
  are quiet (they return 0, and neither fault nor pause) twins stay twins, in every state, and a
  body taken in two parts leaves the same parser as a body taken at once.
\<close>

section \<open>Quiet callbacks and twins\<close>

definition quiet_cb :: "'s http_cb option \<Rightarrow> bool" where
  "quiet_cb cb \<longleftrightarrow> (\<forall>f p s. cb = Some f \<longrightarrow> (\<exists>s'. f p s = Inr (0, False, s')))"

definition quiet_data_cb :: "'s http_data_cb option \<Rightarrow> bool" where
  "quiet_data_cb cb \<longleftrightarrow> (\<forall>f p d s. cb = Some f \<longrightarrow> (\<exists>s'. f p d s = Inr (0, False, s')))"

definition quiet :: "'s http_parser_settings \<Rightarrow> bool" where
  "quiet st \<longleftrightarrow> quiet_cb (on_message_begin st) \<and> quiet_data_cb (on_url st) \<and> quiet_cb (on_status_complete st) \<and>
     quiet_data_cb (on_header_field st) \<and> quiet_data_cb (on_header_value st) \<and> quiet_cb (on_headers_complete st) \<and>
     quiet_data_cb (on_body st) \<and> quiet_cb (on_message_complete st)"

definition twin :: "nat \<Rightarrow> 's exec \<Rightarrow> 's exec \<Rightarrow> bool" where
  "twin k a b \<longleftrightarrow> prs b = prs a \<and> pos b = pos a + k"

fun sim :: "nat \<Rightarrow> 's ctl \<Rightarrow> 's ctl \<Rightarrow> bool" where
  "sim k (Next a) (Next b) = twin k a b"
| "sim k (Again a) (Again b) = twin k a b"
| "sim k (Return m a) (Return n b) = (n = m + k \<and> prs b = prs a)"
| "sim k (Error a) (Error b) = twin k a b"
| "sim k (Fault f) (Fault g) = (f = g)"
| "sim k _ _ = False"

lemma twin_simps:
  "twin k a b \<Longrightarrow> prs b = prs a" "twin k a b \<Longrightarrow> pos b = pos a + k"
  by (simp_all add: twin_def)

lemma sim_goto_error [simp]: "twin k a b \<Longrightarrow> sim k (goto_error e a) (goto_error e b)"
  by (simp add: goto_error_def twin_def)

lemma run_callback_quiet:
  "hp_errno (prs ex) = HPE_OK \<Longrightarrow> run_callback (Inr (0, False, s)) err er ex K = K (ex\<lparr>app := s\<rparr>)"
  by (simp add: run_callback_def)

lemma sim_notify:
  assumes "quiet_cb cb" "prs b = prs a"
    and "\<And>s s'. sim k (K (a\<lparr>app := s\<rparr>)) (K' (b\<lparr>app := s'\<rparr>))"
  shows "sim k (callback_notify cb err er a K) (callback_notify cb err er' b K')"
proof (cases cb)
  case None
  then show ?thesis using assms(2) assms(3)[of "app a" "app b"] by (simp add: callback_notify_def assert_parser_def)
next
  case (Some f)
  obtain s s' where "f (prs a) (app a) = Inr (0, False, s)" "f (prs a) (app b) = Inr (0, False, s')"
    using assms(1) Some by (metis quiet_cb_def)
  then show ?thesis using Some assms(2) assms(3)[of s s']
    by (simp add: callback_notify_def assert_parser_def run_callback_quiet)
qed

lemma sim_data:
  assumes "quiet_data_cb cb" "prs b = prs a"
    and "\<And>x. prs (clear x) = prs x \<and> pos (clear x) = pos x" "\<And>x. prs (clear' x) = prs x \<and> pos (clear' x) = pos x"
    and "\<And>x y. prs x = prs a \<Longrightarrow> pos x = pos a \<Longrightarrow> prs y = prs a \<Longrightarrow> pos y = pos b \<Longrightarrow> sim k (K x) (K' y)"
  shows "sim k (callback_data cb err m clear d e er a K) (callback_data cb err m' clear' d' e' er' b K')"
proof -
  have one: "\<exists>x. prs x = prs ex \<and> pos x = pos ex \<and> (callback_data cb err m clear d e er ex K = assert_parser (hp_errno (prs ex) = HPE_OK) (K x))"
    if "\<And>x. prs (clear x) = prs x \<and> pos (clear x) = pos x" for ex m clear d e er and K :: "'a exec \<Rightarrow> 'a ctl"
  proof (cases m)
    case None
    then show ?thesis by (intro exI[of _ ex]) (simp add: callback_data_def)
  next
    case (Some q)
    show ?thesis
    proof (cases cb)
      case None
      then show ?thesis using Some that by (intro exI[of _ "clear ex"]) (simp add: callback_data_def)
    next
      case (Some f)
      obtain s where "f (prs ex) (slice q (e - q) d) (app ex) = Inr (0, False, s)"
        using assms(1) Some by (metis quiet_data_cb_def)
      then show ?thesis using Some \<open>m = Some q\<close> that
        by (intro exI[of _ "clear (ex\<lparr>app := s\<rparr>)"]) (simp add: callback_data_def run_callback_quiet assert_parser_def)
    qed
  qed
  obtain x where x: "prs x = prs a" "pos x = pos a" "callback_data cb err m clear d e er a K = assert_parser (hp_errno (prs a) = HPE_OK) (K x)"
    using one[of clear a m d e er K] assms(3) by blast
  obtain y where y: "prs y = prs b" "pos y = pos b" "callback_data cb err m' clear' d' e' er' b K' = assert_parser (hp_errno (prs b) = HPE_OK) (K' y)"
    using one[of clear' b m' d' e' er' K'] assms(4) by blast
  show ?thesis using x y assms(2) assms(5)[of x y] by (simp add: assert_parser_def)
qed

section \<open>Every state treats twins alike\<close>

lemma sim_steps:
  assumes "twin k a b"
  shows "sim k (step_dead ch a) (step_dead ch b)" "sim k (step_res_or_resp_H ch a) (step_res_or_resp_H ch b)"
    "sim k (step_letter c s ch a) (step_letter c s ch b)" "sim k (step_res_first_http_major ch a) (step_res_first_http_major ch b)"
    "sim k (step_http_major s ch a) (step_http_major s ch b)" "sim k (step_first_http_minor s ch a) (step_first_http_minor s ch b)"
    "sim k (step_res_http_minor ch a) (step_res_http_minor ch b)"
    "sim k (step_res_first_status_code ch a) (step_res_first_status_code ch b)"
    "sim k (step_res_status_code ch a) (step_res_status_code ch b)" "sim k (step_res_status ch a) (step_res_status ch b)"
    "sim k (step_req_spaces_before_url ch a) (step_req_spaces_before_url ch b)"
    "sim k (step_req_schema ch a) (step_req_schema ch b)" "sim k (step_req_http_start ch a) (step_req_http_start ch b)"
    "sim k (step_req_first_http_major ch a) (step_req_first_http_major ch b)" "sim k (step_req_http_minor ch a) (step_req_http_minor ch b)"
    "sim k (step_req_line_almost_done ch a) (step_req_line_almost_done ch b)"
  using assms
  by (simp_all add: twin_def step_defs Let_def goto_error_def STRICT_CHECK_def to_state_def)

lemma sim_steps_more:
  assumes "twin k a b"
  shows "sim k (step_req_method ch a) (step_req_method ch b)" "sim k (step_header_almost_done ch a) (step_header_almost_done ch b)"
    "sim k (step_header_field_start ch a) (step_header_field_start ch b)" "sim k (step_header_value_lws ch a) (step_header_value_lws ch b)"
    "sim k (step_chunk_size_start ch a) (step_chunk_size_start ch b)" "sim k (step_chunk_size ch a) (step_chunk_size ch b)"
    "sim k (step_chunk_parameters ch a) (step_chunk_parameters ch b)"
    "sim k (step_chunk_size_almost_done ch a) (step_chunk_size_almost_done ch b)"
    "sim k (step_chunk_data_done ch a) (step_chunk_data_done ch b)"
  using assms
  by (simp_all add: twin_def step_defs Let_def goto_error_def STRICT_CHECK_def to_state_def assert_parser_def
      split: option.split sum.split header_states.split)

lemma sim_value_chars:
  assumes "twin k a b"
  shows "sim k (value_start_char ch a) (value_start_char ch b)" "sim k (value_char ch a) (value_char ch b)"
  using assms
  by (simp_all add: twin_def value_start_char_def value_char_def Let_def goto_error_def split: option.split header_states.split)

lemma sim_callbacks:
  assumes "twin k a b" "quiet st"
  shows "sim k (step_start_req_or_res st ch a) (step_start_req_or_res st ch b)" "sim k (step_start_res st ch a) (step_start_res st ch b)"
    "sim k (step_res_line_almost_done st ch a) (step_res_line_almost_done st ch b)" "sim k (step_start_req st ch a) (step_start_req st ch b)"
    "sim k (step_req_url st d ch a) (step_req_url st d' ch b)" "sim k (step_header_field st d ch a) (step_header_field st d' ch b)"
    "sim k (step_message_done st a) (step_message_done st b)"
    "sim k (step_chunk_data_almost_done st d ch a) (step_chunk_data_almost_done st d' ch b)"
  using assms unfolding quiet_def
  by (simp_all add: twin_def step_defs Let_def goto_error_def STRICT_CHECK_def to_state_def assert_parser_def callback_macros
      message_complete_def sim_notify sim_data split: option.split sum.split)

lemma sim_header_values:
  assumes "twin k a b" "quiet st"
  shows "sim k (step_header_value_start st d ch a) (step_header_value_start st d' ch b)"
    "sim k (step_header_value st d ch a) (step_header_value st d' ch b)"
  using assms unfolding quiet_def
  by (simp_all add: twin_def step_defs Let_def to_state_def callback_macros sim_notify sim_data sim_value_chars)

lemma sim_headers_complete:
  assumes "twin k a b" "quiet_cb (on_headers_complete st)"
  shows "sim k (headers_complete st a) (headers_complete st b)"
proof (cases "on_headers_complete st")
  case None
  then show ?thesis using assms(1) by (simp add: headers_complete_def twin_def)
next
  case (Some f)
  obtain s s' where "f (prs a) (app a) = Inr (0, False, s)" "f (prs a) (app b) = Inr (0, False, s')"
    using assms(2) Some by (metis quiet_cb_def)
  then show ?thesis using assms(1) Some by (simp add: headers_complete_def twin_def Let_def)
qed

lemma sim_headers_done:
  assumes "twin k a b" "quiet st"
  shows "sim k (step_headers_almost_done st ch a) (step_headers_almost_done st ch b)"
    "sim k (step_headers_done st ch a) (step_headers_done st ch b)"
  using assms unfolding quiet_def
  by (simp_all add: twin_def step_defs Let_def goto_error_def STRICT_CHECK_def to_state_def callback_macros message_complete_def
      sim_notify sim_headers_complete)

section \<open>Bodies\<close>

definition bulk :: "state set" where
  "bulk = {s_body_identity, s_body_identity_eof, s_chunk_data}"

lemma twin_take_body:
  assumes "twin k a b" "length d' = length d + k" "pos a < length d" "hp_content_length (prs a) \<noteq> 0"
  shows "twin k (take_body d a) (take_body d' b)"
proof -
  have n: "body_to_read d' b = body_to_read d a" using assms(1,2) by (simp add: body_to_read_def twin_def)
  have "0 < unat (hp_content_length (prs a))" using assms(4) by (simp add: unat_gt_0)
  then have "0 < body_to_read d a" using assms(3) by (simp add: body_to_read_def)
  with n assms(1) show ?thesis by (simp add: take_body_def twin_def Let_def)
qed

lemma sim_bulk:
  assumes "twin k a b" "quiet st" "length d' = length d + k" "pos a < length d"
  shows "sim k (step_body_identity st d ch a) (step_body_identity st d' ch b)"
    "sim k (step_body_identity_eof d a) (step_body_identity_eof d' b)" "sim k (step_chunk_data d a) (step_chunk_data d' b)"
proof -
  show "sim k (step_body_identity_eof d a) (step_body_identity_eof d' b)"
    using assms by (simp add: step_body_identity_eof_def twin_def)
  have p: "prs b = prs a" using assms(1) by (simp add: twin_def)
  have t: "twin k (take_body d a) (take_body d' b)" if "hp_content_length (prs a) \<noteq> 0"
    by (rule twin_take_body[OF assms(1,3,4) that])
  then have c: "hp_content_length (prs a) \<noteq> 0 \<Longrightarrow> prs (take_body d' b) = prs (take_body d a)" by (simp add: twin_def)
  show "sim k (step_chunk_data d a) (step_chunk_data d' b)"
    using t c p by (simp add: step_chunk_data_def assert_parser_def Let_def to_state_def twin_def)
  show "sim k (step_body_identity st d ch a) (step_body_identity st d' ch b)"
    using t c p assms(2) unfolding quiet_def
    by (simp add: step_body_identity_def assert_parser_def Let_def to_state_def callback_macros twin_def sim_data)
qed

lemma exec_state_sim:
  assumes "twin k a b" "quiet st" "hp_state (prs a) \<in> bulk \<Longrightarrow> length d' = length d + k \<and> pos a < length d"
  shows "sim k (exec_state st d ch a) (exec_state st d' ch b)"
proof -
  have "prs b = prs a" using assms(1) by (simp add: twin_def)
  then show ?thesis
    using assms(3) unfolding bulk_def
    by (cases "hp_state (prs a)")
      (simp_all add: exec_state_def sim_steps[OF assms(1)] sim_steps_more[OF assms(1)] sim_callbacks[OF assms(1,2)]
        sim_header_values[OF assms(1,2)] sim_headers_done[OF assms(1,2)] sim_bulk[OF assms(1,2)])
qed

lemma Again_not_bulk: "exec_state st d ch ex = Again ex' \<Longrightarrow> hp_state (prs ex') \<notin> bulk"
  by (cases "hp_state (prs ex)")
    (auto simp: exec_state_def bulk_def step_Again_None step_Again_None_callbacks dest: step_Again_target)

lemma run_byte_sim:
  assumes "quiet st"
  shows "twin k a b \<Longrightarrow> (hp_state (prs a) \<in> bulk \<Longrightarrow> length d' = length d + k \<and> pos a < length d) \<Longrightarrow>
    sim k (run_byte st d ch a) (run_byte st d' ch b)"
proof (induction "goto_rank (hp_state (prs a))" arbitrary: a b rule: less_induct)
  case less
  have s: "sim k (exec_state st d ch a) (exec_state st d' ch b)"
    by (rule exec_state_sim[OF less.prems(1) assms less.prems(2)])
  show ?case
  proof (cases "exec_state st d ch a")
    case (Again a')
    then obtain b' where b: "exec_state st d' ch b = Again b'" "twin k a' b'" using s by (cases "exec_state st d' ch b") auto
    from less.hyps[OF exec_state_Again[OF Again] b(2)] Again_not_bulk[OF Again] have "sim k (run_byte st d ch a') (run_byte st d' ch b')" by simp
    then show ?thesis using Again b(1) by (subst (1 2) run_byte.simps) simp
  qed (use s in \<open>subst (1 2) run_byte.simps, cases "exec_state st d' ch b"; simp\<close>)+
qed

section \<open>The loop over the buffer\<close>

lemma sim_refl: "sim 0 r r"
  by (cases r) (simp_all add: twin_def)

lemma sim_trans: "sim 0 q r \<Longrightarrow> sim k r s \<Longrightarrow> sim k q s"
  by (cases q; cases r; cases s) (simp_all add: twin_def)

lemma count_header_sim: "twin k a b \<Longrightarrow> sim k (count_header a) (count_header b)"
  by (simp add: count_header_def twin_def Let_def goto_error_def)

text \<open>One round of the loop, as a function of what the rest of the loop does.\<close>

lemma loop_round_sim:
  assumes "sim k (count_header a) (count_header b)" "pos a < length d" "pos b < length d'"
    and "\<And>a1 b1. count_header a = Next a1 \<Longrightarrow> count_header b = Next b1 \<Longrightarrow> twin k a1 b1 \<Longrightarrow>
      sim k (run_byte st d (d ! pos a1) a1) (run_byte st d' (d' ! pos b1) b1)"
    and "\<And>a1 a2 b2. count_header a = Next a1 \<Longrightarrow> run_byte st d (d ! pos a1) a1 = Next a2 \<Longrightarrow> twin k a2 b2 \<Longrightarrow>
      sim k (exec_loop st d (pos_update Suc a2)) (exec_loop st d' (pos_update Suc b2))"
  shows "sim k (exec_loop st d a) (exec_loop st d' b)"
proof (cases "count_header a")
  case (Next a1)
  then obtain b1 where b1: "count_header b = Next b1" "twin k a1 b1" using assms(1) by (cases "count_header b") auto
  note s = assms(4)[OF Next b1]
  show ?thesis
  proof (cases "run_byte st d (d ! pos a1) a1")
    case a2: (Next a2)
    then obtain b2 where b2: "run_byte st d' (d' ! pos b1) b1 = Next b2" "twin k a2 b2"
      using s by (cases "run_byte st d' (d' ! pos b1) b1") auto
    from assms(5)[OF Next a2 b2(2)] show ?thesis
      using Next a2 b1(1) b2(1) assms(2,3) by (subst (1 2) exec_loop.simps) simp
  qed (use s Next b1(1) assms(2,3) in \<open>subst (1 2) exec_loop.simps, cases "run_byte st d' (d' ! pos b1) b1"; simp\<close>)+
qed (use assms(1-3) in \<open>subst (1 2) exec_loop.simps, cases "count_header b"; simp\<close>)+

lemma exec_loop_sim:
  assumes "quiet st" "length d' = length d + k" "\<And>i. i < length d \<Longrightarrow> d' ! (i + k) = d ! i"
  shows "twin k a b \<Longrightarrow> sim k (exec_loop st d a) (exec_loop st d' b)"
proof (induction "length d - pos a" arbitrary: a b rule: less_induct)
  case less
  note t = twin_simps[OF less.prems]
  show ?case
  proof (cases "length d \<le> pos a")
    case True
    then show ?thesis using t(2) assms(2) less.prems by (subst (1 2) exec_loop.simps) simp
  next
    case False
    show ?thesis
    proof (rule loop_round_sim[OF count_header_sim[OF less.prems]])
      fix a1 b1 assume c: "count_header a = Next a1" "twin k a1 b1"
      have "pos a1 < length d" using count_header_pos[OF c(1)] False by simp
      then have "d' ! pos b1 = d ! pos a1" using assms(3)[of "pos a1"] twin_simps(2)[OF c(2)] by simp
      then show "sim k (run_byte st d (d ! pos a1) a1) (run_byte st d' (d' ! pos b1) b1)"
        using run_byte_sim[OF assms(1) c(2), of d' d] assms(2) \<open>pos a1 < length d\<close> by simp
    next
      fix a1 a2 b2 assume c: "count_header a = Next a1" "run_byte st d (d ! pos a1) a1 = Next a2" "twin k a2 b2"
      have "pos a \<le> pos a2" using run_byte_Next(1)[OF c(2)] count_header_pos[OF c(1)] False by simp
      then show "sim k (exec_loop st d (pos_update Suc a2)) (exec_loop st d' (pos_update Suc b2))"
        using less.hyps[of "pos_update Suc a2" "pos_update Suc b2"] c(3) False by (simp add: twin_def)
    qed (use False t(2) assms(2) in simp_all)
  qed
qed

section \<open>A body in two parts\<close>

lemma run_body_identity:
  assumes "hp_state (prs ex) = s_body_identity"
  shows "run_byte st d ch ex =
    assert_parser (hp_content_length (prs ex) \<noteq> 0 \<and> hp_content_length (prs ex) \<noteq> ULLONG_MAX)
       (let ex = take_body d ex
        in if hp_content_length (prs ex) = 0
           then (case CALLBACK_body st d (pos ex + 1) (pos ex) (to_state s_message_done ex) Again of
                   Again x \<Rightarrow> step_message_done st x | r \<Rightarrow> r)
           else Next ex)"
proof -
  have "run_byte st d ch x = step_message_done st x" if "hp_state (prs x) = s_message_done" for x
    using that by (subst run_byte.simps) (auto simp: exec_state_def step_Again_None_callbacks split: ctl.split)
  moreover have "hp_state (prs x) = s_message_done" if "step_body_identity st d ch ex = Again x" for x
    using step_Again_target(6)[OF that] .
  ultimately show ?thesis
    using assms by (subst run_byte.simps) (auto simp: exec_state_def step_body_identity_def assert_parser_def Let_def split: ctl.split)
qed

lemma run_body_eof:
  "hp_state (prs ex) = s_body_identity_eof \<Longrightarrow> run_byte st d ch ex = step_body_identity_eof d ex"
  by (subst run_byte.simps) (simp add: exec_state_def step_body_identity_eof_def)

lemma run_chunk_data:
  "hp_state (prs ex) = s_chunk_data \<Longrightarrow> run_byte st d ch ex = step_chunk_data d ex"
  by (subst run_byte.simps) (auto simp: exec_state_def step_Again_None split: ctl.split)

text \<open>The bytes \<^theory_text>\<open>u\<close> end inside the body: what is left to read, and that reading it later is the same.\<close>

lemma take_body_short:
  assumes "length u - pos a < unat (hp_content_length (prs a))" "pos a < length u" "hp_content_length (prs a) \<noteq> ULLONG_MAX"
  shows "unat (hp_content_length (prs (take_body u a))) = unat (hp_content_length (prs a)) - (length u - pos a)"
    and "Suc (pos (take_body u a)) = length u" "hp_content_length (prs (take_body u a)) \<noteq> 0"
    and "hp_content_length (prs (take_body u a)) \<noteq> ULLONG_MAX"
proof -
  let ?c = "hp_content_length (prs a)" and ?r = "length u - pos a"
  have n: "body_to_read u a = ?r" using assms(1) by (simp add: body_to_read_def)
  have "unat ?c < 2 ^ 64" using unsigned_less[of ?c, where ?'a = nat] by simp
  then show c: "unat (hp_content_length (prs (take_body u a))) = unat ?c - ?r"
    using n assms(1) by (simp add: take_body_def Let_def unat_sub word_le_nat_alt unat_of_nat)
  show "Suc (pos (take_body u a)) = length u" using n assms(2) by (simp add: take_body_def Let_def)
  show "hp_content_length (prs (take_body u a)) \<noteq> 0" using c assms(1) by (metis unsigned_0 zero_less_diff less_numeral_extra(3))
  have "?c \<noteq> 0" using assms(1) by auto
  then show "hp_content_length (prs (take_body u a)) \<noteq> ULLONG_MAX" by (rule take_body_length[OF _ assms(3)])
qed

lemma take_body_fits:
  assumes "twin 0 a b" "unat (hp_content_length (prs a)) \<le> length u - pos a"
  shows "twin 0 (take_body u a) (take_body (u @ v) b)"
proof -
  have "body_to_read (u @ v) b = body_to_read u a" using assms by (simp add: body_to_read_def twin_def)
  then show ?thesis using assms(1) by (simp add: take_body_def twin_def Let_def)
qed

lemma take_body_twice:
  assumes "twin 0 a b" "length u - pos a < unat (hp_content_length (prs a))" "pos a < length u"
    and "hp_content_length (prs a) \<noteq> ULLONG_MAX" "v \<noteq> []" "prs x = prs (take_body u a)" "pos x = length u"
  shows "twin 0 (take_body (u @ v) x) (take_body (u @ v) b)"
proof -
  let ?c = "hp_content_length (prs a)" and ?r = "length u - pos a"
  note short = take_body_short[OF assms(2-4)]
  have n: "body_to_read u a = ?r" using assms(2) by (simp add: body_to_read_def)
  have b: "prs b = prs a" "pos b = pos a" using assms(1) by (simp_all add: twin_def)
  define m where "m = body_to_read (u @ v) x"
  have m: "m = min (unat ?c - ?r) (length v)" using short(1) assms(6,7) by (simp add: m_def body_to_read_def)
  then have "0 < m" using assms(2,5) by simp
  have "body_to_read (u @ v) b = min (unat ?c) (?r + length v)" using b assms(3) by (simp add: body_to_read_def)
  then have w: "body_to_read (u @ v) b = ?r + m" using m assms(2) by (simp add: min_add_distrib_right add.commute)
  have p: "prs x = (prs a)\<lparr>hp_content_length := ?c - of_nat ?r\<rparr>" using assms(6) n by (simp add: take_body_def Let_def)
  have "prs (take_body (u @ v) x) = prs (take_body (u @ v) b)"
    unfolding take_body_def Let_def w m_def[symmetric] using p b by (simp add: algebra_simps)
  moreover have "pos (take_body (u @ v) x) = pos (take_body (u @ v) b)"
    unfolding take_body_def Let_def w m_def[symmetric] using b assms(3,7) \<open>0 < m\<close> by simp
  ultimately show ?thesis by (simp add: twin_def)
qed

definition resumes :: "'s http_parser_settings \<Rightarrow> bytes \<Rightarrow> bytes \<Rightarrow> 's ctl \<Rightarrow> 's ctl \<Rightarrow> bool" where
  "resumes st u v r w \<longleftrightarrow> (\<exists>a2. r = Next a2 \<and> Suc (pos a2) = length u \<and> hp_state (prs a2) \<in> bulk \<and>
     (\<forall>c x. prs x = prs a2 \<longrightarrow> pos x = length u \<longrightarrow> sim 0 (run_byte st (u @ v) c x) w))"

text \<open>The two states that take a part of a counted body, with what they do at its end as \<^theory_text>\<open>K\<close>.\<close>

definition taking :: "(6 word \<Rightarrow> bool) \<Rightarrow> (bytes \<Rightarrow> 's exec \<Rightarrow> 's ctl) \<Rightarrow> bytes \<Rightarrow> 's exec \<Rightarrow> 's ctl" where
  "taking G K d ex =
     assert_parser (G (hp_flags (prs ex)))
       (assert_parser (hp_content_length (prs ex) \<noteq> 0 \<and> hp_content_length (prs ex) \<noteq> ULLONG_MAX)
         (let ex = take_body d ex in if hp_content_length (prs ex) = 0 then K d ex else Next ex))"

lemma take_split:
  assumes "twin 0 a b" "hp_state (prs a) \<in> bulk" "pos a < length u" "v \<noteq> []"
    and run: "\<And>d ch ex. hp_state (prs ex) = hp_state (prs a) \<Longrightarrow> run_byte st d ch ex = taking G K d ex"
    and K: "\<And>d d' x y. twin 0 x y \<Longrightarrow> sim 0 (K d x) (K d' y)"
  shows "sim 0 (run_byte st u ch a) (run_byte st (u @ v) ch b) \<or> resumes st u v (run_byte st u ch a) (run_byte st (u @ v) ch b)"
proof -
  let ?c = "hp_content_length (prs a)"
  have b: "prs b = prs a" "pos b = pos a" using assms(1) by (simp_all add: twin_def)
  have runs: "run_byte st u ch a = taking G K u a" "run_byte st (u @ v) ch b = taking G K (u @ v) b"
    using run b(1) by simp_all
  show ?thesis
  proof (cases "unat ?c \<le> length u - pos a \<or> ?c = 0 \<or> ?c = ULLONG_MAX \<or> \<not> G (hp_flags (prs a))")
    case True
    then have "sim 0 (taking G K u a) (taking G K (u @ v) b)"
      using take_body_fits[OF assms(1), of u v] b(1) K[of "take_body u a" "take_body (u @ v) b" u "u @ v"]
      by (auto simp: taking_def assert_parser_def Let_def twin_def)
    then show ?thesis unfolding runs ..
  next
    case False
    then have "length u - pos a < unat ?c" "?c \<noteq> ULLONG_MAX" "?c \<noteq> 0" "G (hp_flags (prs a))" by auto
    note short = take_body_short[OF this(1) assms(3) this(2)] and twice = take_body_twice[OF assms(1) this(1) assms(3) this(2) assms(4)]
    have "sim 0 (run_byte st (u @ v) c x) (taking G K (u @ v) b)" if "prs x = prs (take_body u a)" "pos x = length u" for c x
    proof -
      have "run_byte st (u @ v) c x = taking G K (u @ v) x" using run that(1) by simp
      then show ?thesis
        using twice[OF that] short(3,4) that False b(1) K[of "take_body (u @ v) x" "take_body (u @ v) b" "u @ v" "u @ v"]
        by (auto simp: taking_def assert_parser_def Let_def twin_def)
    qed
    moreover have "taking G K u a = Next (take_body u a)"
      using False short(3) by (simp add: taking_def assert_parser_def Let_def)
    ultimately have "resumes st u v (taking G K u a) (taking G K (u @ v) b)"
      using short(2) assms(2) by (simp add: resumes_def)
    then show ?thesis unfolding runs ..
  qed
qed

lemma bulk_split:
  assumes "twin 0 a b" "quiet st" "hp_state (prs a) \<in> bulk" "pos a < length u" "v \<noteq> []"
  shows "sim 0 (run_byte st u ch a) (run_byte st (u @ v) ch b) \<or> resumes st u v (run_byte st u ch a) (run_byte st (u @ v) ch b)"
proof -
  have b: "prs b = prs a" "pos b = pos a" using assms(1) by (simp_all add: twin_def)
  let ?K = "\<lambda>d x. case CALLBACK_body st d (pos x + 1) (pos x) (to_state s_message_done x) Again of
      Again y \<Rightarrow> step_message_done st y | r \<Rightarrow> r"
  have K: "sim 0 (?K d x) (?K d' y)" if "twin 0 x y" for d d' x y
  proof -
    let ?l = "CALLBACK_body st d (pos x + 1) (pos x) (to_state s_message_done x) Again"
    let ?r = "CALLBACK_body st d' (pos y + 1) (pos y) (to_state s_message_done y) Again"
    have "quiet_data_cb (on_body st)" using assms(2) by (simp add: quiet_def)
    then have "sim 0 ?l ?r" using that by (simp add: callback_macros twin_def to_state_def sim_data)
    then show ?thesis using sim_callbacks(7)[OF _ assms(2)] by (cases ?l; cases ?r) auto
  qed
  consider "hp_state (prs a) = s_body_identity_eof" | "hp_state (prs a) = s_body_identity" | "hp_state (prs a) = s_chunk_data"
    using assms(3) by (auto simp: bulk_def)
  then show ?thesis
  proof cases
    case 1
    then have "resumes st u v (run_byte st u ch a) (run_byte st (u @ v) ch b)"
      using b assms(4) by (auto simp: resumes_def run_body_eof step_body_identity_eof_def bulk_def twin_def)
    then show ?thesis ..
  next
    case 2
    show ?thesis
      by (rule take_split[OF assms(1,3,4,5), where G = "\<lambda>f. True" and K = ?K])
        (use 2 K in \<open>simp_all add: run_body_identity taking_def assert_parser_def Let_def\<close>)
  next
    case 3
    show ?thesis
      by (rule take_split[OF assms(1,3,4,5), where G = "\<lambda>f. f AND F_CHUNKED \<noteq> 0" and K = "\<lambda>d x. Next (to_state s_chunk_data_almost_done x)"])
        (use 3 in \<open>simp_all add: run_chunk_data taking_def step_chunk_data_def has_flag_def twin_def to_state_def Let_def\<close>)
  qed
qed

definition go_on :: "'s http_parser_settings \<Rightarrow> bytes \<Rightarrow> 's ctl \<Rightarrow> 's ctl" where
  "go_on st d r = (case r of Next ex \<Rightarrow> exec_loop st d (pos_update Suc ex) | r \<Rightarrow> r)"

lemma exec_loop_round:
  "pos ex < length d \<Longrightarrow> count_header ex = Next ex1 \<Longrightarrow> exec_loop st d ex = go_on st d (run_byte st d (d ! pos ex1) ex1)"
  by (subst exec_loop.simps) (simp add: go_on_def)

lemma go_on_sim:
  assumes "quiet st" "sim 0 q r"
  shows "sim 0 (go_on st d q) (go_on st d r)"
proof -
  have "sim 0 (exec_loop st d (pos_update Suc x)) (exec_loop st d (pos_update Suc y))" if "twin 0 x y" for x y
    by (rule exec_loop_sim[OF assms(1)]) (use that in \<open>simp_all add: twin_def\<close>)
  then show ?thesis using assms(2) by (cases q; cases r) (auto simp: go_on_def)
qed

lemma bulk_not_header: "s \<in> bulk \<Longrightarrow> \<not> PARSING_HEADER s"
  by (auto simp: bulk_def)

lemma exec_loop_split:
  assumes "quiet st" "v \<noteq> []"
  shows "twin 0 a b \<Longrightarrow> pos a \<le> length u \<Longrightarrow>
    (case exec_loop st u a of
       Next a' \<Rightarrow> pos a' = length u \<and> (\<forall>x. prs x = prs a' \<longrightarrow> pos x = length u \<longrightarrow> sim 0 (exec_loop st (u @ v) x) (exec_loop st (u @ v) b))
     | r \<Rightarrow> sim 0 r (exec_loop st (u @ v) b))"
proof (induction "length u - pos a" arbitrary: a b rule: less_induct)
  case less
  note t = twin_simps[OF less.prems(1)]
  show ?case
  proof (cases "pos a = length u")
    case True
    have "sim 0 (exec_loop st (u @ v) x) (exec_loop st (u @ v) b)" if "prs x = prs a" "pos x = length u" for x
      by (rule exec_loop_sim[OF assms(1)]) (use that t True in \<open>simp_all add: twin_def\<close>)
    then show ?thesis using True by (simp add: exec_loop.simps[of st u a])
  next
    case False
    then have p: "pos a < length u" "pos b < length (u @ v)" using less.prems(2) t(2) by simp_all
    have h: "sim 0 (count_header a) (count_header b)" by (rule count_header_sim[OF less.prems(1)])
    show ?thesis
    proof (cases "count_header a")
      case (Next a1)
      then obtain b1 where b1: "count_header b = Next b1" "twin 0 a1 b1" using h by (cases "count_header b") auto
      have p1: "pos a1 = pos a" "pos b1 = pos a" using count_header_pos[OF Next] count_header_pos[OF b1(1)] t(2) by simp_all
      let ?ch = "u ! pos a"
      let ?r = "run_byte st u ?ch a1" and ?w = "run_byte st (u @ v) ?ch b1"
      have u: "exec_loop st u a = go_on st u ?r" using exec_loop_round[OF p(1) Next] p1 by simp
      have w: "exec_loop st (u @ v) b = go_on st (u @ v) ?w" using exec_loop_round[OF p(2) b1(1)] p1 p(1) by (simp add: nth_append)
      have alike: ?thesis if s: "sim 0 ?r ?w"
      proof (cases ?r)
        case a2: (Next a2)
        then obtain b2 where b2: "?w = Next b2" "twin 0 a2 b2" using s by (cases ?w) auto
        have q: "pos a \<le> pos a2" "pos a2 < length u" using run_byte_Next[OF a2] p1 p(1) by simp_all
        have tw: "twin 0 (pos_update Suc a2) (pos_update Suc b2)" using b2(2) by (simp add: twin_def)
        have le: "length u - pos (pos_update Suc a2) < length u - pos a" "pos (pos_update Suc a2) \<le> length u" using q p(1) by simp_all
        have eqs: "exec_loop st u a = exec_loop st u (pos_update Suc a2)" "exec_loop st (u @ v) b = exec_loop st (u @ v) (pos_update Suc b2)"
          unfolding u w by (simp_all add: go_on_def a2 b2(1))
        from less.hyps[OF le(1) tw le(2)] show ?thesis unfolding eqs .
      qed (use s in \<open>unfold u w, cases ?w; simp add: go_on_def\<close>)+
      show ?thesis
      proof (cases "hp_state (prs a1) \<in> bulk")
        case False
        then show ?thesis using alike run_byte_sim[OF assms(1) b1(2), of "u @ v" u ?ch] by simp
      next
        case True
        have "pos a1 < length u" using p1 p(1) by simp
        from bulk_split[OF b1(2) assms(1) True this assms(2), of ?ch] show ?thesis
        proof (elim disjE)
          assume "resumes st u v ?r ?w"
          then obtain a2 where a2: "?r = Next a2" "Suc (pos a2) = length u" "hp_state (prs a2) \<in> bulk"
            "\<And>c x. prs x = prs a2 \<Longrightarrow> pos x = length u \<Longrightarrow> sim 0 (run_byte st (u @ v) c x) ?w"
            unfolding resumes_def by blast
          have "sim 0 (exec_loop st (u @ v) x) (exec_loop st (u @ v) b)" if x: "prs x = prs a2" "pos x = length u" for x
          proof -
            have "count_header x = Next x" using x(1) bulk_not_header[OF a2(3)] by (simp add: count_header_def)
            then have "exec_loop st (u @ v) x = go_on st (u @ v) (run_byte st (u @ v) ((u @ v) ! pos x) x)"
              using x(2) assms(2) by (intro exec_loop_round) simp_all
            then show ?thesis unfolding w using go_on_sim[OF assms(1) a2(4)[OF x]] by simp
          qed
          then show ?thesis unfolding u using a2(1,2) by (simp add: go_on_def exec_loop.simps[of st u "pos_update Suc a2"])
        qed (use alike in simp_all)
      qed
    qed (use h p in \<open>simp add: exec_loop.simps[of st u a] exec_loop.simps[of st "u @ v" b], cases "count_header b"; simp\<close>)+
  qed
qed

section \<open>Two calls and one\<close>

lemma quiet_contract: "quiet st \<Longrightarrow> callback_contract st (\<lambda>s. True) (\<lambda>f. False) n"
proof
  fix f :: "'a http_cb" and s p assume "quiet st" "Some f \<in> notify_callbacks st"
  then obtain s' where "f p s = Inr (0, False, s')" unfolding quiet_def quiet_cb_def notify_callbacks_def by fastforce
  then show "callback_ok (\<lambda>s. True) (\<lambda>f. False) (f p s)" by (simp add: callback_ok_def)
next
  fix g :: "'a http_data_cb" and s d p assume "quiet st" "Some g \<in> data_callbacks st"
  then obtain s' where "g p d s = Inr (0, False, s')" unfolding quiet_def quiet_data_cb_def data_callbacks_def by fastforce
  then show "callback_ok (\<lambda>s. True) (\<lambda>f. False) (g p d s)" by (simp add: callback_ok_def)
qed

text \<open>What is left over at the end of a buffer goes to the callbacks, and the parser stays as it is.\<close>

lemma data_quiet:
  assumes "quiet_data_cb cb" "hp_errno (prs ex) = HPE_OK" "\<And>x. prs (clear x) = prs x"
  shows "\<exists>x. prs x = prs ex \<and> callback_data cb err m clear d e er ex K = K x"
proof (cases "m = None \<or> cb = None")
  case True
  then show ?thesis using assms(2,3) by (auto simp: callback_data_def assert_parser_def split: option.split)
next
  case False
  then obtain q f where q: "m = Some q" "cb = Some f" by auto
  obtain s where "f (prs ex) (slice q (e - q) d) (app ex) = Inr (0, False, s)" using assms(1) q by (metis quiet_data_cb_def)
  then show ?thesis using q assms(2,3)
    by (intro exI[of _ "clear (ex\<lparr>app := s\<rparr>)"]) (simp add: callback_data_def assert_parser_def run_callback_quiet)
qed

lemma finish_quiet:
  assumes "quiet st" "exec_ok 0 ex"
  shows "\<exists>x. finish st d ex = Return (length d) x \<and> prs x = prs ex"
proof -
  have e: "hp_errno (prs ex) = HPE_OK" and "count_marks ex \<le> 1"
    using assms(2) callback_contract.marks_exclusive[OF quiet_contract[OF assms(1)]] by (auto simp: exec_ok_def)
  have q: "quiet_data_cb (on_header_field st)" "quiet_data_cb (on_header_value st)" "quiet_data_cb (on_url st)" "quiet_data_cb (on_body st)"
    using assms(1) by (simp_all add: quiet_def)
  note macro = CALLBACK_header_field_def CALLBACK_header_value_def CALLBACK_url_def CALLBACK_body_def
  have f: "\<exists>x. prs x = prs y \<and> CALLBACK_header_field st d (pos y) (pos y) y K = K x" if "hp_errno (prs y) = HPE_OK" for y K
    unfolding macro by (rule data_quiet[OF q(1) that]) simp
  have v: "\<exists>x. prs x = prs y \<and> CALLBACK_header_value st d (pos y) (pos y) y K = K x" if "hp_errno (prs y) = HPE_OK" for y K
    unfolding macro by (rule data_quiet[OF q(2) that]) simp
  have u: "\<exists>x. prs x = prs y \<and> CALLBACK_url st d (pos y) (pos y) y K = K x" if "hp_errno (prs y) = HPE_OK" for y K
    unfolding macro by (rule data_quiet[OF q(3) that]) simp
  have b: "\<exists>x. prs x = prs y \<and> CALLBACK_body st d (pos y) (pos y) y K = K x" if "hp_errno (prs y) = HPE_OK" for y K
    unfolding macro by (rule data_quiet[OF q(4) that]) simp
  define K3 where "K3 = (\<lambda>x. CALLBACK_body st d (pos x) (pos x) x (\<lambda>x. Return (length d) x))"
  define K2 where "K2 = (\<lambda>x. CALLBACK_url st d (pos x) (pos x) x K3)"
  define K1 where "K1 = (\<lambda>x. CALLBACK_header_value st d (pos x) (pos x) x K2)"
  obtain y1 where 1: "prs y1 = prs ex" "CALLBACK_header_field st d (pos ex) (pos ex) ex K1 = K1 y1" using f[OF e, of K1] by blast
  obtain y2 where 2: "prs y2 = prs ex" "K1 y1 = K2 y2" unfolding K1_def using v[of y1 K2] e 1(1) by auto
  obtain y3 where 3: "prs y3 = prs ex" "K2 y2 = K3 y3" unfolding K2_def using u[of y2 K3] e 2(1) by auto
  obtain y4 where 4: "prs y4 = prs ex" "K3 y3 = Return (length d) y4" unfolding K3_def using b[of y3 "\<lambda>x. Return (length d) x"] e 3(1) by auto
  have "finish st d ex = CALLBACK_header_field st d (pos ex) (pos ex) ex K1"
    using \<open>count_marks ex \<le> 1\<close> by (simp add: finish_def assert_parser_def K1_def K2_def K3_def)
  then show ?thesis using 1(2) 2(2) 3(2) 4 by simp
qed

text \<open>With quiet callbacks a call only stops early, without an error, at the end of an upgrade request.\<close>

fun stops_at_upgrade :: "'s ctl \<Rightarrow> bool" where
  "stops_at_upgrade (Return n ex) = hp_upgrade (prs ex)"
| "stops_at_upgrade _ = True"

lemma stops_goto_error [simp]: "stops_at_upgrade (goto_error e ex)"
  by (simp add: goto_error_def)

lemma stops_notify:
  assumes "quiet_cb cb" "\<And>s. stops_at_upgrade (K (a\<lparr>app := s\<rparr>))"
  shows "stops_at_upgrade (callback_notify cb err er a K)"
proof (cases cb)
  case None
  then show ?thesis using assms(2)[of "app a"] by (simp add: callback_notify_def assert_parser_def)
next
  case (Some f)
  obtain s where "f (prs a) (app a) = Inr (0, False, s)" using assms(1) Some by (metis quiet_cb_def)
  then show ?thesis using Some assms(2)[of s] by (simp add: callback_notify_def assert_parser_def run_callback_quiet)
qed

lemma stops_data:
  assumes "quiet_data_cb cb" "\<And>x. prs (clear x) = prs x" "\<And>x. prs x = prs a \<Longrightarrow> stops_at_upgrade (K x)"
  shows "stops_at_upgrade (callback_data cb err m clear d e er a K)"
proof (cases "hp_errno (prs a) = HPE_OK")
  case True
  then show ?thesis using data_quiet[OF assms(1) True, of clear err m d e er K] assms(2,3) by fastforce
qed (simp add: callback_data_def assert_parser_def)

lemma stops_headers_complete:
  assumes "quiet_cb (on_headers_complete st)" "hp_errno (prs ex) = HPE_OK"
  shows "stops_at_upgrade (headers_complete st ex)"
proof (cases "on_headers_complete st")
  case None
  then show ?thesis using assms(2) by (simp add: headers_complete_def)
next
  case (Some f)
  obtain s where "f (prs ex) (app ex) = Inr (0, False, s)" using assms(1) Some by (metis quiet_cb_def)
  then show ?thesis using Some assms(2) by (simp add: headers_complete_def Let_def)
qed

lemma step_stops_plain:
  "stops_at_upgrade (step_dead ch a)" "stops_at_upgrade (step_res_or_resp_H ch a)" "stops_at_upgrade (step_letter c s ch a)"
  "stops_at_upgrade (step_res_first_http_major ch a)" "stops_at_upgrade (step_http_major s ch a)"
  "stops_at_upgrade (step_first_http_minor s ch a)" "stops_at_upgrade (step_res_http_minor ch a)"
  "stops_at_upgrade (step_res_first_status_code ch a)" "stops_at_upgrade (step_res_status_code ch a)"
  "stops_at_upgrade (step_res_status ch a)" "stops_at_upgrade (step_req_spaces_before_url ch a)"
  "stops_at_upgrade (step_req_schema ch a)" "stops_at_upgrade (step_req_http_start ch a)"
  "stops_at_upgrade (step_req_first_http_major ch a)" "stops_at_upgrade (step_req_http_minor ch a)"
  "stops_at_upgrade (step_req_line_almost_done ch a)" "stops_at_upgrade (step_req_method ch a)"
  "stops_at_upgrade (step_header_almost_done ch a)" "stops_at_upgrade (step_header_field_start ch a)"
  "stops_at_upgrade (step_header_value_lws ch a)" "stops_at_upgrade (step_chunk_size_start ch a)"
  "stops_at_upgrade (step_chunk_size ch a)" "stops_at_upgrade (step_chunk_parameters ch a)"
  "stops_at_upgrade (step_chunk_size_almost_done ch a)" "stops_at_upgrade (step_chunk_data_done ch a)"
  "stops_at_upgrade (step_body_identity_eof d a)" "stops_at_upgrade (step_chunk_data d a)"
  "stops_at_upgrade (value_start_char ch a)" "stops_at_upgrade (value_char ch a)"
  by (simp_all add: step_defs Let_def STRICT_CHECK_def assert_parser_def value_start_char_def value_char_def
      split: option.split sum.split header_states.split)

lemma step_stops_callbacks:
  assumes "quiet st"
  shows "stops_at_upgrade (step_start_req_or_res st ch a)" "stops_at_upgrade (step_start_res st ch a)"
    "stops_at_upgrade (step_res_line_almost_done st ch a)" "stops_at_upgrade (step_start_req st ch a)"
    "stops_at_upgrade (step_req_url st d ch a)" "stops_at_upgrade (step_header_field st d ch a)"
    "stops_at_upgrade (step_message_done st a)" "stops_at_upgrade (step_chunk_data_almost_done st d ch a)"
    "stops_at_upgrade (step_header_value_start st d ch a)" "stops_at_upgrade (step_header_value st d ch a)"
    "stops_at_upgrade (step_body_identity st d ch a)" "stops_at_upgrade (step_headers_done st ch a)"
    "hp_errno (prs a) = HPE_OK \<Longrightarrow> stops_at_upgrade (step_headers_almost_done st ch a)"
  using assms unfolding quiet_def
  by (simp_all add: step_defs Let_def STRICT_CHECK_def assert_parser_def to_state_def callback_macros message_complete_def
      stops_notify stops_data stops_headers_complete step_stops_plain split: option.split sum.split)

lemma exec_state_stops: "quiet st \<Longrightarrow> hp_errno (prs a) = HPE_OK \<Longrightarrow> stops_at_upgrade (exec_state st d ch a)"
  by (cases "hp_state (prs a)") (simp_all add: exec_state_def step_stops_plain step_stops_callbacks)

context callback_contract
begin

lemma run_byte_stops:
  "quiet st \<Longrightarrow> exec_ok 1 ex \<Longrightarrow> I (app ex) \<Longrightarrow> length d \<le> N \<Longrightarrow> stops_at_upgrade (run_byte st d ch ex)"
proof (induction ex rule: measure_induct_rule[where f = "\<lambda>ex. goto_rank (hp_state (prs ex))"])
  case (less ex)
  have "stops_at_upgrade (exec_state st d ch ex)"
    by (rule exec_state_stops) (use less.prems in \<open>simp_all add: exec_ok_def\<close>)
  moreover have "ctl_ok (exec_state st d ch ex)" using exec_state_ok less.prems by blast
  ultimately show ?case
    using less.IH less.prems exec_state_Again[of st d ch ex] by (subst run_byte.simps) (auto split: ctl.split)
qed

lemma exec_loop_stops:
  "quiet st \<Longrightarrow> exec_ok 0 ex \<Longrightarrow> I (app ex) \<Longrightarrow> length d \<le> N \<Longrightarrow> stops_at_upgrade (exec_loop st d ex)"
proof (induction ex rule: measure_induct_rule[where f = "\<lambda>ex. length d - pos ex"])
  case (less ex)
  show ?case
  proof (cases "length d \<le> pos ex")
    case True
    then show ?thesis by (subst exec_loop.simps) simp
  next
    case False
    from count_header_ok[OF less.prems(2)] show ?thesis
    proof (elim disjE exE conjE)
      fix ex1 assume c: "count_header ex = Next ex1" "exec_ok 1 ex1" "app ex1 = app ex"
      let ?r = "run_byte st d (d ! pos ex1) ex1"
      have p: "pos ex1 = pos ex" by (rule count_header_pos[OF c(1)])
      have r: "ctl_ok ?r" "stops_at_upgrade ?r" using run_byte_ok run_byte_stops c less.prems by simp_all
      have "stops_at_upgrade (exec_loop st d (pos_update Suc ex2))" if "?r = Next ex2" for ex2
        using less.IH[of "pos_update Suc ex2"] r(1) that run_byte_Next(1)[OF that] p False less.prems(1,4)
        by (simp add: exec_ok_def marks_ok_def)
      with r(2) c(1) False show ?thesis by (subst exec_loop.simps) (auto split: ctl.split)
    next
      fix ex1 assume "count_header ex = Error ex1"
      with False show ?thesis by (subst exec_loop.simps) simp
    qed
  qed
qed

end

text \<open>What one call gives, as a step of the loop and of its end.\<close>

lemma execute_loop:
  "hp_errno p = HPE_OK \<Longrightarrow> d \<noteq> [] \<Longrightarrow> http_parser_execute st p d s =
     (case exec_loop st d (start_exec p s) of Next ex \<Rightarrow> exec_result (finish st d ex) | r \<Rightarrow> exec_result r)"
  by (simp add: http_parser_execute_def)

lemma quiet_loop:
  assumes "quiet st" "exec_ok 0 ex"
  shows "case exec_loop st d ex of Next ex' \<Rightarrow> exec_ok 0 ex' | Return n ex' \<Rightarrow> hp_upgrade (prs ex') | Error ex' \<Rightarrow> True | _ \<Rightarrow> False"
proof -
  note c = quiet_contract[OF assms(1), of "length d"]
  have "callback_contract.ctl_ok (\<lambda>s. True) (\<lambda>f. False) (exec_loop st d ex)"
    by (rule callback_contract.exec_loop_ok[OF c assms(2)]) simp_all
  moreover have "stops_at_upgrade (exec_loop st d ex)"
    by (rule callback_contract.exec_loop_stops[OF c assms(1,2)]) simp_all
  ultimately show ?thesis
    by (cases "exec_loop st d ex") (simp_all add: callback_contract.ctl_ok.simps[OF c] exec_loop_not_Again)
qed

text \<open>A loop that ran on the whole stream, seen against the call on the second part.\<close>

lemma execute_sim:
  assumes "quiet st" "parser_ok p" "hp_errno p = HPE_OK" "sim k (exec_loop st d (start_exec p s)) (exec_loop st d' ex)"
    and "d \<noteq> []" "length d' = length d + k" "exec_ok 0 ex"
  shows "\<exists>m p' s' t. http_parser_execute st p d s = Inr (m, p', s') \<and>
     (case exec_loop st d' ex of Next ex \<Rightarrow> exec_result (finish st d' ex) | r \<Rightarrow> exec_result r) = Inr (m + k, p', t)"
proof -
  have ok: "exec_ok 0 (start_exec p s)"
    using assms(2,3) by (auto simp: exec_ok_def start_exec_def marks_ok_def parser_ok_def)
  note q = quiet_loop[OF assms(1) ok, of d] quiet_loop[OF assms(1,7), of d']
  show ?thesis
  proof (cases "exec_loop st d (start_exec p s)")
    case (Next a)
    then obtain b where b: "exec_loop st d' ex = Next b" "prs b = prs a" using assms(4) by (cases "exec_loop st d' ex") (auto simp: twin_def)
    obtain x y where "finish st d a = Return (length d) x" "prs x = prs a" "finish st d' b = Return (length d') y" "prs y = prs b"
      using finish_quiet[OF assms(1), of a d] finish_quiet[OF assms(1), of b d'] q Next b(1) by auto
    then show ?thesis using Next b assms(3,5,6) by (simp add: execute_loop)
  next
    case (Return m a)
    then obtain b where "exec_loop st d' ex = Return (m + k) b" "prs b = prs a" using assms(4) by (cases "exec_loop st d' ex") auto
    then show ?thesis using Return assms(3,5) by (simp add: execute_loop)
  next
    case (Error a)
    then obtain b where "exec_loop st d' ex = Error b" "prs b = prs a" "pos b = pos a + k"
      using assms(4) by (cases "exec_loop st d' ex") (auto simp: twin_def)
    then show ?thesis using Error assms(3,5) by (simp add: execute_loop Let_def)
  qed (use q(1) in simp_all)
qed

text \<open>
  The call on the first part consumed it, without an error and without an upgrade: the call on the
  second part then does what a call on both parts does.
\<close>

lemma execute_two_parts:
  assumes "quiet st" "parser_ok p" "a \<noteq> []" "b \<noteq> []"
    and "http_parser_execute st p a s = Inr (n, p', s')" "hp_errno p' = HPE_OK" "\<not> hp_upgrade p'"
  shows "n = length a \<and> (\<exists>m p'' s'' t. http_parser_execute st p' b s' = Inr (m, p'', s'') \<and>
     http_parser_execute st p (a @ b) s = Inr (n + m, p'', t))"
proof -
  have e: "hp_errno p = HPE_OK" using assms(5,6) by (auto simp: http_parser_execute_def split: if_splits)
  have ok: "exec_ok 0 (start_exec p s)"
    using assms(2) e by (auto simp: exec_ok_def start_exec_def marks_ok_def parser_ok_def)
  note q = quiet_loop[OF assms(1) ok, of a]
  have r: "(case exec_loop st a (start_exec p s) of Next ex \<Rightarrow> exec_result (finish st a ex) | r \<Rightarrow> exec_result r) = Inr (n, p', s')"
    using assms(5) execute_loop[OF e assms(3), of st s] by simp
  obtain a' where a': "exec_loop st a (start_exec p s) = Next a'" "exec_ok 0 a'"
    using q r assms(6,7) by (cases "exec_loop st a (start_exec p s)") (auto simp: Let_def split: if_splits)
  obtain x where "finish st a a' = Return (length a) x" "prs x = prs a'" using finish_quiet[OF assms(1) a'(2)] by blast
  then have n: "n = length a" "p' = prs a'" using r a'(1) by simp_all
  have p': "parser_ok p'" using a'(2) n(2) by (simp add: exec_ok_def parser_ok_def)
  let ?x = "(start_exec p' s')\<lparr>pos := length a\<rparr>"
  have "twin 0 (start_exec p s) (start_exec p s)" "pos (start_exec p s) \<le> length a" by (simp_all add: twin_def start_exec_def)
  from exec_loop_split[OF assms(1,4) this] a'(1) n(2)
  have w: "sim 0 (exec_loop st (a @ b) ?x) (exec_loop st (a @ b) (start_exec p s))" by (simp add: start_exec_def)
  have "sim (length a) (exec_loop st b (start_exec p' s')) (exec_loop st (a @ b) ?x)"
    by (rule exec_loop_sim[OF assms(1)]) (simp_all add: twin_def start_exec_def nth_append)
  with w have "sim (length a) (exec_loop st b (start_exec p' s')) (exec_loop st (a @ b) (start_exec p s))"
    by (cases "exec_loop st b (start_exec p' s')"; cases "exec_loop st (a @ b) ?x"; cases "exec_loop st (a @ b) (start_exec p s)")
      (simp_all add: twin_def)
  from execute_sim[OF assms(1) p' assms(6) this assms(4) _ ok] n(1) show ?thesis
    using execute_loop[OF e, of "a @ b" st s] assms(4) by (auto simp: add.commute)
qed

end
