(* ===== verification/Http_Response.thy ===== *)
theory Http_Response
  imports Http_Split
begin

text \<open>
  The head of a message, read by a client that is only interested in the body. While the parser
  reads a head, the only callback of such a client is not called and neither the client's state
  nor the rest of the buffer matters: \<^theory_text>\<open>header_parse\<close> is the parser on the bytes of a head, and the
  calls of \<^verbatim>\<open>http_parser_execute\<close> on any pieces of it follow it.
\<close>

section \<open>Only a body callback\<close>

definition no_callbacks :: "'s http_parser_settings" where
  "no_callbacks = \<lparr>on_message_begin = None, on_url = None, on_status_complete = None, on_header_field = None,
     on_header_value = None, on_headers_complete = None, on_body = None, on_message_complete = None\<rparr>"

lemma no_callbacks_quiet: "quiet no_callbacks"
  by (simp add: quiet_def quiet_cb_def quiet_data_cb_def no_callbacks_def)

lemma no_callbacks_simps [simp]:
  "on_message_begin no_callbacks = None" "on_url no_callbacks = None" "on_status_complete no_callbacks = None"
  "on_header_field no_callbacks = None" "on_header_value no_callbacks = None" "on_headers_complete no_callbacks = None"
  "on_body no_callbacks = None" "on_message_complete no_callbacks = None"
  by (simp_all add: no_callbacks_def)

definition body_only :: "'s http_data_cb option \<Rightarrow> 's http_parser_settings" where
  "body_only cb = no_callbacks\<lparr>on_body := cb\<rparr>"

lemma body_only_simps [simp]:
  "on_message_begin (body_only cb) = None" "on_url (body_only cb) = None" "on_status_complete (body_only cb) = None"
  "on_header_field (body_only cb) = None" "on_header_value (body_only cb) = None" "on_headers_complete (body_only cb) = None"
  "on_body (body_only cb) = cb" "on_message_complete (body_only cb) = None"
  by (simp_all add: body_only_def)

text \<open>What a state of the head leaves alone.\<close>

fun undisturbed :: "'s exec \<Rightarrow> 's ctl \<Rightarrow> bool" where
  "undisturbed ex (Next e) = (app e = app ex \<and> body_mark e = body_mark ex \<and> pos e = pos ex \<and> hp_data (prs e) = hp_data (prs ex))"
| "undisturbed ex (Again e) = (app e = app ex \<and> body_mark e = body_mark ex \<and> pos e = pos ex \<and> hp_data (prs e) = hp_data (prs ex))"
| "undisturbed ex r = True"

lemma undisturbed_assert [simp]: "undisturbed ex (assert_parser b r) = (b \<longrightarrow> undisturbed ex r)"
  by (simp add: assert_parser_def)

lemma undisturbed_error [simp]: "undisturbed ex (goto_error e x)"
  by (simp add: goto_error_def)

lemma callback_notify_None: "callback_notify None err er ex K = assert_parser (hp_errno (prs ex) = HPE_OK) (K ex)"
  by (simp add: callback_notify_def assert_parser_def)

lemma callback_data_None:
  "callback_data None err m clear d e er ex K =
     assert_parser (hp_errno (prs ex) = HPE_OK) (K (if m = None then ex else clear ex))"
  by (simp add: callback_data_def split: option.split)

text \<open>None of these looks at the client or at the buffer.\<close>

lemma plain_macros:
  "CALLBACK_message_begin (body_only cb) = CALLBACK_message_begin no_callbacks"
  "CALLBACK_status_complete (body_only cb) = CALLBACK_status_complete no_callbacks"
  "CALLBACK_message_complete (body_only cb) = CALLBACK_message_complete no_callbacks"
  "CALLBACK_url (body_only cb) d = CALLBACK_url no_callbacks []"
  "CALLBACK_header_field (body_only cb) d = CALLBACK_header_field no_callbacks []"
  "CALLBACK_header_value (body_only cb) d = CALLBACK_header_value no_callbacks []"
  "headers_complete (body_only cb) = headers_complete no_callbacks"
  by (auto simp: callback_macros callback_data_None headers_complete_def fun_eq_iff)

lemma plain_message_complete: "message_complete (body_only cb) = message_complete no_callbacks"
  by (simp add: message_complete_def plain_macros fun_eq_iff)

lemma exec_state_head:
  assumes "PARSING_HEADER (hp_state (prs ex))"
  shows "exec_state (body_only cb) d ch ex = exec_state no_callbacks [] ch ex"
proof -
  note callers = step_start_req_or_res_def step_start_res_def step_res_line_almost_done_def step_start_req_def
    step_req_url_def step_header_field_def step_header_value_start_def step_header_value_def step_headers_almost_done_def
    step_headers_done_def
  show ?thesis
    using assms
    by (cases "hp_state (prs ex)")
      (simp_all add: exec_state_def callers plain_macros plain_message_complete Let_def split: option.split)
qed

lemma undisturbed_step:
  "undisturbed ex (step_dead ch ex)" "undisturbed ex (step_res_or_resp_H ch ex)"
  "undisturbed ex (step_letter c s ch ex)" "undisturbed ex (step_res_first_http_major ch ex)"
  "undisturbed ex (step_http_major s ch ex)" "undisturbed ex (step_first_http_minor s ch ex)"
  "undisturbed ex (step_res_http_minor ch ex)" "undisturbed ex (step_res_first_status_code ch ex)"
  "undisturbed ex (step_res_status_code ch ex)" "undisturbed ex (step_res_status ch ex)"
  "undisturbed ex (step_req_method ch ex)" "undisturbed ex (step_req_spaces_before_url ch ex)"
  "undisturbed ex (step_req_schema ch ex)" "undisturbed ex (step_req_http_start ch ex)"
  "undisturbed ex (step_req_first_http_major ch ex)" "undisturbed ex (step_req_http_minor ch ex)"
  "undisturbed ex (step_req_line_almost_done ch ex)" "undisturbed ex (step_header_almost_done ch ex)"
  "undisturbed ex (step_header_field_start ch ex)" "undisturbed ex (step_header_value_lws ch ex)"
  "undisturbed ex (step_chunk_size_start ch ex)" "undisturbed ex (step_chunk_size ch ex)"
  "undisturbed ex (step_chunk_parameters ch ex)" "undisturbed ex (step_chunk_size_almost_done ch ex)"
  by (simp_all add: step_defs Let_def to_state_def reset_message_def set_flag_def split: ctl_splits header_states.splits)

lemma match_data [simp]:
  "hp_data (match_next S f c p) = hp_data p" "hp_data (match_letter e n c p) = hp_data p" "hp_data (set_flag b p) = hp_data p"
  by (simp_all add: match_next_def match_letter_def set_flag_def Let_def)

lemma field_char_data: "field_char ch c p = Inr p' \<Longrightarrow> hp_data p' = hp_data p"
  by (auto simp: field_char_def split: header_states.splits)

lemma undisturbed_update:
  "hp_data (f (prs ex)) = hp_data (prs ex) \<Longrightarrow> undisturbed ex (Next (prs_update f ex))"
  by simp

lemma undisturbed_value_char: "undisturbed ex (value_char ch ex)"
  by (cases "hp_header_state (prs ex)") (simp_all add: value_char_def Let_def split: option.split)

lemma undisturbed_value_start_char: "undisturbed ex (value_start_char ch ex)"
  by (cases "hp_header_state (prs ex)") (simp_all add: value_start_char_def Let_def)

lemma undisturbed_cong:
  "undisturbed x r \<Longrightarrow> app x = app ex \<and> body_mark x = body_mark ex \<and> pos x = pos ex \<and> hp_data (prs x) = hp_data (prs ex) \<Longrightarrow>
   undisturbed ex r"
  by (cases r) simp_all

lemma undisturbed_step_callbacks:
  "undisturbed ex (step_start_req_or_res no_callbacks ch ex)" "undisturbed ex (step_start_res no_callbacks ch ex)"
  "undisturbed ex (step_res_line_almost_done no_callbacks ch ex)" "undisturbed ex (step_start_req no_callbacks ch ex)"
  "undisturbed ex (step_req_url no_callbacks d ch ex)"
  "undisturbed ex (step_headers_almost_done no_callbacks ch ex)" "undisturbed ex (step_headers_done no_callbacks ch ex)"
  by (simp_all add: step_defs Let_def to_state_def reset_message_def callback_macros callback_notify_None callback_data_None
      message_complete_def headers_complete_def split: ctl_splits prod.splits)

lemma undisturbed_step_header:
  "undisturbed ex (step_header_field no_callbacks d ch ex)" "undisturbed ex (step_header_value no_callbacks d ch ex)"
  by (auto simp: step_header_field_def step_header_value_def Let_def to_state_def callback_macros callback_data_None
      undisturbed_value_char split: sum.split dest: field_char_data)

lemma undisturbed_step_value_start: "undisturbed ex (step_header_value_start no_callbacks d ch ex)"
proof -
  have "undisturbed ex (value_start_char ch (prs_update f (value_mark_update m ex)))" if "\<And>p. hp_data (f p) = hp_data p" for f m
    by (rule undisturbed_cong[OF undisturbed_value_start_char]) (simp add: that)
  then show ?thesis
    by (simp add: step_header_value_start_def Let_def to_state_def callback_macros callback_data_None)
qed

lemma undisturbed_exec_state:
  assumes "PARSING_HEADER (hp_state (prs ex))"
  shows "undisturbed ex (exec_state no_callbacks d ch ex)"
  using assms
  by (cases "hp_state (prs ex)")
    (simp_all add: exec_state_def undisturbed_step undisturbed_step_callbacks undisturbed_step_header undisturbed_step_value_start)

lemma Again_head:
  assumes "exec_state st d ch ex = Again ex'" "PARSING_HEADER (hp_state (prs ex))"
  shows "PARSING_HEADER (hp_state (prs ex'))"
  using assms
  by (cases "hp_state (prs ex)")
    (auto simp: exec_state_def step_Again_None step_Again_None_callbacks dest!: step_Again_target)

text \<open>So does the byte as a whole, whatever the client and the rest of the buffer.\<close>

lemma run_byte_head:
  "PARSING_HEADER (hp_state (prs ex)) \<Longrightarrow>
   run_byte (body_only cb) d ch ex = run_byte no_callbacks [] ch ex \<and> undisturbed ex (run_byte no_callbacks [] ch ex)"
proof (induction ex rule: measure_induct_rule[where f = "\<lambda>ex. goto_rank (hp_state (prs ex))"])
  case (less ex)
  note e = exec_state_head[OF less.prems, of cb d ch] undisturbed_exec_state[OF less.prems, of "[]" ch]
  show ?case
  proof (cases "exec_state no_callbacks [] ch ex")
    case (Again ex')
    with less.IH[OF exec_state_Again[OF Again] Again_head[OF Again less.prems]] e show ?thesis
      by (subst (1 2 3) run_byte.simps) (auto intro: undisturbed_cong)
  qed (use e in \<open>subst (1 2 3) run_byte.simps, simp\<close>)+
qed

section \<open>The head, byte by byte\<close>

definition header_byte :: "'s \<Rightarrow> byte \<Rightarrow> http_parser \<Rightarrow> http_parser option" where
  "header_byte s ch p =
     (case count_header (start_exec p s) of
        Next ex \<Rightarrow> (case run_byte no_callbacks [] ch ex of Next ex' \<Rightarrow> Some (prs ex') | _ \<Rightarrow> None)
      | _ \<Rightarrow> None)"

text \<open>
  The parser after the bytes of a head, when it is still in the head at the start of every one.
  The state \<^theory_text>\<open>s\<close> of the client plays no part.
\<close>

fun header_parse :: "'s \<Rightarrow> bytes \<Rightarrow> http_parser \<Rightarrow> http_parser option" where
  "header_parse s [] p = Some p"
| "header_parse s (ch # cs) p =
     (if PARSING_HEADER (hp_state p)
      then (case header_byte s ch p of None \<Rightarrow> None | Some p' \<Rightarrow> header_parse s cs p')
      else None)"

lemma header_parse_append:
  "header_parse s (a @ b) p = (case header_parse s a p of None \<Rightarrow> None | Some p' \<Rightarrow> header_parse s b p')"
  by (induction a arbitrary: p) (auto split: option.split)

lemma count_header_state: "count_header ex = Next ex1 \<Longrightarrow> hp_state (prs ex1) = hp_state (prs ex)"
  by (auto simp: count_header_def Let_def split: if_splits)

lemma count_header_undisturbed: "count_header ex = Next ex1 \<Longrightarrow> undisturbed ex (Next ex1)"
  by (auto simp: count_header_def Let_def split: if_splits)

lemma header_byte_cases:
  fixes s :: 's and ex :: "'s exec"
  assumes "PARSING_HEADER (hp_state (prs ex))" "header_byte s ch (prs ex) = Some p'"
  obtains ex1 ex2 where "count_header ex = Next ex1" "run_byte no_callbacks [] ch ex1 = Next ex2" "prs ex2 = p'"
proof -
  let ?a = "start_exec (prs ex) s"
  from assms(2) obtain a1 a2 where a: "count_header ?a = Next a1" "run_byte no_callbacks [] ch a1 = Next a2" "prs a2 = p'"
    by (auto simp: header_byte_def split: ctl.splits)
  have "twin (pos ex) ?a ex" by (simp add: twin_def start_exec_def)
  from count_header_sim[OF this] a(1) obtain b1 where b1: "count_header ex = Next b1" "twin (pos ex) a1 b1"
    by (cases "count_header ex") auto
  have "hp_state (prs a1) \<notin> bulk"
    using bulk_not_header[of "hp_state (prs a1)"] count_header_state[OF a(1)] assms(1) by (auto simp: start_exec_def)
  then have "sim (pos ex) (run_byte no_callbacks [] ch a1) (run_byte no_callbacks [] ch b1)"
    using run_byte_sim[OF no_callbacks_quiet b1(2)] by blast
  with a(2) obtain b2 where "run_byte no_callbacks [] ch b1 = Next b2" "prs b2 = prs a2"
    by (cases "run_byte no_callbacks [] ch b1") (auto simp: twin_def)
  with that b1(1) a(3) show thesis by simp
qed

lemma header_byte_any:
  fixes s s' :: 's
  assumes "PARSING_HEADER (hp_state p)" "header_byte s ch p = Some p'"
  shows "header_byte s' ch p = Some p'"
proof -
  have "PARSING_HEADER (hp_state (prs (start_exec p s')))" "header_byte s ch (prs (start_exec p s')) = Some p'"
    using assms by (simp_all add: start_exec_def)
  from header_byte_cases[OF this] obtain ex1 ex2 where
    "count_header (start_exec p s') = Next ex1" "run_byte no_callbacks [] ch ex1 = Next ex2" "prs ex2 = p'" .
  then show ?thesis by (simp add: header_byte_def)
qed

lemma header_parse_any:
  fixes s s' :: 's
  shows "header_parse s cs p = Some p' \<Longrightarrow> header_parse s' cs p = Some p'"
proof (induction cs arbitrary: p)
  case (Cons ch cs)
  then obtain q where q: "PARSING_HEADER (hp_state p)" "header_byte s ch p = Some q" "header_parse s cs q = Some p'"
    by (auto split: if_splits option.splits)
  from header_byte_any[OF q(1,2), of s'] q Cons.IH[OF q(3)] show ?case by simp
qed simp

lemma header_parse_eq:
  fixes s s' :: 's
  shows "header_parse s cs p = header_parse s' cs p"
proof (cases "header_parse s cs p")
  case None
  then show ?thesis using header_parse_any[of s' cs p _ s] by (cases "header_parse s' cs p") auto
next
  case (Some p')
  then show ?thesis using header_parse_any[OF Some, of s'] by simp
qed

text \<open>A call's loop passes through the bytes of a head as \<^theory_text>\<open>header_parse\<close> does.\<close>

lemma exec_loop_head_byte:
  fixes s :: 's and ex :: "'s exec"
  assumes "PARSING_HEADER (hp_state (prs ex))" "header_byte s (d ! pos ex) (prs ex) = Some p'"
    and "exec_ok 0 ex" "body_mark ex = None" "pos ex < length d"
  obtains ex' where "exec_loop (body_only cb) d ex = exec_loop (body_only cb) d ex'" "prs ex' = p'" "pos ex' = Suc (pos ex)"
    "app ex' = app ex" "body_mark ex' = None" "exec_ok 0 ex'" "hp_data p' = hp_data (prs ex)"
proof -
  from header_byte_cases[OF assms(1,2)] obtain ex1 ex2 where
    r: "count_header ex = Next ex1" "run_byte no_callbacks [] (d ! pos ex) ex1 = Next ex2" "prs ex2 = p'" .
  have h: "PARSING_HEADER (hp_state (prs ex1))" using assms(1) count_header_state[OF r(1)] by simp
  note u = count_header_undisturbed[OF r(1)] run_byte_head[OF h, of cb d "d ! pos ex"]
  have ok1: "exec_ok 1 ex1"
    using callback_contract.count_header_ok[OF quiet_contract[OF no_callbacks_quiet] assms(3)] r(1) by auto
  have "callback_contract.ctl_ok (\<lambda>s. True) (\<lambda>f. False) (run_byte no_callbacks [] (d ! pos ex) ex1)"
    by (rule callback_contract.run_byte_ok[OF quiet_contract[OF no_callbacks_quiet, of 0] ok1]) simp_all
  then have ok2: "exec_ok 0 ex2"
    by (simp add: r(2) callback_contract.ctl_ok.simps[OF quiet_contract[OF no_callbacks_quiet]])
  show thesis
  proof (rule that[of "pos_update Suc ex2"])
    show "exec_loop (body_only cb) d ex = exec_loop (body_only cb) d (pos_update Suc ex2)"
      using u r assms(5) by (subst exec_loop.simps) simp
    show "exec_ok 0 (pos_update Suc ex2)" using ok2 by (simp add: exec_ok_def marks_ok_def)
  qed (use u r assms(4) in simp_all)
qed

lemma exec_loop_head:
  fixes s :: 's and ex :: "'s exec"
  assumes "header_parse s cs (prs ex) = Some p'" "take (length cs) (drop (pos ex) d) = cs" "exec_ok 0 ex" "body_mark ex = None"
  shows "\<exists>ex'. exec_loop (body_only cb) d ex = exec_loop (body_only cb) d ex' \<and> prs ex' = p' \<and> pos ex' = pos ex + length cs \<and>
    app ex' = app ex \<and> body_mark ex' = None \<and> exec_ok 0 ex' \<and> hp_data p' = hp_data (prs ex)"
  using assms
proof (induction cs arbitrary: ex)
  case Nil
  then show ?case by auto
next
  case (Cons ch cs)
  have p: "pos ex < length d" using Cons.prems(2) by (cases "pos ex < length d") auto
  then have d: "d ! pos ex = ch" "take (length cs) (drop (Suc (pos ex)) d) = cs"
    using Cons.prems(2) by (simp_all add: Cons_nth_drop_Suc[symmetric])
  obtain q where q: "PARSING_HEADER (hp_state (prs ex))" "header_byte s ch (prs ex) = Some q" "header_parse s cs q = Some p'"
    using Cons.prems(1) by (auto split: if_splits option.splits)
  have "header_byte s (d ! pos ex) (prs ex) = Some q" using q(2) d(1) by simp
  from exec_loop_head_byte[OF q(1) this Cons.prems(3,4) p, of cb] obtain ex1 where
    1: "exec_loop (body_only cb) d ex = exec_loop (body_only cb) d ex1" "prs ex1 = q" "pos ex1 = Suc (pos ex)"
      "app ex1 = app ex" "body_mark ex1 = None" "exec_ok 0 ex1" "hp_data q = hp_data (prs ex)" .
  from Cons.IH[of ex1] 1 q(3) d(2) show ?case by auto
qed

section \<open>Calls\<close>

lemma start_exec_simps [simp]:
  "prs (start_exec p s) = p" "pos (start_exec p s) = 0" "app (start_exec p s) = s" "body_mark (start_exec p s) = None"
  by (simp_all add: start_exec_def)

lemma started_exec_ok: "parser_ok p \<Longrightarrow> hp_errno p = HPE_OK \<Longrightarrow> exec_ok 0 (start_exec p s)"
  by (auto simp: exec_ok_def start_exec_def marks_ok_def parser_ok_def)

lemma finish_body_only:
  assumes "exec_ok 0 ex"
  shows "finish (body_only cb) d ex =
    CALLBACK_body (body_only cb) d (pos ex) (pos ex)
      (ex\<lparr>field_mark := None, value_mark := None, url_mark := None\<rparr>) (\<lambda>ex. Return (length d) ex)"
proof -
  have e: "hp_errno (prs ex) = HPE_OK" and c: "count_marks ex \<le> 1"
    using assms callback_contract.marks_exclusive[OF quiet_contract[OF no_callbacks_quiet]] by (auto simp: exec_ok_def)
  have f: "callback_data None err m clear d e er x K = K (if m = None then x else clear x)" if "hp_errno (prs x) = HPE_OK"
    for err m clear e er and x :: "'a exec" and K
    using that by (simp add: callback_data_None assert_parser_def)
  have n: "ex\<lparr>field_mark := None\<rparr> = ex" if "field_mark ex = None" for ex :: "'a exec" using that by simp
  have v: "ex\<lparr>value_mark := None\<rparr> = ex" if "value_mark ex = None" for ex :: "'a exec" using that by simp
  have u: "ex\<lparr>url_mark := None\<rparr> = ex" if "url_mark ex = None" for ex :: "'a exec" using that by simp
  show ?thesis
    using c e by (simp add: finish_def assert_parser_def callback_macros f n v u)
qed

text \<open>A call on a piece of the head, and one on its last piece and the beginning of a body up to the end.\<close>

lemma execute_head:
  fixes s app_state :: 's
  assumes "header_parse s d p = Some p'" "d \<noteq> []" "parser_ok p" "hp_errno p = HPE_OK"
  shows "http_parser_execute (body_only cb) p d app_state = Inr (length d, p', app_state)" "parser_ok p'" "hp_errno p' = HPE_OK"
    "hp_data p' = hp_data p"
proof -
  have "header_parse s d (prs (start_exec p app_state)) = Some p'" using assms(1) by simp
  from exec_loop_head[OF this _ started_exec_ok[OF assms(3,4)], where d = d and cb = cb] obtain ex where
    ex: "exec_loop (body_only cb) d (start_exec p app_state) = exec_loop (body_only cb) d ex" "prs ex = p'" "pos ex = length d"
      "app ex = app_state" "body_mark ex = None" "exec_ok 0 ex" "hp_data p' = hp_data p" by auto
  have e: "hp_errno p' = HPE_OK" using ex(2,6) by (simp add: exec_ok_def)
  have "exec_loop (body_only cb) d ex = Next ex" using ex(3) by (subst exec_loop.simps) simp
  with ex e show "http_parser_execute (body_only cb) p d app_state = Inr (length d, p', app_state)"
    by (simp add: execute_loop[OF assms(4,2)] finish_body_only CALLBACK_body_def callback_data_def assert_parser_def)
  show "parser_ok p'" "hp_errno p' = HPE_OK" "hp_data p' = hp_data p" using ex e by (auto simp: exec_ok_def parser_ok_def)
qed

lemma exec_loop_eof_at:
  assumes "hp_state (prs ex) = s_body_identity_eof" "pos ex < length d" "body_mark ex = None"
  shows "exec_loop st d ex = Next (ex\<lparr>body_mark := Some (pos ex), pos := length d\<rparr>)"
proof -
  have last: "Suc (length d - Suc 0) = length d" using assms(2) by simp
  have "run_byte st d (d ! pos ex) ex = Next (ex\<lparr>pos := length d - 1, body_mark := Some (pos ex)\<rparr>)"
    using assms by (subst run_byte.simps) (simp add: exec_state_def step_body_identity_eof_def set_mark_def)
  then have "exec_loop st d ex = exec_loop st d (ex\<lparr>body_mark := Some (pos ex), pos := length d\<rparr>)"
    using assms last by (subst exec_loop.simps) (simp add: count_header_def comp_def)
  also have "\<dots> = Next (ex\<lparr>body_mark := Some (pos ex), pos := length d\<rparr>)"
    by (subst exec_loop.simps) simp
  finally show ?thesis .
qed

lemma execute_head_and_body:
  fixes s app_state :: 's
  assumes "header_parse s a p = Some p'" "hp_state p' = s_body_identity_eof" "b \<noteq> []" "parser_ok p" "hp_errno p = HPE_OK"
    and "f p' b app_state = Inr (ret, False, app_state')"
  shows "http_parser_execute (body_only (Some f)) p (a @ b) app_state =
    Inr (length (a @ b), (if ret = 0 then p' else p'\<lparr>hp_errno := HPE_CB_body\<rparr>), app_state')"
proof -
  have "header_parse s a (prs (start_exec p app_state)) = Some p'" using assms(1) by simp
  from exec_loop_head[OF this _ started_exec_ok[OF assms(4,5)], where d = "a @ b" and cb = "Some f"] obtain ex where
    ex: "exec_loop (body_only (Some f)) (a @ b) (start_exec p app_state) = exec_loop (body_only (Some f)) (a @ b) ex" "prs ex = p'"
      "pos ex = length a" "app ex = app_state" "body_mark ex = None" "exec_ok 0 ex" by auto
  let ?ex = "ex\<lparr>body_mark := Some (length a), pos := length (a @ b)\<rparr>"
  have loop: "exec_loop (body_only (Some f)) (a @ b) ex = Next ?ex"
    using exec_loop_eof_at[of ex "a @ b"] ex assms(2,3) by simp
  have ok: "exec_ok 0 ?ex" using ex(2,6) assms(2) by (simp add: exec_ok_def marks_ok_def)
  have "hp_errno p' = HPE_OK" using ex(2,6) by (simp add: exec_ok_def)
  with ex(1,2,4) loop assms(3,6) show ?thesis
    by (simp add: execute_loop[OF assms(5)] finish_body_only[OF ok, simplified] CALLBACK_body_def callback_data_after
        assert_parser_def after_callback_def)
qed

end
