(* ===== verification/Http_Run.thy ===== *)
theory Http_Run
  imports Http_Invariant
begin

text \<open>
  The rewriting rules that run the parser on a concrete buffer, byte by byte, and the responses
  a camera's connection starts with.
\<close>

lemmas run_simps =
  http_parser_execute_def exec_loop.simps run_byte.simps exec_state_def start_exec_def http_parser_init_def
  zeroed_parser_def count_header_def Let_def step_defs callback_macros callback_notify_def callback_data_def
  assert_parser_def set_mark_def to_state_def goto_error_def STRICT_CHECK_def reset_message_def
  HTTP_MAX_HEADER_SIZE_def IS_NUM_def digit_val_def add_digit_def message_complete_def headers_complete_def
  url_states_def finish_def count_marks_def NEW_MESSAGE_def start_state_def http_message_needs_eof_def
  http_should_keep_alive_def has_flag_def set_flag_def field_char_def first_header_state_def
  value_start_char_def value_char_def match_next_def match_letter_def grow_length_def

text \<open>A response line and the empty line after it.\<close>

definition plain_response :: bytes where
  "plain_response = ''HTTP/1.0 200 OK'' @ [CR, LF, CR, LF]"

text \<open>What the parser holds after it: the body goes on to the end of the connection.\<close>

definition plain_parser :: "http_parser \<Rightarrow> http_parser" where
  "plain_parser p = (http_parser_init p HTTP_RESPONSE)\<lparr>hp_state := s_body_identity_eof,
     hp_content_length := ULLONG_MAX, hp_http_major := 1, hp_status_code := 200\<rparr>"

end
