(* ===== verification/Http_Properties.thy ===== *)
theory Http_Properties
  imports Http_Response Http_Run
begin

text \<open>
  Properties of the HTTP parser beyond its safety: it does not depend on how the stream is cut,
  its tables against the grammar they stand for, the growth of a length, and a letter of the
  method it does not look at.
\<close>

section \<open>The stream in parts\<close>

text \<open>
  C31. The parser does not depend on how the stream is cut. With callbacks that return 0 and
  neither fault nor pause, and a parser in order: when the call on the first part ends without
  an error and without an upgrade, it has consumed the whole part, and the call on the second
  part, with the parser and application the first one left, gives the same parser and ends at
  the same byte as one call on both parts. The cut can be anywhere: within a token, a number,
  the end of a line, a body or a chunk.
\<close>

theorem stream_cut_anywhere:
  assumes "quiet st" "parser_ok p" "a \<noteq> []" "b \<noteq> []"
    and "http_parser_execute st p a s = Inr (n, p', s')" "hp_errno p' = HPE_OK" "\<not> hp_upgrade p'"
  shows "n = length a \<and> (\<exists>m p'' s'' t. http_parser_execute st p' b s' = Inr (m, p'', s'') \<and>
     http_parser_execute st p (a @ b) s = Inr (n + m, p'', t))"
  using execute_two_parts[OF assms] .

lemma first_letter:
  "\<exists>p'. http_parser_execute no_callbacks (http_parser_init zeroed_parser HTTP_REQUEST) ''G'' s = Inr (1, p', s) \<and>
     hp_errno p' = HPE_OK \<and> \<not> hp_upgrade p'"
  by (simp add: run_simps first_method_def IS_ALPHA_def LOWER_def)

lemma stream_cut_anywhere_witness:
  "\<exists>p' m p'' s''. http_parser_execute no_callbacks (http_parser_init zeroed_parser HTTP_REQUEST) ''G'' (0::nat) = Inr (1, p', 0) \<and>
     http_parser_execute no_callbacks p' ''ET /'' (0::nat) = Inr (m, p'', s'') \<and>
     (\<exists>t. http_parser_execute no_callbacks (http_parser_init zeroed_parser HTTP_REQUEST) (''G'' @ ''ET /'') (0::nat) = Inr (1 + m, p'', t))"
proof -
  from first_letter[of "0::nat"] obtain p' where
    first: "http_parser_execute no_callbacks (http_parser_init zeroed_parser HTTP_REQUEST) ''G'' (0::nat) = Inr (1, p', 0)"
      "hp_errno p' = HPE_OK" "\<not> hp_upgrade p'" by (elim exE conjE)
  have ne: "''G'' \<noteq> []" "''ET /'' \<noteq> []" by simp_all
  from stream_cut_anywhere[OF no_callbacks_quiet http_parser_init_ok ne first] obtain m p'' s'' t where
    second: "http_parser_execute no_callbacks p' ''ET /'' (0::nat) = Inr (m, p'', s'')"
      "http_parser_execute no_callbacks (http_parser_init zeroed_parser HTTP_REQUEST) (''G'' @ ''ET /'') (0::nat) = Inr (1 + m, p'', t)"
    by (elim exE conjE)
  show ?thesis
    by (intro exI conjI, rule first(1), rule second(1), rule second(2))
qed

section \<open>Tables\<close>

text \<open>The tables as lists of codes, row by row.\<close>

lemma upt_128: "[0 ..< 128] = 0 # 1 # [2 ..< 128::nat]"
  by (simp add: upt_conv_Cons)

lemma ord_less_256: "ord_of c < 256"
  by (cases c) simp

lemma nth_half:
  assumes "xs = map f [0 ..< 128] @ replicate 128 z" "n < 256"
  shows "xs ! n = (if n < 128 then f n else z)"
  using assms by (simp add: nth_append)

definition hex_value :: "nat \<Rightarrow> int" where
  "hex_value n =
     (if 48 \<le> n \<and> n \<le> 57 then int n - 48
      else if 65 \<le> n \<and> n \<le> 70 then int n - 55
      else if 97 \<le> n \<and> n \<le> 102 then int n - 87
      else - 1)"

lemma unhex_list: "unhex = map hex_value [0 ..< 128] @ replicate 128 0"
  unfolding upt_128 by (simp add: unhex_def hex_value_def upt_rec_numeral)

definition separators :: "nat list" where
  "separators = map ord_of (''()<>@,;:'' @ [CHR 0x5C, CHR 0x22] @ ''/[]?={} '' @ [HT])"

definition token_code :: "nat \<Rightarrow> nat" where
  "token_code n =
     (if 32 < n \<and> n < 127 \<and> n \<notin> set separators then (if 65 \<le> n \<and> n \<le> 90 then n + 32 else n) else 0)"

lemma short_replicates:
  "replicate 33 x = [x, x, x, x, x, x, x, x, x, x, x, x, x, x, x, x, x, x, x, x, x, x, x, x, x, x, x, x, x, x, x, x, x]"
  "replicate 7 x = [x, x, x, x, x, x, x]" "replicate 3 x = [x, x, x]" "replicate 2 x = [x, x]"
  by (simp_all add: numeral_eq_Suc)

lemma tokens_list: "map ord_of tokens = map token_code [0 ..< 128] @ replicate 128 0"
  unfolding upt_128 by (simp add: tokens_def token_code_def separators_def upt_rec_numeral short_replicates)

lemma url_char_list: "list_all (\<lambda>n. BIT_AT normal_url_char n \<longleftrightarrow> 32 < n \<and> n < 127 \<and> n \<noteq> 35 \<and> n \<noteq> 63) [0 ..< 128]"
  unfolding upt_128 by (simp add: BIT_AT_def normal_url_char_def upt_rec_numeral)

text \<open>
  The table \<^verbatim>\<open>tokens\<close> is the grammar's token: a byte above space and below DEL that is no
  separator stands for itself, a capital letter for the small one; every other byte is refused.
\<close>

lemma tokens_code: "ord_of (TOKEN c) = token_code (ord_of c)"
proof -
  have "length tokens = 256" by (simp add: tokens_def)
  then have "ord_of (TOKEN c) = map ord_of tokens ! ord_of c" using ord_less_256[of c] by (simp add: TOKEN_def)
  also have "\<dots> = (if ord_of c < 128 then token_code (ord_of c) else 0)" by (rule nth_half[OF tokens_list ord_less_256])
  finally show ?thesis by (simp add: token_code_def)
qed

text \<open>
  The table \<^verbatim>\<open>unhex\<close> gives the value of a hexadecimal digit and -1 for every other byte
  below 128. Its upper half has no initialisers and is 0: a byte of 128 or more counts as the
  digit 0.
\<close>

lemma unhex_table: "unhex ! ord_of c = (if ord_of c < 128 then hex_value (ord_of c) else 0)"
  by (rule nth_half[OF unhex_list ord_less_256])

text \<open>
  The table \<^verbatim>\<open>normal_url_char\<close>: in strict mode a byte of a URL is a visible ASCII character
  other than the two delimiters \<^verbatim>\<open>#\<close> and \<^verbatim>\<open>?\<close>.
\<close>

lemma url_char_code: "IS_URL_CHAR c \<longleftrightarrow> 32 < ord_of c \<and> ord_of c < 127 \<and> c \<noteq> CHR ''#'' \<and> c \<noteq> CHR ''?''"
proof (cases "ord_of c < 128")
  case True
  have "c = CHR ''#'' \<longleftrightarrow> ord_of c = 35" "c = CHR ''?'' \<longleftrightarrow> ord_of c = 63"
    using of_char_eq_iff[of c "CHR ''#''"] of_char_eq_iff[of c "CHR ''?''"] by auto
  then show ?thesis using True url_char_list by (simp add: IS_URL_CHAR_def list_all_iff)
next
  case False
  moreover have "ord_of c div 8 < 32" using ord_less_256[of c] by (simp add: less_mult_imp_div_less)
  ultimately have "ord_of c div 8 - 16 < 16" "16 \<le> ord_of c div 8" by auto
  then have "normal_url_char ! (ord_of c div 8) = 0" by (simp add: normal_url_char_def nth_append)
  then show ?thesis using \<open>\<not> ord_of c < 128\<close> by (simp add: IS_URL_CHAR_def BIT_AT_def)
qed

text \<open>
  C32. The three tables of the parser against the grammar they stand for. A token is made of the
  bytes above space and below DEL that are no separators, capital letters read as small ones. A
  hexadecimal digit has its value and another byte below 128 none (-1); but the upper half of the
  table has no initialisers, so that a byte of 128 or more counts as the digit 0. A byte of a URL
  is, in strict mode, a visible ASCII character other than \<^verbatim>\<open>#\<close> and \<^verbatim>\<open>?\<close>.
\<close>

theorem tables_are_grammar:
  "ord_of (TOKEN c) = token_code (ord_of c) \<and>
   unhex ! ord_of c = (if ord_of c < 128 then hex_value (ord_of c) else 0) \<and>
   IS_URL_CHAR c = (32 < ord_of c \<and> ord_of c < 127 \<and> c \<noteq> CHR ''#'' \<and> c \<noteq> CHR ''?'')"
  by (simp only: tokens_code unhex_table url_char_code)

section \<open>Numbers and methods\<close>

text \<open>
  C33. The growth of a length by a digit, of a \<^verbatim>\<open>Content-Length\<close> or of a chunk, is exact as long as
  the number stays below 2^64 - 1. The test for overflow only compares with the old value,
  though: the twenty digits 30000000000000000000 are taken for 11553255926290448384.
\<close>

theorem grow_length_exact:
  assumes "unat len * unat base + unat digit < 2 ^ 64 - 1" "1 \<le> unat base"
  shows "map_option unat (grow_length len base digit) = Some (unat len * unat base + unat digit) \<and>
    grow_length 3000000000000000000 10 0 = Some 11553255926290448384"
proof -
  have t: "unat (len * base + digit) = unat len * unat base + unat digit"
    using assms(1) by (simp add: unat_word_ariths)
  have "unat len \<le> unat len * unat base + unat digit" using assms(2) by (simp add: trans_le_add1)
  then have "\<not> len * base + digit < len" using t by (simp add: word_less_nat_alt)
  moreover have "len * base + digit \<noteq> ULLONG_MAX" using t assms(1) by auto
  ultimately show ?thesis using t by (simp add: grow_length_def Let_def ULLONG_MAX_def)
qed

lemma grow_length_exact_witness: "map_option unat (grow_length 12 10 (3 :: 64 word)) = Some 123"
  using grow_length_exact[of 12 10 3] by simp

text \<open>
  C34. The methods. For each of the methods of the table, the bytes \<^verbatim>\<open>http_method_str\<close> gives and a
  space are read as that method: a fresh parser of requests consumes them all, without an error, and
  then expects the URL. (The methods that start with the same letter are told apart.)
\<close>

theorem method_roundtrip:
  "\<exists>p. http_parser_execute no_callbacks (http_parser_init q HTTP_REQUEST) (http_method_str m @ [SP]) s =
       Inr (length (http_method_str m) + 1, p, s) \<and>
     hp_errno p = HPE_OK \<and> hp_method p = m \<and> hp_state p = s_req_spaces_before_url"
  by (cases m)
    (simp_all add: run_simps first_method_def IS_ALPHA_def LOWER_def match_method_def method_string_def http_method_str_def)

text \<open>
  The third letter of a method is not looked at. After \<^verbatim>\<open>GE\<close> any byte but NUL, \<^verbatim>\<open>X\<close> or a space
  too, leaves a parser of a GET request.
\<close>

lemma any_third_letter:
  assumes "ch \<noteq> NUL"
  shows "\<exists>p. http_parser_execute no_callbacks (http_parser_init zeroed_parser HTTP_REQUEST) [CHR ''G'', CHR ''E'', ch] s = Inr (3, p, s) \<and>
    hp_errno p = HPE_OK \<and> hp_method p = HTTP_GET \<and> hp_state p = s_req_method \<and> hp_index p = 3"
  using assms by (simp add: run_simps first_method_def IS_ALPHA_def LOWER_def match_method_def method_string_def)

end
