(* ===== verification/Rsva_Connection.thy ===== *)
theory Rsva_Connection
  imports Http_Execute
begin

text \<open>
  The data of \<^verbatim>\<open>rsva11001.c\<close>: the connection to one camera with its two receive buffers, and the
  operations that do not talk to the socket (allocation, configuration, reassembly of frames,
  the latest image, the accessors). \<^verbatim>\<open>uint_fast32_t\<close> and \<^verbatim>\<open>size_t\<close> have 64 bits; such a number
  is a \<^typ>\<open>nat\<close> below \<^verbatim>\<open>2^64\<close>, and the subtractions of the code that can wrap are \<^theory_text>\<open>usub\<close>.
\<close>

section \<open>The connection\<close>

text \<open>Which of the two buffer fields a pointer into the connection designates.\<close>

datatype side = Ping | Pong

record rsva11001_connection =
  lastError :: string
  sockfd :: int
  username :: string
  password :: string
  hostname :: string
  channel :: "32 word"
  outputBuffer :: "bytes option"
  outputLength :: nat
  bytesWritten :: nat
  ping :: bool
  pingReceiveBuffer :: "bytes option"
  pingReceiveBufferSize :: nat
  pongReceiveBuffer :: "bytes option"
  pongReceiveBufferSize :: nat
  activeReceiveBuffer :: "side option"
  activeReceiveBufferSize :: "side option"
  activeReceiveBufferBytesReceived :: nat
  parser :: http_parser
  connected :: bool

definition rsva11001_connection_getLastError :: "rsva11001_connection \<Rightarrow> string" where
  "rsva11001_connection_getLastError c = lastError c"

definition HTTP_PATH :: string where "HTTP_PATH = ''/snapshot.html''"
definition HEADER_SIZE :: "32 word" where "HEADER_SIZE = 8"
definition HEADER :: bytes where "HEADER = ''JPGS''"
definition FOOTER_SIZE :: "32 word" where "FOOTER_SIZE = 4"
definition FOOTER :: bytes where "FOOTER = ''JPGE''"
definition MAX_CHAN :: "32 word" where "MAX_CHAN = 9"
definition MIN_CHAN :: "32 word" where "MIN_CHAN = 1"

text \<open>\<^verbatim>\<open>a - b\<close> on 64-bit unsigned numbers.\<close>

definition usub :: "nat \<Rightarrow> nat \<Rightarrow> nat" where
  "usub a b = (a + 2 ^ 64 - b) mod 2 ^ 64"

lemma usub_le [simp]: "b \<le> a \<Longrightarrow> a < 2 ^ 64 \<Longrightarrow> usub a b = a - b"
proof -
  assume le: "b \<le> a" "a < 2 ^ 64"
  then have "a + 2 ^ 64 - b = (a - b) + 2 ^ 64" by linarith
  moreover have "a - b < 2 ^ 64" using le(2) by linarith
  ultimately show ?thesis by (simp only: usub_def mod_add_self2 mod_less)
qed

lemma usub_wrap: "a < b \<Longrightarrow> b < 2 ^ 64 \<Longrightarrow> usub a b = 2 ^ 64 - (b - a)"
proof -
  assume "a < b" "b < 2 ^ 64"
  then have "a + 2 ^ 64 - b < 2 ^ 64" and "a + 2 ^ 64 - b = 2 ^ 64 - (b - a)" by linarith+
  then show ?thesis by (simp only: usub_def mod_less)
qed

section \<open>The two buffers\<close>

fun buffer_at :: "side \<Rightarrow> rsva11001_connection \<Rightarrow> bytes option" where
  "buffer_at Ping c = pingReceiveBuffer c"
| "buffer_at Pong c = pongReceiveBuffer c"

fun size_at :: "side \<Rightarrow> rsva11001_connection \<Rightarrow> nat" where
  "size_at Ping c = pingReceiveBufferSize c"
| "size_at Pong c = pongReceiveBufferSize c"

fun store_at :: "side \<Rightarrow> bytes \<Rightarrow> rsva11001_connection \<Rightarrow> rsva11001_connection" where
  "store_at Ping bs c = c\<lparr>pingReceiveBuffer := Some bs\<rparr>"
| "store_at Pong bs c = c\<lparr>pongReceiveBuffer := Some bs\<rparr>"

definition rsva11001_connection_swapBuffers :: "rsva11001_connection \<Rightarrow> rsva11001_connection" where [conn_defs]:
  "rsva11001_connection_swapBuffers c =
     (let s = (if ping c then Pong else Ping)
      in c\<lparr>activeReceiveBuffer := Some s, activeReceiveBufferSize := Some s, ping := \<not> ping c\<rparr>)"

section \<open>Receiving\<close>

text \<open>
  The callback on a piece of the body. An access outside a buffer of the connection, or outside
  the \<^verbatim>\<open>length\<close> bytes at \<^verbatim>\<open>data\<close>, is the fault \<^theory_text>\<open>Out_of_bounds\<close>. The first definition is
  the part after the new bytes are in the active buffer \<^theory_text>\<open>buf\<close>, with \<^theory_text>\<open>oldSize\<close> bytes
  received before them.
\<close>

definition recv_complete ::
  "bytes \<Rightarrow> nat \<Rightarrow> nat \<Rightarrow> rsva11001_connection \<Rightarrow> (int \<times> bool \<times> rsva11001_connection) res" where [conn_defs]:
  "recv_complete data totalLength oldSize c =
     (let finished = usub totalLength oldSize;
          overflow = usub (length data) finished;
          c = rsva11001_connection_swapBuffers c
      in case activeReceiveBuffer c of
           None \<Rightarrow> Inl (Null_pointer In_connection_recv)
         | Some s \<Rightarrow>
             (case buffer_at s c of
                None \<Rightarrow> Inl (Null_pointer In_connection_recv)
              | Some buf \<Rightarrow>
                  if length data < finished + overflow \<or> length buf < overflow
                  then Inl (Out_of_bounds In_connection_recv)
                  else Inr (0, False, (store_at s (overwrite 0 (slice finished overflow data) buf) c)
                         \<lparr>activeReceiveBufferBytesReceived := overflow\<rparr>)))"

definition recv_frame ::
  "bytes \<Rightarrow> bytes \<Rightarrow> nat \<Rightarrow> rsva11001_connection \<Rightarrow> (int \<times> bool \<times> rsva11001_connection) res" where [conn_defs]:
  "recv_frame buf data oldSize c =
     (if activeReceiveBufferBytesReceived c < unat HEADER_SIZE then Inr (0, False, c)
      else if take 4 buf \<noteq> HEADER then Inr (1, False, c)
      else
        (let jpegLength = ntohl (slice 4 4 buf);
             totalLength = unat (HEADER_SIZE + jpegLength + FOOTER_SIZE);
             footer = unat HEADER_SIZE + unat jpegLength
         in if totalLength \<le> activeReceiveBufferBytesReceived c
            then
              (if length buf < footer + unat FOOTER_SIZE then Inl (Out_of_bounds In_connection_recv)
               else if slice footer (unat FOOTER_SIZE) buf \<noteq> FOOTER then Inr (1, False, c)
               else recv_complete data totalLength oldSize c)
            else Inr (0, False, c)))"

definition recv_append ::
  "side \<Rightarrow> bytes \<Rightarrow> nat \<Rightarrow> bytes \<Rightarrow> rsva11001_connection \<Rightarrow> (int \<times> bool \<times> rsva11001_connection) res" where [conn_defs]:
  "recv_append s buf bufferSize data c =
     (let oldSize = activeReceiveBufferBytesReceived c;
          spaceRemaining = usub bufferSize oldSize;
          amountToCopy = min (length data) spaceRemaining
      in if spaceRemaining = 0 then Inl (Assert_failed In_connection_recv)
         else if length buf < oldSize + amountToCopy then Inl (Out_of_bounds In_connection_recv)
         else
           (let buf = overwrite oldSize (take amountToCopy data) buf
            in recv_frame buf data oldSize
                 ((store_at s buf c)\<lparr>activeReceiveBufferBytesReceived := oldSize + amountToCopy\<rparr>)))"

definition rsva11001_connection_recv ::
  "http_parser \<Rightarrow> bytes \<Rightarrow> rsva11001_connection \<Rightarrow> (int \<times> bool \<times> rsva11001_connection) res" where [conn_defs]:
  "rsva11001_connection_recv p data c =
     (if hp_data p = None then Inl (Assert_failed In_connection_recv)
      else
        (case activeReceiveBuffer c of
           None \<Rightarrow> Inl (Assert_failed In_connection_recv)
         | Some s \<Rightarrow>
             (case buffer_at s c of
                None \<Rightarrow> Inl (Assert_failed In_connection_recv)
              | Some buf \<Rightarrow>
                  (case activeReceiveBufferSize c of
                     None \<Rightarrow> Inl (Assert_failed In_connection_recv)
                   | Some z \<Rightarrow> recv_append s buf (size_at z c) data c))))"

text \<open>The settings \<^verbatim>\<open>malloc\<close> makes: only \<^verbatim>\<open>on_body\<close> is set.\<close>

definition rsva_settings :: "rsva11001_connection http_parser_settings" where
  "rsva_settings =
     \<lparr>on_message_begin = None, on_url = None, on_status_complete = None, on_header_field = None,
      on_header_value = None, on_headers_complete = None, on_body = Some rsva11001_connection_recv,
      on_message_complete = None\<rparr>"

section \<open>The latest image\<close>

text \<open>
  The value is the result, the size that is returned and the bytes written to the start of
  \<^verbatim>\<open>out\<close>; \<^theory_text>\<open>capacity\<close> is the value of \<^verbatim>\<open>*size\<close> on the call.
\<close>

definition rsva11001_connection_getLatestImage ::
  "nat \<Rightarrow> rsva11001_connection \<Rightarrow> (bool \<times> nat \<times> bytes) res" where [conn_defs]:
  "rsva11001_connection_getLatestImage capacity c =
     (case (if ping c then pongReceiveBuffer c else pingReceiveBuffer c) of
        None \<Rightarrow> Inl (Null_pointer In_getLatestImage)
      | Some buffer \<Rightarrow>
          if length buffer < unat HEADER_SIZE then Inl (Out_of_bounds In_getLatestImage)
          else if take 4 buffer \<noteq> HEADER then Inr (True, 0, [])
          else
            (let jpegLength = unat (ntohl (slice 4 4 buffer))
             in if length buffer < unat HEADER_SIZE + jpegLength + unat FOOTER_SIZE
                then Inl (Out_of_bounds In_getLatestImage)
                else if slice (unat HEADER_SIZE + jpegLength) (unat FOOTER_SIZE) buffer \<noteq> FOOTER
                then Inr (True, 0, [])
                else if capacity < jpegLength then Inr (False, 0, [])
                else Inr (True, jpegLength, slice (unat HEADER_SIZE) jpegLength buffer)))"

section \<open>Allocation and configuration\<close>

text \<open>
  \<^verbatim>\<open>malloc\<close> returns the null pointer or an object at an address, whose contents before the
  assignments are arbitrary: \<^theory_text>\<open>garbage\<close>. The fields the function does not assign keep them.
\<close>

definition rsva11001_connection_malloc ::
  "(nat \<times> rsva11001_connection) option \<Rightarrow> rsva11001_connection option" where [conn_defs]:
  "rsva11001_connection_malloc mem =
     (case mem of
        None \<Rightarrow> None
      | Some (a, garbage) \<Rightarrow>
          Some (garbage
            \<lparr>sockfd := - 1, channel := 0, username := [], password := [], hostname := [],
             outputBuffer := None, outputLength := 0,
             pingReceiveBuffer := None, pingReceiveBufferSize := 0,
             pongReceiveBufferSize := 0, pongReceiveBuffer := None,
             activeReceiveBuffer := None,
             parser := zeroed_parser\<lparr>hp_data := Some a\<rparr>,
             ping := True, lastError := [], connected := False\<rparr>))"

definition rsva11001_connection_configure ::
  "string \<Rightarrow> string \<Rightarrow> string \<Rightarrow> 32 word \<Rightarrow> rsva11001_connection \<Rightarrow> bool \<times> rsva11001_connection" where [conn_defs]:
  "rsva11001_connection_configure host user pass chan c =
     (if sockfd c \<noteq> - 1 then (False, c)
      else if 64 \<le> length host \<or> 64 \<le> length user \<or> 64 \<le> length pass then (False, c)
      else if chan > MAX_CHAN \<or> chan < MIN_CHAN then (False, c)
      else (True, c\<lparr>hostname := host, username := user, password := pass, channel := chan\<rparr>))"

definition rsva11001_connection_getChannelNumber :: "rsva11001_connection \<Rightarrow> 32 word" where
  "rsva11001_connection_getChannelNumber c = channel c"

definition rsva11001_connection_getFd :: "rsva11001_connection \<Rightarrow> int" where
  "rsva11001_connection_getFd c = sockfd c"

end
