(* ===== verification/Rsva_Frames.thy ===== *)
theory Rsva_Frames
  imports Rsva_Connection
begin

text \<open>
  What a connection promises about the stream of frames: an abstract reassembler (the latest
  image and the bytes of the frame under way) that \<^verbatim>\<open>rsva11001_connection_recv\<close> refines, the
  invariant of the two buffers, and the image a reader gets.
\<close>

section \<open>The frame format and the abstract reassembler\<close>

definition encode_frame :: "bytes \<Rightarrow> bytes" where
  "encode_frame img = HEADER @ htonl (of_nat (length img)) @ img @ FOOTER"

text \<open>The length the header of a frame announces.\<close>

definition announced :: "bytes \<Rightarrow> nat" where
  "announced s = unat (ntohl (slice 4 4 s))"

definition complete_frame :: "bytes \<Rightarrow> bool" where
  "complete_frame s \<longleftrightarrow> 8 \<le> length s \<and> 12 + announced s \<le> length s"

type_synonym reassembler = "bytes option \<times> bytes"

definition feed :: "reassembler \<Rightarrow> bytes \<Rightarrow> reassembler" where
  "feed r data =
     (let s = snd r @ data
      in if complete_frame s then (Some (slice 8 (announced s) s), drop (12 + announced s) s)
         else (fst r, s))"

definition BASE_BUFFER_SIZE :: nat where "BASE_BUFFER_SIZE = 16383 * 2"

text \<open>A stream that keeps to the format, with frames that fit a buffer.\<close>

definition well_framed :: "bytes \<Rightarrow> bool" where
  "well_framed s \<longleftrightarrow>
     (8 \<le> length s \<longrightarrow> take 4 s = HEADER \<and> 12 + announced s \<le> BASE_BUFFER_SIZE) \<and>
     (complete_frame s \<longrightarrow> slice (8 + announced s) 4 s = FOOTER)"

lemma frame_consts [simp]:
  "unat HEADER_SIZE = 8" "unat FOOTER_SIZE = 4" "length HEADER = 4" "length FOOTER = 4"
  by (simp_all add: HEADER_SIZE_def FOOTER_SIZE_def HEADER_def FOOTER_def)

lemma length_encode_frame [frame_simps]: "length (encode_frame img) = 12 + length img"
  by (simp add: encode_frame_def)

lemma announced_prefix: "8 \<le> length s \<Longrightarrow> announced (s @ t) = announced s"
  by (simp add: announced_def slice_append1)

lemma announced_take: "8 \<le> n \<Longrightarrow> announced (take n s) = announced s"
  by (simp add: announced_def slice_take)

lemma announced_less: "announced s < 2 ^ 32"
  unfolding announced_def using unsigned_less[where ?'a = nat and w = "ntohl (slice 4 4 s)"] by simp

lemma announced_encode [frame_simps]:
  assumes "length img < 2 ^ 32"
  shows "announced (encode_frame img @ t) = length img"
proof -
  have "slice 4 4 (encode_frame img @ t) = htonl (of_nat (length img))"
    by (simp add: encode_frame_def slice_def)
  moreover have "unat (of_nat (length img) :: 32 word) = length img"
    using assms by (simp add: unat_of_nat)
  ultimately show ?thesis by (simp only: announced_def ntohl_htonl)
qed

text \<open>The 32-bit sum of the code is the length of the frame unless it wraps.\<close>

lemma total_length:
  assumes "unat (j :: 32 word) + 12 < 2 ^ 32"
  shows "unat (HEADER_SIZE + j + FOOTER_SIZE) = 12 + unat j"
  using assms by (simp add: HEADER_SIZE_def FOOTER_SIZE_def unat_word_ariths)

section \<open>The invariant of the buffers\<close>

definition active_side :: "rsva11001_connection \<Rightarrow> side" where
  "active_side c = (if ping c then Ping else Pong)"

definition idle_side :: "rsva11001_connection \<Rightarrow> side" where
  "idle_side c = (if ping c then Pong else Ping)"

definition has_buffer :: "side \<Rightarrow> rsva11001_connection \<Rightarrow> bool" where
  "has_buffer s c \<longleftrightarrow> (case buffer_at s c of None \<Rightarrow> False | Some b \<Rightarrow> length b = BASE_BUFFER_SIZE)
     \<and> size_at s c = BASE_BUFFER_SIZE"

definition idle_ok :: "bytes \<Rightarrow> bool" where
  "idle_ok b \<longleftrightarrow> (take 4 b = HEADER \<longrightarrow> 12 + announced b \<le> length b)"

definition buffers_ok :: "rsva11001_connection \<Rightarrow> bool" where
  "buffers_ok c \<longleftrightarrow> has_buffer Ping c \<and> has_buffer Pong c \<and>
     activeReceiveBuffer c = Some (active_side c) \<and> activeReceiveBufferSize c = Some (active_side c) \<and>
     activeReceiveBufferBytesReceived c \<le> BASE_BUFFER_SIZE \<and> idle_ok (the (buffer_at (idle_side c) c))"

text \<open>The abstraction: the bytes of the frame under way, and the image in the idle buffer.\<close>

definition pending :: "rsva11001_connection \<Rightarrow> bytes" where
  "pending c = take (activeReceiveBufferBytesReceived c) (the (buffer_at (active_side c) c))"

definition image_in :: "bytes \<Rightarrow> bytes option" where
  "image_in b =
     (if take 4 b = HEADER \<and> slice (8 + announced b) 4 b = FOOTER then Some (slice 8 (announced b) b) else None)"

definition latest_image :: "rsva11001_connection \<Rightarrow> bytes option" where
  "latest_image c = image_in (the (buffer_at (idle_side c) c))"

definition abstract :: "rsva11001_connection \<Rightarrow> reassembler" where
  "abstract c = (latest_image c, pending c)"

text \<open>Everything a callback has no business with.\<close>

type_synonym link_state =
  "(int \<times> http_parser \<times> bool) \<times> (bytes option \<times> nat \<times> nat) \<times> (string \<times> string \<times> string \<times> 32 word)"

definition link :: "rsva11001_connection \<Rightarrow> link_state" where
  "link c = ((sockfd c, parser c, connected c), (outputBuffer c, outputLength c, bytesWritten c),
     (hostname c, username c, password c, channel c))"

lemma buffers_okE:
  assumes "buffers_ok c"
  obtains act idl where "buffer_at (active_side c) c = Some act" "length act = 32766"
    "buffer_at (idle_side c) c = Some idl" "length idl = 32766" "idle_ok idl"
    "size_at (active_side c) c = 32766" "activeReceiveBuffer c = Some (active_side c)"
    "activeReceiveBufferSize c = Some (active_side c)" "activeReceiveBufferBytesReceived c \<le> 32766"
    "size_at (idle_side c) c = 32766"
  using assms
  by (cases "ping c"; simp add: buffers_ok_def has_buffer_def active_side_def idle_side_def BASE_BUFFER_SIZE_def
      split: option.splits)

lemma buffers_okI:
  assumes "buffer_at (active_side c) c = Some act" "length act = 32766"
    "buffer_at (idle_side c) c = Some idl" "length idl = 32766" "idle_ok idl"
    "size_at (active_side c) c = 32766" "activeReceiveBuffer c = Some (active_side c)"
    "activeReceiveBufferSize c = Some (active_side c)" "activeReceiveBufferBytesReceived c \<le> 32766"
    "size_at (idle_side c) c = 32766"
  shows "buffers_ok c"
  using assms
  by (cases "ping c"; simp add: buffers_ok_def has_buffer_def active_side_def idle_side_def BASE_BUFFER_SIZE_def)

lemma store_at_simps [simp]:
  "buffer_at s (store_at s b c) = Some b" "s \<noteq> t \<Longrightarrow> buffer_at s (store_at t b c) = buffer_at s c"
  "size_at s (store_at t b c) = size_at s c" "ping (store_at t b c) = ping c"
  "activeReceiveBuffer (store_at t b c) = activeReceiveBuffer c"
  "activeReceiveBufferSize (store_at t b c) = activeReceiveBufferSize c"
  "activeReceiveBufferBytesReceived (store_at t b c) = activeReceiveBufferBytesReceived c"
  "parser (store_at t b c) = parser c" "sockfd (store_at t b c) = sockfd c" "connected (store_at t b c) = connected c"
  "outputBuffer (store_at t b c) = outputBuffer c" "outputLength (store_at t b c) = outputLength c"
  "bytesWritten (store_at t b c) = bytesWritten c"
  "hostname (store_at t b c) = hostname c" "username (store_at t b c) = username c"
  "password (store_at t b c) = password c" "channel (store_at t b c) = channel c"
  by (cases t; cases s; simp)+

lemma received_update_simps [simp]:
  "buffer_at s (c\<lparr>activeReceiveBufferBytesReceived := n\<rparr>) = buffer_at s c"
  "size_at s (c\<lparr>activeReceiveBufferBytesReceived := n\<rparr>) = size_at s c"
  "active_side (c\<lparr>activeReceiveBufferBytesReceived := n\<rparr>) = active_side c"
  "idle_side (c\<lparr>activeReceiveBufferBytesReceived := n\<rparr>) = idle_side c"
  by (cases s; simp add: active_side_def idle_side_def)+

lemma sides [simp]:
  "active_side c \<noteq> idle_side c" "idle_side c \<noteq> active_side c"
  "active_side (store_at t b c) = active_side c" "idle_side (store_at t b c) = idle_side c"
  by (simp_all add: active_side_def idle_side_def)

lemma swap_simps [simp]:
  "active_side (rsva11001_connection_swapBuffers c) = idle_side c"
  "idle_side (rsva11001_connection_swapBuffers c) = active_side c"
  "buffer_at s (rsva11001_connection_swapBuffers c) = buffer_at s c"
  "size_at s (rsva11001_connection_swapBuffers c) = size_at s c"
  "activeReceiveBuffer (rsva11001_connection_swapBuffers c) = Some (idle_side c)"
  "activeReceiveBufferSize (rsva11001_connection_swapBuffers c) = Some (idle_side c)"
  "activeReceiveBufferBytesReceived (rsva11001_connection_swapBuffers c) = activeReceiveBufferBytesReceived c"
  "parser (rsva11001_connection_swapBuffers c) = parser c" "sockfd (rsva11001_connection_swapBuffers c) = sockfd c"
  "connected (rsva11001_connection_swapBuffers c) = connected c"
  "outputBuffer (rsva11001_connection_swapBuffers c) = outputBuffer c"
  "outputLength (rsva11001_connection_swapBuffers c) = outputLength c"
  "bytesWritten (rsva11001_connection_swapBuffers c) = bytesWritten c"
  "hostname (rsva11001_connection_swapBuffers c) = hostname c" "username (rsva11001_connection_swapBuffers c) = username c"
  "password (rsva11001_connection_swapBuffers c) = password c" "channel (rsva11001_connection_swapBuffers c) = channel c"
  by (cases s; simp add: rsva11001_connection_swapBuffers_def Let_def active_side_def idle_side_def)+

lemma link_simps [simp]:
  "link (store_at t b c) = link c" "link (c\<lparr>activeReceiveBufferBytesReceived := n\<rparr>) = link c"
  "link (rsva11001_connection_swapBuffers c) = link c"
  by (simp_all add: link_def)

section \<open>Receiving, with the buffers in order\<close>

lemma recv_unfold:
  assumes "buffers_ok c" "hp_data p \<noteq> None" "buffer_at (active_side c) c = Some act"
    "r = activeReceiveBufferBytesReceived c"
  shows "rsva11001_connection_recv p data c =
    (if r = 32766 then Inl (Assert_failed In_connection_recv)
     else let n = min (length data) (32766 - r); buf = overwrite r (take n data) act
          in recv_frame buf data r ((store_at (active_side c) buf c)\<lparr>activeReceiveBufferBytesReceived := r + n\<rparr>))"
  using assms(1)
proof (rule buffers_okE)
  fix act' assume "buffer_at (active_side c) c = Some act'" "length act' = 32766"
    "size_at (active_side c) c = 32766" "activeReceiveBuffer c = Some (active_side c)"
    "activeReceiveBufferSize c = Some (active_side c)" "activeReceiveBufferBytesReceived c \<le> 32766"
  with assms show ?thesis
    by (auto simp: rsva11001_connection_recv_def recv_append_def Let_def min_def split: option.split)
qed

text \<open>The outcome of the callback, whatever the bytes are.\<close>

definition recv_result_ok :: "rsva11001_connection \<Rightarrow> (int \<times> bool \<times> rsva11001_connection) res \<Rightarrow> bool" where
  "recv_result_ok c r \<longleftrightarrow> (case r of Inl f \<Rightarrow> fault_site f = In_connection_recv
      | Inr (_, paused, c') \<Rightarrow> \<not> paused \<and> buffers_ok c' \<and> link c' = link c)"

lemma recv_result_ok_link: "link c1 = link c \<Longrightarrow> recv_result_ok c1 r = recv_result_ok c r"
  by (simp add: recv_result_ok_def split: sum.split)

lemma buffers_ok_store:
  assumes "buffers_ok c" "length buf = 32766" "n \<le> 32766"
  shows "buffers_ok ((store_at (active_side c) buf c)\<lparr>activeReceiveBufferBytesReceived := n\<rparr>)"
  using assms(1)
proof (rule buffers_okE)
  fix idl assume "buffer_at (idle_side c) c = Some idl" "length idl = 32766" "idle_ok idl"
    "size_at (active_side c) c = 32766" "activeReceiveBuffer c = Some (active_side c)"
    "activeReceiveBufferSize c = Some (active_side c)" "size_at (idle_side c) c = 32766"
  with assms(2,3) show ?thesis
    by (intro buffers_okI[where act = buf and idl = idl]) simp_all
qed

lemma buffers_ok_swap:
  assumes "buffers_ok c" "buffer_at (active_side c) c = Some buf" "idle_ok buf" "length new = 32766" "n \<le> 32766"
  shows "buffers_ok ((store_at (idle_side c) new (rsva11001_connection_swapBuffers c))
    \<lparr>activeReceiveBufferBytesReceived := n\<rparr>)"
  using assms(1)
proof (rule buffers_okE)
  fix act assume "buffer_at (active_side c) c = Some act" "length act = 32766"
    "size_at (active_side c) c = 32766" "size_at (idle_side c) c = 32766"
  with assms(2-5) show ?thesis
    by (intro buffers_okI[where act = new and idl = buf]) simp_all
qed

lemma recv_complete_ok:
  assumes "buffers_ok c" "buffer_at (active_side c) c = Some buf" "idle_ok buf"
  shows "recv_result_ok c (recv_complete data len old c)"
  using assms(1)
proof (rule buffers_okE)
  fix idl assume idl: "buffer_at (idle_side c) c = Some idl" "length idl = 32766"
  define fin where "fin = usub len old"
  define ov where "ov = usub (length data) fin"
  show ?thesis
  proof (cases "length data < fin + ov \<or> length idl < ov")
    case True
    with idl show ?thesis by (simp add: recv_complete_def Let_def recv_result_ok_def fin_def ov_def)
  next
    case False
    then have "length (overwrite 0 (slice fin ov data) idl) = 32766"
      using idl by (simp add: min_le_iff_disj)
    from buffers_ok_swap[OF assms this, of ov] False idl show ?thesis
      by (simp add: recv_complete_def Let_def recv_result_ok_def fin_def[symmetric] ov_def[symmetric])
  qed
qed

lemma recv_frame_ok:
  assumes "buffers_ok c" "buffer_at (active_side c) c = Some buf" "length buf = 32766"
  shows "recv_result_ok c (recv_frame buf data old c)"
proof -
  have "idle_ok buf" if "\<not> length buf < 8 + unat (ntohl (slice 4 4 buf)) + 4"
    using that by (simp add: idle_ok_def announced_def)
  with recv_complete_ok[OF assms(1,2)] assms(1) show ?thesis
    by (simp add: recv_frame_def Let_def recv_result_ok_def)
qed

lemma recv_ok:
  assumes "buffers_ok c"
  shows "recv_result_ok c (rsva11001_connection_recv p data c)"
proof (cases "hp_data p = None")
  case True
  then show ?thesis by (simp add: rsva11001_connection_recv_def recv_result_ok_def)
next
  case False
  from assms show ?thesis
  proof (rule buffers_okE)
    fix act assume act: "buffer_at (active_side c) c = Some act" "length act = 32766"
      "activeReceiveBufferBytesReceived c \<le> 32766"
    let ?r = "activeReceiveBufferBytesReceived c"
    let ?n = "min (length data) (32766 - ?r)"
    let ?buf = "overwrite ?r (take ?n data) act"
    let ?c = "(store_at (active_side c) ?buf c)\<lparr>activeReceiveBufferBytesReceived := ?r + ?n\<rparr>"
    have len: "length ?buf = 32766" using act by simp
    have "buffers_ok ?c" by (rule buffers_ok_store[OF assms len]) (use act in simp)
    from recv_frame_ok[OF this _ len, of data ?r]
    have "recv_result_ok ?c (recv_frame ?buf data ?r ?c)" by simp
    then have "recv_result_ok c (recv_frame ?buf data ?r ?c)" using recv_result_ok_link[of ?c c] by simp
    then show ?thesis
      using recv_unfold[OF assms False act(1) refl, of data]
      by (simp add: recv_result_ok_def Let_def)
  qed
qed

section \<open>Refinement of the reassembler\<close>

lemma slice_agree: "take k xs = take k ys \<Longrightarrow> i + m \<le> k \<Longrightarrow> slice i m xs = slice i m ys"
  by (metis slice_take)

lemma take_agree: "take k xs = take k ys \<Longrightarrow> m \<le> k \<Longrightarrow> take m xs = take m ys"
  by (metis min_absorb1 take_take)

lemma incomplete_length:
  assumes "\<not> complete_frame p" "well_framed (p @ data)"
  shows "length p < 32766" and "8 \<le> length (p @ data) \<Longrightarrow> length p < 12 + announced (p @ data)"
proof -
  show B: "length p < 12 + announced (p @ data)" if "8 \<le> length (p @ data)"
    using assms(1) announced_prefix[of p data] by (cases "8 \<le> length p") (auto simp: complete_frame_def)
  show "length p < 32766"
    using assms(2) B by (cases "8 \<le> length p") (auto simp: well_framed_def BASE_BUFFER_SIZE_def)
qed

text \<open>The bytes stay in the active buffer as long as they do not complete a frame.\<close>

lemma recv_frame_waits:
  assumes "buffer_at (active_side c) c = Some buf" "activeReceiveBufferBytesReceived c = k" "k \<le> length s"
    and "take k buf = take k s" and "8 \<le> k \<Longrightarrow> take 4 s = HEADER" and "8 \<le> k \<Longrightarrow> k < 12 + announced s"
    and "12 + announced s < 2 ^ 32"
  shows "recv_frame buf data old c = Inr (0, False, c)"
proof (cases "k < 8")
  case True
  with assms(2) show ?thesis by (simp add: recv_frame_def)
next
  case False
  then have h: "take 4 s = HEADER" and len: "k < 12 + announced s" using assms(5,6) by simp_all
  have "announced buf = announced s"
    using announced_take[of k buf] announced_take[of k s] False assms(4) by simp
  moreover have "take 4 buf = take 4 s" using False take_agree[OF assms(4), of 4] by simp
  ultimately show ?thesis
    using h len assms(2,7) total_length[of "ntohl (slice 4 4 buf)"] by (simp add: recv_frame_def Let_def announced_def)
qed

text \<open>When they do, the buffers are swapped and what follows the frame starts the next one.\<close>

lemma recv_frame_completes:
  assumes ok: "buffers_ok c" and act: "buffer_at (active_side c) c = Some buf"
    and got: "activeReceiveBufferBytesReceived c = k" "k \<le> length (p @ data)" "take k buf = take k (p @ data)"
    and p: "\<not> complete_frame p" "well_framed (p @ data)" and k: "8 \<le> k" "12 + announced (p @ data) \<le> k"
    and len: "length data \<le> 32766" "length buf = 32766"
  defines "T \<equiv> 12 + announced (p @ data)"
  obtains idl where "recv_frame buf data (length p) c =
      Inr (0, False, (store_at (idle_side c) (overwrite 0 (drop T (p @ data)) idl) (rsva11001_connection_swapBuffers c))
        \<lparr>activeReceiveBufferBytesReceived := length (p @ data) - T\<rparr>)"
    and "length idl = 32766" and "idle_ok buf" and "image_in buf = Some (slice 8 (announced (p @ data)) (p @ data))"
proof -
  let ?s = "p @ data"
  have long: "8 \<le> length ?s" "complete_frame ?s" using got(2) k by (auto simp: complete_frame_def)
  then have h: "take 4 ?s = HEADER" "T \<le> 32766" "slice (8 + announced ?s) 4 ?s = FOOTER"
    using p(2) by (auto simp: well_framed_def BASE_BUFFER_SIZE_def T_def)
  have lp: "length p < T" using incomplete_length(2)[OF p long(1)] by (simp add: T_def)
  have b: "take 4 buf = HEADER" "slice 4 4 buf = slice 4 4 ?s" "slice (8 + announced ?s) 4 buf = FOOTER"
    "slice 8 (announced ?s) buf = slice 8 (announced ?s) ?s"
    using take_agree[OF got(3), of 4] slice_agree[OF got(3)] h k by simp_all
  then have ann: "announced buf = announced ?s" by (simp add: announced_def)
  have j: "unat (ntohl (slice 4 4 buf)) = announced ?s" using ann by (simp add: announced_def)
  have tot: "unat (HEADER_SIZE + ntohl (slice 4 4 buf) + FOOTER_SIZE) = T"
    using total_length[of "ntohl (slice 4 4 buf)"] h(2) j by (simp add: T_def)
  from ok obtain idl where idl: "buffer_at (idle_side c) c = Some idl" "length idl = 32766"
    by (rule buffers_okE)
  have fin: "usub T (length p) = T - length p" using lp h(2) by simp
  have T: "T \<le> length p + length data" using k got(2) by (simp add: T_def)
  then have ov: "usub (length data) (T - length p) = length ?s - T" using lp len by simp
  have sl: "slice (T - length p) (length ?s - T) data = drop T ?s"
    using lp T by (simp add: slice_def)
  have "recv_complete data T (length p) c =
      Inr (0, False, (store_at (idle_side c) (overwrite 0 (drop T ?s) idl) (rsva11001_connection_swapBuffers c))
        \<lparr>activeReceiveBufferBytesReceived := length ?s - T\<rparr>)"
    unfolding recv_complete_def Let_def fin ov sl using idl lp T len by simp
  then have "recv_frame buf data (length p) c =
      Inr (0, False, (store_at (idle_side c) (overwrite 0 (drop T ?s) idl) (rsva11001_connection_swapBuffers c))
        \<lparr>activeReceiveBufferBytesReceived := length ?s - T\<rparr>)"
    unfolding recv_frame_def Let_def tot j
    using b k got(1) h(2) len(2) by (simp add: T_def)
  moreover have "idle_ok buf" using ann h(2) len(2) by (simp add: idle_ok_def T_def)
  moreover have "image_in buf = Some (slice 8 (announced ?s) ?s)" using b ann by (simp add: image_in_def)
  ultimately show thesis using that idl(2) by blast
qed

lemma pending_length: "buffers_ok c \<Longrightarrow> length (pending c) = activeReceiveBufferBytesReceived c"
  by (erule buffers_okE) (simp add: pending_def)

lemma pending_image_update:
  "pending ((store_at (active_side c) b c)\<lparr>activeReceiveBufferBytesReceived := n\<rparr>) = take n b"
  "latest_image ((store_at (active_side c) b c)\<lparr>activeReceiveBufferBytesReceived := n\<rparr>) = latest_image c"
  "pending ((store_at (idle_side c) b (rsva11001_connection_swapBuffers c))\<lparr>activeReceiveBufferBytesReceived := n\<rparr>) = take n b"
  "latest_image ((store_at (idle_side c) b (rsva11001_connection_swapBuffers c))\<lparr>activeReceiveBufferBytesReceived := n\<rparr>)
     = image_in (the (buffer_at (active_side c) c))"
  by (simp_all add: pending_def latest_image_def)

theorem recv_refines_feed:
  assumes ok: "buffers_ok c" and d: "hp_data p \<noteq> None" and len: "length data \<le> 32766"
    and open_frame: "\<not> complete_frame (pending c)" and wf: "well_framed (pending c @ data)"
  obtains c' where "rsva11001_connection_recv p data c = Inr (0, False, c')" "buffers_ok c'"
    "abstract c' = feed (abstract c) data" "link c' = link c"
proof -
  let ?r = "activeReceiveBufferBytesReceived c" and ?s = "pending c @ data"
  from ok obtain act where act: "buffer_at (active_side c) c = Some act" "length act = 32766" "?r \<le> 32766"
    by (rule buffers_okE)
  have lp: "length (pending c) = ?r" by (rule pending_length[OF ok])
  have r: "?r < 32766" using incomplete_length(1)[OF open_frame wf] lp by simp
  define n where "n = min (length data) (32766 - ?r)"
  define buf where "buf = overwrite ?r (take n data) act"
  define c1 where "c1 = (store_at (active_side c) buf c)\<lparr>activeReceiveBufferBytesReceived := ?r + n\<rparr>"
  have n: "n \<le> length data" "?r + n \<le> 32766" using r by (auto simp: n_def)
  have buf: "length buf = 32766" "take (?r + n) buf = take (?r + n) ?s"
    using take_overwrite[of ?r "take n data" act] n act(2) lp
    by (simp_all add: buf_def pending_def act(1) min_absorb2)
  have c1: "buffers_ok c1" "buffer_at (active_side c1) c1 = Some buf" "activeReceiveBufferBytesReceived c1 = ?r + n"
    "link c1 = link c" "latest_image c1 = latest_image c"
    using buffers_ok_store[OF ok buf(1) n(2)] by (simp_all add: c1_def pending_image_update)
  have eq: "rsva11001_connection_recv p data c = recv_frame buf data ?r c1"
    using recv_unfold[OF ok d act(1) refl, of data] r by (simp add: n_def buf_def c1_def Let_def)
  show thesis
  proof (cases "complete_frame ?s")
    case False
    have "length ?s < 32766"
      using False wf by (auto simp: complete_frame_def well_framed_def BASE_BUFFER_SIZE_def)
    then have full: "?r + n = length ?s" using lp by (simp add: n_def)
    have "recv_frame buf data ?r c1 = Inr (0, False, c1)"
    proof (cases "8 \<le> length ?s")
      case True
      then have "take 4 ?s = HEADER" "12 + announced ?s < 2 ^ 32" "length ?s < 12 + announced ?s"
        using False wf by (auto simp: complete_frame_def well_framed_def BASE_BUFFER_SIZE_def)
      then show ?thesis
        by (intro recv_frame_waits[where s = ?s and k = "length ?s"]) (use c1 full buf(2) in simp_all)
    next
      case False
      then show ?thesis using c1(3) full by (simp add: recv_frame_def)
    qed
    moreover have "abstract c1 = feed (abstract c) data"
      using False full buf(2) c1(5)
      by (simp add: abstract_def feed_def Let_def) (simp add: c1_def pending_image_update)
    ultimately show thesis using that[of c1] eq c1 by simp
  next
    case True
    let ?T = "12 + announced ?s"
    have T: "8 \<le> ?r + n" "?T \<le> ?r + n" "?r + n \<le> length ?s"
      using True wf lp by (auto simp: complete_frame_def well_framed_def BASE_BUFFER_SIZE_def n_def)
    from recv_frame_completes[OF c1(1-3) T(3) buf(2) open_frame wf T(1,2) len buf(1)] obtain idl where
      res: "recv_frame buf data (length (pending c)) c1 =
        Inr (0, False, (store_at (idle_side c1) (overwrite 0 (drop ?T ?s) idl) (rsva11001_connection_swapBuffers c1))
          \<lparr>activeReceiveBufferBytesReceived := length ?s - ?T\<rparr>)" (is "_ = Inr (0, False, ?c2)")
      and idl: "length idl = 32766" "idle_ok buf" "image_in buf = Some (slice 8 (announced ?s) ?s)" .
    have fits: "length ?s - ?T \<le> 32766" using len T incomplete_length(2)[OF open_frame wf] lp by simp
    then have "buffers_ok ?c2"
      by (intro buffers_ok_swap[OF c1(1,2) idl(2)]) (use idl(1) in simp_all)
    moreover have "take (length ?s - ?T) (overwrite 0 (drop ?T ?s) idl) = drop ?T ?s"
      using take_overwrite_0[of "drop ?T ?s" idl] unfolding length_drop .
    then have "abstract ?c2 = feed (abstract c) data"
      using True idl(3) c1(2) by (simp add: abstract_def feed_def Let_def pending_image_update)
    ultimately show thesis using that[of ?c2] eq res lp c1(4) by simp
  qed
qed

section \<open>Streams of frames\<close>

text \<open>Frames so long that no two of them end in the same piece of data, and so short that they fit.\<close>

definition frame_sized :: "bytes \<Rightarrow> bool" where
  "frame_sized img \<longleftrightarrow> 16371 \<le> length img \<and> length img \<le> 32754"

definition frames :: "bytes list \<Rightarrow> bytes" where
  "frames imgs = concat (map encode_frame imgs)"

lemma frames_Cons [simp]: "frames (img # imgs) = encode_frame img @ frames imgs"
  by (simp add: frames_def)

lemma frames_Nil [simp]: "frames [] = []"
  by (simp add: frames_def)

lemma encode_frame_parts:
  assumes "length img < 2 ^ 32"
  shows "take 4 (encode_frame img @ t) = HEADER" "slice 8 (length img) (encode_frame img @ t) = img"
    "slice (8 + length img) 4 (encode_frame img @ t) = FOOTER"
  by (simp_all add: encode_frame_def slice_def)

text \<open>What a reassembler makes of a prefix of a stream: the images that are complete, and the rest.\<close>

lemma prefix_of_frames:
  assumes "s @ t = frames (img # imgs)" "length img \<le> 32754"
  shows "well_framed s" and "complete_frame s \<longleftrightarrow> 12 + length img \<le> length s"
    and "12 + length img \<le> length s \<Longrightarrow> s = encode_frame img @ drop (12 + length img) s"
    and "8 \<le> length s \<Longrightarrow> announced s = length img"
proof -
  let ?f = "encode_frame img @ frames imgs"
  have s: "s = take (length s) ?f" by (metis append_eq_conv_conj assms(1) frames_Cons)
  have img: "length img < 2 ^ 32" using assms(2) by simp
  show ann: "announced s = length img" if "8 \<le> length s"
    using announced_take[OF that, of ?f] announced_encode[OF img, of "frames imgs"] s by simp
  show c: "complete_frame s \<longleftrightarrow> 12 + length img \<le> length s"
    using ann by (cases "8 \<le> length s") (auto simp: complete_frame_def)
  show split: "s = encode_frame img @ drop (12 + length img) s" if "12 + length img \<le> length s"
  proof -
    have "take (12 + length img) s = encode_frame img"
      using that by (subst s) (simp add: length_encode_frame min_absorb1)
    then show ?thesis by (metis append_take_drop_id)
  qed
  have "take 4 s = HEADER" if "8 \<le> length s"
    using encode_frame_parts(1)[OF img, of "frames imgs"] that take_agree[of "length s" s ?f 4] s by simp
  moreover have "slice (8 + announced s) 4 s = FOOTER" if "complete_frame s"
    using split encode_frame_parts(3)[OF img, of "drop (12 + length img) s"] that c ann
    by (simp add: complete_frame_def)
  ultimately show "well_framed s"
    using ann assms(2) by (simp add: well_framed_def BASE_BUFFER_SIZE_def)
qed

text \<open>
  The stream theorem on the abstract level. One piece of data of a stream of frames, fed to a
  reassembler that holds the beginning of its first frame.
\<close>

lemma feed_frames:
  assumes stream: "p @ data @ rest = frames imgs" and sized: "\<forall>img\<in>set imgs. frame_sized img"
    and p: "\<not> complete_frame p" and len: "length data \<le> 16383"
  obtains ds imgs' p' where "imgs = ds @ imgs'" "feed (img, p) data = ((if ds = [] then img else Some (last ds)), p')"
    "p' @ rest = frames imgs'" "\<not> complete_frame p'" "well_framed (p @ data)"
proof (cases imgs)
  case Nil
  with stream have "p = []" "data = []" "rest = []" by simp_all
  with Nil that[of "[]" "[]" "[]"] show thesis by (simp add: feed_def complete_frame_def well_framed_def)
next
  case (Cons i more)
  have i: "16371 \<le> length i" "length i \<le> 32754" using sized Cons by (simp_all add: frame_sized_def)
  have st: "(p @ data) @ rest = frames (i # more)" using stream Cons by simp
  note pre = prefix_of_frames[OF st i(2)]
  show thesis
  proof (cases "complete_frame (p @ data)")
    case False
    with that[of "[]" imgs "p @ data"] stream pre(1) show thesis by (simp add: feed_def Let_def)
  next
    case True
    define q where "q = drop (12 + length i) (p @ data)"
    have split: "p @ data = encode_frame i @ q" unfolding q_def using pre(2,3) True by blast
    have "p @ (data @ rest) = frames (i # more)" using stream Cons by simp
    from prefix_of_frames(2)[OF this i(2)] p have "length p < 12 + length i" by simp
    then have "length q < length data" using split by (metis add_less_cancel_right length_append length_encode_frame add.commute)
    then have short: "length q < 16383" using len by simp
    have rest: "q @ rest = frames more" using st split by simp
    have "\<not> complete_frame q"
    proof (cases more)
      case Nil
      then show ?thesis using rest by (simp add: complete_frame_def)
    next
      case (Cons j js)
      then have "16371 \<le> length j" "length j \<le> 32754" using sized \<open>imgs = i # more\<close> by (simp_all add: frame_sized_def)
      with prefix_of_frames(2)[of q rest j js] rest Cons short show ?thesis by simp
    qed
    moreover have "feed (img, p) data = (Some i, q)"
    proof -
      have ann: "announced (p @ data) = length i" using pre(4) True by (simp add: complete_frame_def)
      have "slice 8 (length i) (p @ data) = i"
        unfolding split by (rule encode_frame_parts(2)) (use i(2) in simp)
      with True ann show ?thesis by (simp only: feed_def Let_def fst_conv snd_conv q_def if_True)
    qed
    ultimately show thesis using that[of "[i]" more q] Cons rest pre(1) by simp
  qed
qed

end
