(* ===== verification/Rsva_Session.thy ===== *)
theory Rsva_Session
  imports Rsva_Frames
begin

text \<open>
  The operations of \<^verbatim>\<open>rsva11001.c\<close> that use the socket: opening, processing, closing and
  destroying a connection. What the operating system answers is an argument: one record for
  \<^verbatim>\<open>open\<close>, one for \<^verbatim>\<open>process\<close>. The calls of \<^verbatim>\<open>send\<close> and \<^verbatim>\<open>recv\<close> in a loop take their
  answers from a list (a \<^verbatim>\<open>send\<close> answers with a function of the number of bytes it is given); a
  loop whose list is used up has not returned, which is \<^theory_text>\<open>None\<close>.
\<close>

section \<open>The platform\<close>

text \<open>\<^verbatim>\<open>__FILE__\<close>, the messages of \<^verbatim>\<open>strerror_r\<close>, and the error numbers of Linux.\<close>

record platform =
  file_name :: string
  strerror :: "int \<Rightarrow> string"

definition EAGAIN :: int where "EAGAIN = 11"
definition EINPROGRESS :: int where "EINPROGRESS = 115"

text \<open>\<^verbatim>\<open>snprintf(buf, n, ...)\<close> of a text on a buffer of at least \<^theory_text>\<open>n\<close> bytes.\<close>

definition snprintf_into :: "nat \<Rightarrow> string \<Rightarrow> bytes \<Rightarrow> bytes" where
  "snprintf_into n txt buf = overwrite 0 (take (n - 1) txt @ [NUL]) buf"

definition setLastError :: "platform \<Rightarrow> nat \<Rightarrow> string \<Rightarrow> int \<Rightarrow> rsva11001_connection \<Rightarrow> rsva11001_connection" where
  "setLastError pf line func err c =
     c\<lparr>lastError := take 255 (file_name pf @ '':'' @ decimal line @ '':'' @ func @ '' '' @ strerror pf err)\<rparr>"

text \<open>
  What is given back to the system, in order: the parts of a connection, the connection itself and
  the SCGI server.
\<close>

datatype release = Close_fd int | Free "bytes option" | Free_connection | Destroy_server | Free_server

section \<open>Opening\<close>

text \<open>The answers of the calls \<^verbatim>\<open>open\<close> makes; a pair of ints is a result and its \<^verbatim>\<open>errno\<close>.\<close>

record open_env =
  env_socket :: "int \<times> int"
  env_getaddrinfo :: "int \<times> int"
  env_connect :: "int \<times> int"
  env_malloc_output :: "bytes option"
  env_malloc_errno :: int
  env_malloc_pong :: "bytes option"
  env_malloc_ping :: "bytes option"

definition outputBufferSize :: nat where "outputBufferSize = 512"

definition CRLF :: string where "CRLF = [CR, LF]"

text \<open>The text of the request.\<close>

definition http_request :: "platform \<Rightarrow> rsva11001_connection \<Rightarrow> string" where
  "http_request pf c =
     ''GET '' @ HTTP_PATH @ ''?'' @ username c @ ''&'' @ password c @
     ''&PTZCONTROL=CH'' @ decimal (unat (channel c)) @ CRLF @
     ''User-Agent: '' @ file_name pf @ CRLF @
     ''Accept: */*'' @ CRLF @
     ''Host: '' @ hostname c @ CRLF @
     ''Connection: Close'' @ CRLF @ CRLF"

text \<open>\<^verbatim>\<open>bzero(buffer, size)\<close>.\<close>

definition bzero_buffer :: "bytes option \<Rightarrow> nat \<Rightarrow> bytes option res" where
  "bzero_buffer b n =
     (case b of
        None \<Rightarrow> Inl (Null_pointer In_connection_open)
      | Some bs \<Rightarrow>
          if length bs < n then Inl (Out_of_bounds In_connection_open)
          else Inr (Some (overwrite 0 (replicate n NUL) bs)))"

text \<open>The two receive buffers: allocated at the first \<^verbatim>\<open>open\<close>, cleared at every one.\<close>

definition open_buffers :: "open_env \<Rightarrow> rsva11001_connection \<Rightarrow> rsva11001_connection res" where [conn_defs]:
  "open_buffers env c =
     (let c = (if pongReceiveBuffer c = None
               then c\<lparr>pongReceiveBuffer := env_malloc_pong env, pongReceiveBufferSize := BASE_BUFFER_SIZE\<rparr> else c)
      in rbind (bzero_buffer (pongReceiveBuffer c) (pongReceiveBufferSize c)) (\<lambda>pong.
         let c = c\<lparr>pongReceiveBuffer := pong\<rparr>;
             c = (if pingReceiveBuffer c = None
                  then c\<lparr>pingReceiveBuffer := env_malloc_ping env, pingReceiveBufferSize := BASE_BUFFER_SIZE\<rparr> else c)
         in rbind (bzero_buffer (pingReceiveBuffer c) (pingReceiveBufferSize c)) (\<lambda>png.
            Inr (c\<lparr>pingReceiveBuffer := png, ping := True, activeReceiveBuffer := Some Ping,
                   activeReceiveBufferSize := Some Ping, activeReceiveBufferBytesReceived := 0,
                   parser := http_parser_init (parser c) HTTP_RESPONSE\<rparr>))))"

text \<open>The request is written and the buffers are made; the socket is connecting.\<close>

definition open_request :: "platform \<Rightarrow> open_env \<Rightarrow> bytes \<Rightarrow> rsva11001_connection \<Rightarrow> (bool \<times> rsva11001_connection) res" where [conn_defs]:
  "open_request pf env out c =
     (let txt = http_request pf c;
          c = c\<lparr>outputBuffer := Some (snprintf_into outputBufferSize txt out)\<rparr>
      in if length txt = outputBufferSize then Inr (False, c)
         else rbind (open_buffers env (c\<lparr>outputLength := length txt, bytesWritten := 0\<rparr>)) (\<lambda>c. Inr (True, c)))"

text \<open>With the descriptors that are closed on the way: a failure closes the socket and forgets it.\<close>

definition open_output_closing ::
  "platform \<Rightarrow> open_env \<Rightarrow> rsva11001_connection \<Rightarrow> (bool \<times> release list \<times> rsva11001_connection) res" where
  "open_output_closing pf env c =
     (let c = c\<lparr>connected := False\<rparr>
      in case (case outputBuffer c of None \<Rightarrow> env_malloc_output env | Some b \<Rightarrow> Some b) of
           None \<Rightarrow>
             Inr (False, [Close_fd (sockfd c)],
               (setLastError pf 420 ''rsva11001_connection_open'' (env_malloc_errno env) c)\<lparr>sockfd := - 1\<rparr>)
         | Some out \<Rightarrow> rbind (open_request pf env out c) (\<lambda>(ok, c). Inr (ok, [], c)))"

definition rsva11001_connection_open_closing ::
  "platform \<Rightarrow> open_env \<Rightarrow> rsva11001_connection \<Rightarrow> (bool \<times> release list \<times> rsva11001_connection) res" where
  "rsva11001_connection_open_closing pf env c =
     (let func = ''rsva11001_connection_open''
      in if sockfd c \<noteq> - 1 then Inr (True, [], c)
         else
           (let c = c\<lparr>sockfd := fst (env_socket env)\<rparr>
            in if sockfd c = - 1 then Inr (False, [], setLastError pf 355 func (snd (env_socket env)) c)
               else if fst (env_getaddrinfo env) \<noteq> 0
               then Inr (False, [Close_fd (sockfd c)], (setLastError pf 374 func (snd (env_getaddrinfo env)) c)\<lparr>sockfd := - 1\<rparr>)
               else if fst (env_connect env) \<noteq> 0 \<and> snd (env_connect env) \<noteq> EINPROGRESS
               then Inr (False, [Close_fd (sockfd c)], (setLastError pf 395 func (snd (env_connect env)) c)\<lparr>sockfd := - 1\<rparr>)
               else open_output_closing pf env c))"

text \<open>The result and the connection alone, as the callers use them.\<close>

definition without_closed :: "(bool \<times> release list \<times> rsva11001_connection) res \<Rightarrow> (bool \<times> rsva11001_connection) res" where
  "without_closed r = rbind r (\<lambda>(ok, closed, c). Inr (ok, c))"

definition open_output :: "platform \<Rightarrow> open_env \<Rightarrow> rsva11001_connection \<Rightarrow> (bool \<times> rsva11001_connection) res" where
  "open_output pf env c = without_closed (open_output_closing pf env c)"

definition rsva11001_connection_open ::
  "platform \<Rightarrow> open_env \<Rightarrow> rsva11001_connection \<Rightarrow> (bool \<times> rsva11001_connection) res" where
  "rsva11001_connection_open pf env c = without_closed (rsva11001_connection_open_closing pf env c)"

lemma open_output_eq [conn_defs]:
  "open_output pf env c =
     (let c = c\<lparr>connected := False\<rparr>
      in case (case outputBuffer c of None \<Rightarrow> env_malloc_output env | Some b \<Rightarrow> Some b) of
           None \<Rightarrow> Inr (False, (setLastError pf 420 ''rsva11001_connection_open'' (env_malloc_errno env) c)\<lparr>sockfd := - 1\<rparr>)
         | Some out \<Rightarrow> open_request pf env out c)"
  by (auto simp: open_output_def open_output_closing_def without_closed_def rbind_def Let_def split: option.split sum.split)

lemma open_eq [conn_defs]:
  "rsva11001_connection_open pf env c =
     (let func = ''rsva11001_connection_open''
      in if sockfd c \<noteq> - 1 then Inr (True, c)
         else
           (let c = c\<lparr>sockfd := fst (env_socket env)\<rparr>
            in if sockfd c = - 1 then Inr (False, setLastError pf 355 func (snd (env_socket env)) c)
               else if fst (env_getaddrinfo env) \<noteq> 0
               then Inr (False, (setLastError pf 374 func (snd (env_getaddrinfo env)) c)\<lparr>sockfd := - 1\<rparr>)
               else if fst (env_connect env) \<noteq> 0 \<and> snd (env_connect env) \<noteq> EINPROGRESS
               then Inr (False, (setLastError pf 395 func (snd (env_connect env)) c)\<lparr>sockfd := - 1\<rparr>)
               else open_output pf env c))"
  by (simp add: rsva11001_connection_open_def rsva11001_connection_open_closing_def open_output_def Let_def)
    (simp add: without_closed_def)

section \<open>Processing\<close>

datatype recv_answer = Received bytes | Recv_error int

record process_env =
  env_poll :: "int \<times> int"
  env_pollout :: bool
  env_getsockopt :: "int \<times> int"
  env_optlen :: nat
  env_opt :: int
  env_send :: "(nat \<Rightarrow> int \<times> int) list"
  env_recv :: "recv_answer list"

text \<open>A part of \<^verbatim>\<open>process\<close> returns from the function, or the function goes on.\<close>

datatype part = Returns bool rsva11001_connection | Continues rsva11001_connection

text \<open>The check that the asynchronous \<^verbatim>\<open>connect\<close> has succeeded.\<close>

definition check_connected :: "platform \<Rightarrow> process_env \<Rightarrow> rsva11001_connection \<Rightarrow> part" where [conn_defs]:
  "check_connected pf env c =
     (let func = ''rsva11001_connection_process''; numEvents = fst (env_poll env)
      in if connected c then Continues c
         else if numEvents < 0 then Returns False (setLastError pf 529 func (snd (env_poll env)) c)
         else if numEvents = 0 then Returns True c
         else if numEvents = 1 \<and> \<not> env_pollout env then Returns False c
         else if fst (env_getsockopt env) \<noteq> 0
         then Returns False (setLastError pf 555 func (snd (env_getsockopt env)) c)
         else if env_optlen env \<noteq> 4 then Returns False c
         else if env_opt env \<noteq> 0 then Returns False c
         else Continues (c\<lparr>connected := True\<rparr>))"

text \<open>The loop that sends what is left of the request.\<close>

fun send_loop :: "platform \<Rightarrow> (nat \<Rightarrow> int \<times> int) list \<Rightarrow> rsva11001_connection \<Rightarrow> part option res" where
  "send_loop pf answers c =
     (if bytesWritten c = outputLength c then Inr (Some (Continues c))
      else
        (case outputBuffer c of
           None \<Rightarrow> Inl (Null_pointer In_connection_process)
         | Some buf \<Rightarrow>
             (if length buf < bytesWritten c + usub (outputLength c) (bytesWritten c)
              then Inl (Out_of_bounds In_connection_process)
              else
                (case answers of
                   [] \<Rightarrow> Inr None
                 | answer # others \<Rightarrow>
                     (case answer (usub (outputLength c) (bytesWritten c)) of
                        (sendResult, err) \<Rightarrow>
                          if sendResult = 0 then Inr (Some (Returns False c))
                          else if sendResult = - 1
                          then
                            (if err = EAGAIN then Inr (Some (Continues c))
                             else Inr (Some (Returns False (setLastError pf 605 ''rsva11001_connection_process'' err c))))
                          else send_loop pf others
                                 (c\<lparr>bytesWritten := (bytesWritten c + nat (sendResult mod 2 ^ 64)) mod 2 ^ 64\<rparr>))))))"

declare send_loop.simps [simp del]

text \<open>The loop that receives: the result of \<^verbatim>\<open>http_parser_execute\<close> is not looked at.\<close>

fun recv_loop :: "platform \<Rightarrow> recv_answer list \<Rightarrow> rsva11001_connection \<Rightarrow> (bool \<times> rsva11001_connection) option res" where
  "recv_loop pf [] c = Inr None"
| "recv_loop pf (Received buffer # others) c =
     (if buffer = [] then Inr (Some (False, c))
      else rbind (http_parser_execute rsva_settings (parser c) buffer c) (\<lambda>(n, p, c'). recv_loop pf others (c'\<lparr>parser := p\<rparr>)))"
| "recv_loop pf (Recv_error err # others) c =
     (if err = EAGAIN then Inr (Some (True, c))
      else Inr (Some (False, setLastError pf 645 ''rsva11001_connection_process'' err c)))"

definition rsva11001_connection_process ::
  "platform \<Rightarrow> process_env \<Rightarrow> rsva11001_connection \<Rightarrow> (bool \<times> rsva11001_connection) option res" where [conn_defs]:
  "rsva11001_connection_process pf env c =
     (if sockfd c = - 1 then Inl (Assert_failed In_connection_process)
      else
        (case check_connected pf env c of
           Returns b c \<Rightarrow> Inr (Some (b, c))
         | Continues c \<Rightarrow>
             rbind (send_loop pf (env_send env) c) (\<lambda>r.
               case r of
                 None \<Rightarrow> Inr None
               | Some (Returns b c) \<Rightarrow> Inr (Some (b, c))
               | Some (Continues c) \<Rightarrow> recv_loop pf (env_recv env) c)))"

section \<open>Closing\<close>

definition rsva11001_connection_close :: "platform \<Rightarrow> int \<times> int \<Rightarrow> rsva11001_connection \<Rightarrow> bool \<times> rsva11001_connection" where [conn_defs]:
  "rsva11001_connection_close pf answer c =
     (if sockfd c = - 1 then (True, c)
      else if fst answer \<noteq> 0
      then (False, setLastError pf 678 ''rsva11001_connection_close'' (snd answer) c)
      else (True, c\<lparr>sockfd := - 1\<rparr>))"

definition rsva11001_connection_destroy :: "rsva11001_connection \<Rightarrow> release list" where [conn_defs]:
  "rsva11001_connection_destroy c =
     (if sockfd c \<noteq> - 1 then [Close_fd (sockfd c)] else []) @
     [Free (outputBuffer c), Free (pingReceiveBuffer c), Free (pongReceiveBuffer c)]"

end
