(* ===== verification/Rsva_Stream.thy ===== *)
theory Rsva_Stream
  imports Rsva_Session Http_Invariant
begin

text \<open>
  The connection's promises. The contract of the parser's callbacks holds for the settings of
  a connection, so \<^verbatim>\<open>process\<close> keeps the invariants of the parser and of the buffers, and the only
  faults it can run into are those of \<^verbatim>\<open>rsva11001_connection_recv\<close>. A stream of well-sized
  frames meets none of these, and its last complete image is the one a reader gets.
\<close>

section \<open>The contract of the callbacks\<close>

interpretation rsva: callback_contract rsva_settings "\<lambda>c. buffers_ok c \<and> link c = L"
  "\<lambda>f. fault_site f = In_connection_recv" N for L N
proof unfold_locales
  fix f s p
  assume "Some f \<in> notify_callbacks rsva_settings"
  then show "callback_ok (\<lambda>c. buffers_ok c \<and> link c = L) (\<lambda>f. fault_site f = In_connection_recv) (f p s)"
    by (simp add: notify_callbacks_def rsva_settings_def)
next
  fix g s d p
  assume "Some g \<in> data_callbacks rsva_settings" "buffers_ok s \<and> link s = L"
  then have "g = rsva11001_connection_recv" "buffers_ok s" "link s = L"
    by (simp_all add: data_callbacks_def rsva_settings_def)
  with recv_ok[of s p d] show "callback_ok (\<lambda>c. buffers_ok c \<and> link c = L) (\<lambda>f. fault_site f = In_connection_recv) (g p d s)"
    by (auto simp: callback_ok_def recv_result_ok_def split: sum.splits)
qed

lemma buffers_ok_parser [simp]: "buffers_ok (c\<lparr>parser := p\<rparr>) = buffers_ok c"
  by (cases "ping c") (simp_all add: buffers_ok_def has_buffer_def active_side_def idle_side_def)

lemma buffers_ok_other [simp]:
  "buffers_ok (setLastError pf n f e c) = buffers_ok c" "buffers_ok (c\<lparr>sockfd := s\<rparr>) = buffers_ok c"
  "buffers_ok (c\<lparr>connected := b\<rparr>) = buffers_ok c" "buffers_ok (c\<lparr>bytesWritten := n\<rparr>) = buffers_ok c"
  by (cases "ping c"; simp add: buffers_ok_def has_buffer_def active_side_def idle_side_def setLastError_def)+

lemma setLastError_simps [simp]:
  "parser (setLastError pf n f e c) = parser c" "sockfd (setLastError pf n f e c) = sockfd c"
  "outputBuffer (setLastError pf n f e c) = outputBuffer c" "outputLength (setLastError pf n f e c) = outputLength c"
  "bytesWritten (setLastError pf n f e c) = bytesWritten c"
  by (simp_all add: setLastError_def)

section \<open>The invariant of an open connection\<close>

text \<open>What \<^verbatim>\<open>configure\<close> checks.\<close>

definition configured :: "rsva11001_connection \<Rightarrow> bool" where
  "configured c \<longleftrightarrow> length (hostname c) < 64 \<and> length (username c) < 64 \<and> length (password c) < 64 \<and>
     MIN_CHAN \<le> channel c \<and> channel c \<le> MAX_CHAN"

definition connection_ok :: "rsva11001_connection \<Rightarrow> bool" where
  "connection_ok c \<longleftrightarrow> buffers_ok c \<and> configured c \<and> parser_ok (parser c) \<and> sockfd c \<noteq> - 1 \<and>
     outputBuffer c \<noteq> None \<and> bytesWritten c \<le> outputLength c \<and> outputLength c < outputBufferSize \<and>
     length (the (outputBuffer c)) = outputBufferSize"

lemma configured_simps [simp]:
  "configured (setLastError pf n f e c) = configured c" "configured (c\<lparr>sockfd := s\<rparr>) = configured c"
  "configured (c\<lparr>connected := b\<rparr>) = configured c" "configured (c\<lparr>bytesWritten := k\<rparr>) = configured c"
  "configured (c\<lparr>parser := p\<rparr>) = configured c"
  by (simp_all add: configured_def setLastError_def)

text \<open>The outcome of a function on a connection: only the reassembly of frames can fault.\<close>

definition outcome_ok :: "(bool \<times> rsva11001_connection) option res \<Rightarrow> bool" where
  "outcome_ok r \<longleftrightarrow> (case r of Inl f \<Rightarrow> fault_site f = In_connection_recv
      | Inr None \<Rightarrow> True | Inr (Some (_, c')) \<Rightarrow> connection_ok c')"

lemma execute_connection_ok:
  assumes "connection_ok c"
  shows "case http_parser_execute rsva_settings (parser c) buffer c of Inl f \<Rightarrow> fault_site f = In_connection_recv
    | Inr (n, p, c') \<Rightarrow> connection_ok (c'\<lparr>parser := p\<rparr>)"
proof -
  have "call_ok (\<lambda>c'. buffers_ok c' \<and> link c' = link c) (\<lambda>f. fault_site f = In_connection_recv)
      (http_parser_execute rsva_settings (parser c) buffer c)"
    by (rule rsva.http_parser_execute_ok[where N = "length buffer"])
      (use assms in \<open>simp_all add: connection_ok_def\<close>)
  with assms show ?thesis
    by (auto simp: call_ok_def connection_ok_def link_def configured_def split: sum.splits)
qed

lemma recv_loop_ok: "connection_ok c \<Longrightarrow> outcome_ok (recv_loop pf answers c)"
proof (induction pf answers c rule: recv_loop.induct)
  case (1 pf c)
  then show ?case by (simp add: outcome_ok_def)
next
  case (2 pf buffer others c)
  show ?case
  proof (cases "buffer = []")
    case True
    with "2.prems" show ?thesis by (simp add: outcome_ok_def)
  next
    case False
    with "2.IH"[OF False] execute_connection_ok[OF "2.prems", of buffer] show ?thesis
      by (cases "http_parser_execute rsva_settings (parser c) buffer c") (auto simp: outcome_ok_def)
  qed
next
  case (3 pf err others c)
  then show ?case by (simp add: outcome_ok_def connection_ok_def)
qed

text \<open>
  \<^verbatim>\<open>send\<close> is documented to return at most the number of bytes it is given, or -1.
\<close>

definition sends_ok :: "(nat \<Rightarrow> int \<times> int) list \<Rightarrow> bool" where
  "sends_ok answers \<longleftrightarrow> (\<forall>f\<in>set answers. \<forall>n. fst (f n) = - 1 \<or> 0 \<le> fst (f n) \<and> fst (f n) \<le> int n)"

definition part_ok :: "part option res \<Rightarrow> bool" where
  "part_ok r \<longleftrightarrow> (case r of Inl f \<Rightarrow> False | Inr None \<Rightarrow> True
     | Inr (Some (Returns _ c')) \<Rightarrow> connection_ok c' | Inr (Some (Continues c')) \<Rightarrow> connection_ok c')"

lemma send_loop_ok:
  "connection_ok c \<Longrightarrow> sends_ok answers \<Longrightarrow> part_ok (send_loop pf answers c)"
proof (induction answers arbitrary: c)
  case Nil
  then show ?case
    by (subst send_loop.simps) (auto simp: part_ok_def connection_ok_def outputBufferSize_def)
next
  case (Cons f answers)
  let ?n = "outputLength c - bytesWritten c"
  obtain r e where a: "f ?n = (r, e)" by (cases "f ?n")
  have c: "bytesWritten c \<le> outputLength c" "outputLength c < 512"
    using Cons.prems(1) by (simp_all add: connection_ok_def outputBufferSize_def)
  let ?c = "c\<lparr>bytesWritten := (bytesWritten c + nat (r mod 2 ^ 64)) mod 2 ^ 64\<rparr>"
  have step: "part_ok (send_loop pf answers ?c)" if r: "r \<noteq> 0" "r \<noteq> - 1"
  proof (rule Cons.IH)
    have "r = - 1 \<or> 0 \<le> r \<and> r \<le> int ?n" using Cons.prems(2) a by (auto simp: sends_ok_def dest: spec[where x = ?n])
    then have v: "0 \<le> r" "r \<le> int ?n" using r by simp_all
    then have m: "r mod 2 ^ 64 = r" using c by (intro mod_pos_pos_trivial) simp_all
    have nr: "nat r \<le> ?n" using v(2) by (simp add: nat_le_iff)
    have w: "(bytesWritten c + nat r) mod 2 ^ 64 = bytesWritten c + nat r"
      using nr c by simp
    show "connection_ok ?c" using Cons.prems(1) nr c unfolding m w by (simp add: connection_ok_def)
    show "sends_ok answers" using Cons.prems(2) by (simp add: sends_ok_def)
  qed
  show ?case
    using Cons.prems(1) step c a
    by (subst send_loop.simps) (auto simp: part_ok_def connection_ok_def outputBufferSize_def)
qed

lemma check_connected_ok:
  "connection_ok c \<Longrightarrow> part_ok (Inr (Some (check_connected pf env c)))"
  by (simp add: check_connected_def Let_def part_ok_def) (simp add: connection_ok_def)

lemma process_ok:
  assumes "connection_ok c" and "sends_ok (env_send env)"
  shows "outcome_ok (rsva11001_connection_process pf env c)"
proof (cases "check_connected pf env c")
  case (Returns b c1)
  with check_connected_ok[OF assms(1), of pf env] assms(1) show ?thesis
    by (simp add: rsva11001_connection_process_def outcome_ok_def part_ok_def connection_ok_def)
next
  case (Continues c1)
  then have c1: "connection_ok c1"
    using check_connected_ok[OF assms(1), of pf env] by (simp add: part_ok_def)
  note sent = send_loop_ok[OF c1 assms(2), of pf]
  show ?thesis
  proof (cases "send_loop pf (env_send env) c1")
    case (Inl f)
    with sent show ?thesis by (simp add: part_ok_def)
  next
    case (Inr r)
    with sent recv_loop_ok Continues assms(1) show ?thesis
      by (cases r) (auto simp: rsva11001_connection_process_def outcome_ok_def part_ok_def connection_ok_def
          split: part.splits)
  qed
qed

section \<open>The latest image\<close>

lemma getLatestImage_spec:
  assumes "buffers_ok c"
  shows "rsva11001_connection_getLatestImage capacity c =
    Inr (case latest_image c of None \<Rightarrow> (True, 0, [])
         | Some img \<Rightarrow> if capacity < length img then (False, 0, []) else (True, length img, img))"
  using assms
proof (rule buffers_okE)
  fix idl assume idl: "buffer_at (idle_side c) c = Some idl" "length idl = 32766" "idle_ok idl"
  have b: "(if ping c then pongReceiveBuffer c else pingReceiveBuffer c) = buffer_at (idle_side c) c"
    by (simp add: idle_side_def)
  show ?thesis
    using idl
    by (auto simp: rsva11001_connection_getLatestImage_def b idle_ok_def latest_image_def image_in_def announced_def Let_def)
qed

section \<open>A body that ends with the connection\<close>

lemma exec_loop_eof:
  assumes "hp_state p = s_body_identity_eof" "data \<noteq> []"
  shows "exec_loop st data (start_exec p s) = Next ((start_exec p s)\<lparr>body_mark := Some 0, pos := length data\<rparr>)"
proof -
  let ?ex = "start_exec p s"
  have 0: "pos ?ex = 0" "hp_state (prs ?ex) = s_body_identity_eof" "body_mark ?ex = None"
    using assms(1) by (simp_all add: start_exec_def)
  have count: "count_header ex = Next ex" if "hp_state (prs ex) = s_body_identity_eof" for ex :: "'a exec"
    using that by (simp add: count_header_def)
  have "run_byte st data (data ! 0) ?ex = Next (?ex\<lparr>pos := length data - 1, body_mark := Some 0\<rparr>)"
    using 0 by (subst run_byte.simps) (simp add: exec_state_def step_body_identity_eof_def set_mark_def)
  then have "exec_loop st data ?ex = exec_loop st data (?ex\<lparr>body_mark := Some 0, pos := length data\<rparr>)"
    using 0 assms(2) count[of ?ex] by (subst exec_loop.simps) (simp add: comp_def)
  also have "\<dots> = Next (?ex\<lparr>body_mark := Some 0, pos := length data\<rparr>)"
    by (subst exec_loop.simps) simp
  finally show ?thesis .
qed

text \<open>The whole buffer goes to the body callback, in one piece.\<close>

lemma execute_eof_body:
  assumes "hp_state p = s_body_identity_eof" "hp_errno p = HPE_OK" "data \<noteq> []" "on_body st = Some f"
    and "f p data s = Inr (ret, False, s')"
  shows "http_parser_execute st p data s =
    Inr (length data, (if ret = 0 then p else p\<lparr>hp_errno := HPE_CB_body\<rparr>), s')"
proof -
  let ?ex = "(start_exec p s)\<lparr>body_mark := Some 0, pos := length data\<rparr>"
  have ex: "field_mark ?ex = None" "value_mark ?ex = None" "url_mark ?ex = None" "body_mark ?ex = Some 0"
    "prs ?ex = p" "app ?ex = s" "pos ?ex = length data"
    using assms(1) by (simp_all add: start_exec_def url_states_def)
  have "finish st data ?ex = Return (length data)
      ((if ret = 0 then ?ex\<lparr>app := s', body_mark := None\<rparr>
        else ?ex\<lparr>prs := p\<lparr>hp_errno := HPE_CB_body\<rparr>, app := s'\<rparr>))"
    using ex assms(2,4,5)
    by (simp add: finish_def callback_macros callback_data_after assert_parser_def count_marks_def after_callback_def)
  with ex assms show ?thesis
    by (simp add: http_parser_execute_def exec_loop_eof)
qed

section \<open>A stream of frames\<close>

text \<open>A connection whose parser reads a body up to the end of the connection, between two frames' ends.\<close>

definition streaming :: "rsva11001_connection \<Rightarrow> bool" where
  "streaming c \<longleftrightarrow> buffers_ok c \<and> hp_state (parser c) = s_body_identity_eof \<and> hp_errno (parser c) = HPE_OK \<and>
     hp_data (parser c) \<noteq> None \<and> \<not> complete_frame (pending c)"

lemma abstract_parser [simp]: "abstract (c\<lparr>parser := p\<rparr>) = abstract c" "latest_image (c\<lparr>parser := p\<rparr>) = latest_image c"
  "pending (c\<lparr>parser := p\<rparr>) = pending c"
  by (cases "ping c"; simp add: abstract_def latest_image_def pending_def active_side_def idle_side_def)+

text \<open>The callback on one piece of a stream of frames.\<close>

lemma recv_feeds_frames:
  assumes "buffers_ok c" "hp_data p \<noteq> None" "\<not> complete_frame (pending c)" "length d \<le> 16383"
    and "\<forall>img\<in>set imgs. frame_sized img" "pending c @ d @ rest = frames imgs"
  obtains ds imgs' c' where "rsva11001_connection_recv p d c = Inr (0, False, c')" "buffers_ok c'" "imgs = ds @ imgs'"
    "latest_image c' = (if ds = [] then latest_image c else Some (last ds))" "pending c' @ rest = frames imgs'"
    "\<not> complete_frame (pending c')"
proof -
  from feed_frames[OF assms(6,5,3,4), of "latest_image c"] obtain ds imgs' p' where
    f: "imgs = ds @ imgs'" "feed (abstract c) d = ((if ds = [] then latest_image c else Some (last ds)), p')"
      "p' @ rest = frames imgs'" "\<not> complete_frame p'" "well_framed (pending c @ d)"
    unfolding abstract_def by blast
  have "length d \<le> 32766" using assms(4) by simp
  from recv_refines_feed[OF assms(1,2) this assms(3) f(5)] obtain c' where
    c': "rsva11001_connection_recv p d c = Inr (0, False, c')" "buffers_ok c'" "abstract c' = feed (abstract c) d" .
  then have "latest_image c' = (if ds = [] then latest_image c else Some (last ds))" "pending c' = p'"
    using f(2) by (simp_all add: abstract_def)
  with that[OF c'(1,2) f(1)] f(3,4) show thesis by simp
qed

text \<open>One piece of the stream: the reassembler is fed, the parser stays where it is.\<close>

lemma recv_piece:
  assumes "streaming c" "d \<noteq> []" "length d \<le> 16383"
    and "\<forall>img\<in>set imgs. frame_sized img" "pending c @ d @ rest = frames imgs"
  obtains ds imgs' c' where "imgs = ds @ imgs'" "\<And>pf others. recv_loop pf (Received d # others) c = recv_loop pf others c'"
    "latest_image c' = (if ds = [] then latest_image c else Some (last ds))" "pending c' @ rest = frames imgs'" "streaming c'"
proof -
  let ?p = "parser c"
  have c: "buffers_ok c" "hp_data ?p \<noteq> None" "\<not> complete_frame (pending c)" "hp_state ?p = s_body_identity_eof"
    "hp_errno ?p = HPE_OK"
    using assms(1) by (simp_all add: streaming_def)
  from recv_feeds_frames[OF c(1-3) assms(3-5)] obtain ds imgs' c1 where
    c1: "rsva11001_connection_recv ?p d c = Inr (0, False, c1)" "buffers_ok c1" "imgs = ds @ imgs'"
      "latest_image c1 = (if ds = [] then latest_image c else Some (last ds))" "pending c1 @ rest = frames imgs'"
      "\<not> complete_frame (pending c1)" .
  have cb: "on_body rsva_settings = Some rsva11001_connection_recv" by (simp add: rsva_settings_def)
  have "recv_loop pf (Received d # others) c = recv_loop pf others (c1\<lparr>parser := ?p\<rparr>)" for pf others
    using execute_eof_body[OF c(4,5) assms(2) cb c1(1)] assms(2) by simp
  with that[OF c1(3)] c c1 show thesis by (simp add: streaming_def)
qed

lemma recv_loop_frames:
  assumes "streaming c" and "\<forall>d\<in>set datas. d \<noteq> [] \<and> length d \<le> 16383" and "\<forall>img\<in>set imgs. frame_sized img"
    and "pending c @ concat datas @ rest = frames imgs"
  obtains ds imgs' c' where "imgs = ds @ imgs'"
    "recv_loop pf (map Received datas @ [Recv_error EAGAIN]) c = Inr (Some (True, c'))"
    "latest_image c' = (if ds = [] then latest_image c else Some (last ds))" "pending c' @ rest = frames imgs'"
    "streaming c'"
  using assms
proof (induction datas arbitrary: c imgs thesis)
  case Nil
  from Nil.prems(1)[of "[]" imgs c] Nil.prems show thesis by simp
next
  case (Cons d datas)
  have d: "d \<noteq> []" "length d \<le> 16383" using Cons.prems(3) by simp_all
  have st: "pending c @ d @ concat datas @ rest = frames imgs" using Cons.prems(5) by simp
  from recv_piece[OF Cons.prems(2) d Cons.prems(4) st] obtain ds1 imgs1 c1 where
    1: "imgs = ds1 @ imgs1" "\<And>pf others. recv_loop pf (Received d # others) c = recv_loop pf others c1"
      "latest_image c1 = (if ds1 = [] then latest_image c else Some (last ds1))" "pending c1 @ concat datas @ rest = frames imgs1"
      "streaming c1" by blast
  have sz: "\<forall>d\<in>set datas. d \<noteq> [] \<and> length d \<le> 16383" "\<forall>img\<in>set imgs1. frame_sized img"
    using Cons.prems(3,4) 1(1) by simp_all
  show thesis
  proof (rule Cons.IH[OF _ 1(5) sz 1(4)])
    fix ds2 imgs2 c2
    assume r: "imgs1 = ds2 @ imgs2" "recv_loop pf (map Received datas @ [Recv_error EAGAIN]) c1 = Inr (Some (True, c2))"
      "latest_image c2 = (if ds2 = [] then latest_image c1 else Some (last ds2))" "pending c2 @ rest = frames imgs2"
      "streaming c2"
    show thesis
      by (rule Cons.prems(1)[of "ds1 @ ds2" imgs2 c2]) (use 1 r in simp_all)
  qed
qed

end
