(* ===== verification/Rsva_Open.thy ===== *)
theory Rsva_Open
  imports Rsva_Stream
begin

text \<open>
  From a configured connection to an open one: the request fits its buffer, the receive buffers
  are empty and the parser waits for a response. And what happens where the guards of the code
  do not reach: a request that is too long, and bytes that are no frames.
\<close>

section \<open>A configured connection\<close>

lemma configure_configured:
  assumes "rsva11001_connection_configure h u p n c = (True, c')"
  shows "configured c' \<and> sockfd c' = - 1"
  using assms by (auto simp: rsva11001_connection_configure_def configured_def split: if_splits)

lemma channel_digit:
  "channel c \<le> MAX_CHAN \<Longrightarrow> length (decimal (unat (channel c))) = 1"
  by (simp add: MAX_CHAN_def word_le_nat_alt)

lemma http_request_length:
  assumes "channel c \<le> MAX_CHAN"
  shows "length (http_request pf c) =
    93 + length (username c) + length (password c) + length (hostname c) + length (file_name pf)"
  using channel_digit[OF assms] by (simp add: http_request_def HTTP_PATH_def CRLF_def)

section \<open>Opening\<close>

text \<open>Each buffer is there with its size, or is allocated with it.\<close>

definition have_or_alloc :: "bytes option \<Rightarrow> bytes option \<Rightarrow> nat \<Rightarrow> bool" where
  "have_or_alloc b m n \<longleftrightarrow> (case b of Some x \<Rightarrow> length x = n
     | None \<Rightarrow> (case m of None \<Rightarrow> False | Some x \<Rightarrow> length x = n))"

definition storage_ok :: "open_env \<Rightarrow> rsva11001_connection \<Rightarrow> bool" where
  "storage_ok env c \<longleftrightarrow>
     have_or_alloc (outputBuffer c) (env_malloc_output env) outputBufferSize \<and>
     have_or_alloc (pongReceiveBuffer c) (env_malloc_pong env) BASE_BUFFER_SIZE \<and>
     have_or_alloc (pingReceiveBuffer c) (env_malloc_ping env) BASE_BUFFER_SIZE \<and>
     (pongReceiveBuffer c \<noteq> None \<longrightarrow> pongReceiveBufferSize c = BASE_BUFFER_SIZE) \<and>
     (pingReceiveBuffer c \<noteq> None \<longrightarrow> pingReceiveBufferSize c = BASE_BUFFER_SIZE)"

text \<open>The socket is made, the host is found and \<^verbatim>\<open>connect\<close> is under way (or done).\<close>

definition network_ok :: "open_env \<Rightarrow> bool" where
  "network_ok env \<longleftrightarrow> fst (env_socket env) \<noteq> - 1 \<and> fst (env_getaddrinfo env) = 0 \<and>
     (fst (env_connect env) = 0 \<or> snd (env_connect env) = EINPROGRESS)"

definition zero_buffer :: bytes where "zero_buffer = replicate 32766 NUL"

lemma bzero_buffer_full:
  "length b = n \<Longrightarrow> bzero_buffer (Some b) n = Inr (Some (replicate n NUL))"
  by (simp add: bzero_buffer_def overwrite_def)

lemma zero_buffer_idle: "length zero_buffer = 32766" "idle_ok zero_buffer" "image_in zero_buffer = None"
proof -
  have "take 4 zero_buffer = replicate 4 NUL" by (simp add: zero_buffer_def)
  moreover have "replicate 4 NUL \<noteq> HEADER" by (simp add: HEADER_def numeral_eq_Suc)
  ultimately have "take 4 zero_buffer \<noteq> HEADER" by simp
  then show "length zero_buffer = 32766" "idle_ok zero_buffer" "image_in zero_buffer = None"
    by (simp_all add: zero_buffer_def idle_ok_def image_in_def)
qed

lemma open_buffers_ok:
  assumes "storage_ok env c"
  shows "open_buffers env c = Inr (c\<lparr>pongReceiveBuffer := Some zero_buffer, pongReceiveBufferSize := BASE_BUFFER_SIZE,
     pingReceiveBuffer := Some zero_buffer, pingReceiveBufferSize := BASE_BUFFER_SIZE,
     ping := True, activeReceiveBuffer := Some Ping, activeReceiveBufferSize := Some Ping,
     activeReceiveBufferBytesReceived := 0, parser := http_parser_init (parser c) HTTP_RESPONSE\<rparr>)"
  using assms bzero_buffer_full[where n = BASE_BUFFER_SIZE]
  by (cases c) (auto simp: open_buffers_def storage_ok_def have_or_alloc_def Let_def zero_buffer_def BASE_BUFFER_SIZE_def
      split: option.splits)

lemma open_ok:
  assumes "sockfd c = - 1" "configured c" "storage_ok env c" "network_ok env" "length (file_name pf) \<le> 229"
  obtains c' where "rsva11001_connection_open pf env c = Inr (True, c')" "connection_ok c'"
    "abstract c' = (None, [])" "bytesWritten c' = 0" "sockfd c' = fst (env_socket env)"
    "take (outputLength c') (the (outputBuffer c')) = http_request pf c"
    "parser c' = http_parser_init (parser c) HTTP_RESPONSE"
proof -
  let ?txt = "http_request pf c"
  have req: "length ?txt < 512"
    using assms(2,5) http_request_length[of c pf] by (simp add: configured_def)
  let ?c1 = "c\<lparr>sockfd := fst (env_socket env), connected := False\<rparr>"
  from assms(3) obtain out where out: "length out = 512"
    "(case outputBuffer c of None \<Rightarrow> env_malloc_output env | Some b \<Rightarrow> Some b) = Some out"
    by (auto simp: storage_ok_def have_or_alloc_def outputBufferSize_def split: option.splits)
  let ?buf = "snprintf_into 512 ?txt out"
  have same: "http_request pf ?c1 = ?txt" by (simp add: http_request_def)
  have buf: "length ?buf = 512" "take (length ?txt) ?buf = ?txt"
    using req out(1) by (simp_all add: snprintf_into_def overwrite_def)
  let ?c2 = "?c1\<lparr>outputBuffer := Some ?buf, outputLength := length ?txt, bytesWritten := 0\<rparr>"
  have st: "storage_ok env ?c2" using assms(3) buf(1) by (simp add: storage_ok_def have_or_alloc_def outputBufferSize_def)
  let ?c3 = "?c2\<lparr>pongReceiveBuffer := Some zero_buffer, pongReceiveBufferSize := BASE_BUFFER_SIZE,
     pingReceiveBuffer := Some zero_buffer, pingReceiveBufferSize := BASE_BUFFER_SIZE,
     ping := True, activeReceiveBuffer := Some Ping, activeReceiveBufferSize := Some Ping,
     activeReceiveBufferBytesReceived := 0, parser := http_parser_init (parser c) HTTP_RESPONSE\<rparr>"
  have "rsva11001_connection_open pf env c = Inr (True, ?c3)"
    using assms(1,4) out(2) req open_buffers_ok[OF st] same
    by (simp add: open_eq network_ok_def open_output_eq open_request_def Let_def outputBufferSize_def)
  moreover have "connection_ok ?c3"
    using assms(4) req buf(1) zero_buffer_idle http_parser_init_ok[of "parser c" HTTP_RESPONSE]
    by (simp add: connection_ok_def buffers_ok_def has_buffer_def active_side_def idle_side_def outputBufferSize_def
        BASE_BUFFER_SIZE_def network_ok_def)
      (use assms(2) in \<open>simp add: configured_def\<close>)
  moreover have "abstract ?c3 = (None, [])"
    by (simp add: abstract_def latest_image_def pending_def active_side_def idle_side_def zero_buffer_idle)
  ultimately show thesis using that[of ?c3] buf(2) by simp
qed

end
