(* ===== verification/Rsva_Calls.thy ===== *)
theory Rsva_Calls
  imports Rsva_Open
begin

text \<open>
  When a call of \<^verbatim>\<open>process\<close> returns. The sending loop ends after at most as many calls of \<^verbatim>\<open>send\<close>
  as there are bytes left; the receiving loop ends with the first answer that is not data, and not
  before.
\<close>

section \<open>The sending loop\<close>

text \<open>What \<^verbatim>\<open>send\<close> takes of the request: the connection after it.\<close>

definition sent :: "nat \<Rightarrow> rsva11001_connection \<Rightarrow> rsva11001_connection" where
  "sent n c = c\<lparr>bytesWritten := bytesWritten c + n\<rparr>"

lemma sent_ok: "connection_ok c \<Longrightarrow> bytesWritten c + n \<le> outputLength c \<Longrightarrow> connection_ok (sent n c)"
  by (simp add: sent_def connection_ok_def)

text \<open>One round of the loop on a connection in order.\<close>

lemma send_loop_round:
  assumes "connection_ok c" "bytesWritten c \<noteq> outputLength c" "sends_ok (answer # others)"
    and "answer (outputLength c - bytesWritten c) = (r, err)"
  shows "send_loop pf (answer # others) c =
    (if r = 0 then Inr (Some (Returns False c))
     else if r = - 1
     then (if err = EAGAIN then Inr (Some (Continues c))
           else Inr (Some (Returns False (setLastError pf 605 ''rsva11001_connection_process'' err c))))
     else send_loop pf others (sent (nat r) c))"
    and "r \<noteq> 0 \<Longrightarrow> r \<noteq> - 1 \<Longrightarrow> 0 < nat r \<and> nat r \<le> outputLength c - bytesWritten c"
proof -
  let ?n = "outputLength c - bytesWritten c"
  obtain buf where c: "bytesWritten c < outputLength c" "outputLength c < 512" "outputBuffer c = Some buf" "length buf = 512"
    using assms(1,2) by (auto simp: connection_ok_def outputBufferSize_def)
  have r: "r = - 1 \<or> 0 \<le> r \<and> r \<le> int ?n"
    using assms(3,4) by (auto simp: sends_ok_def dest: spec[where x = ?n])
  then show n: "r \<noteq> 0 \<Longrightarrow> r \<noteq> - 1 \<Longrightarrow> 0 < nat r \<and> nat r \<le> ?n" by auto
  have m: "(bytesWritten c + nat (r mod 2 ^ 64)) mod 2 ^ 64 = bytesWritten c + nat r" if "r \<noteq> 0" "r \<noteq> - 1"
  proof -
    have "0 \<le> r" "r \<le> int ?n" using r that by simp_all
    then have "r mod 2 ^ 64 = r" using c by (intro mod_pos_pos_trivial) simp_all
    moreover have "nat r \<le> outputLength c - bytesWritten c" using n[OF that] by simp
    then have "bytesWritten c + nat r < 512" using c(1,2) by linarith
    ultimately show ?thesis by simp
  qed
  show "send_loop pf (answer # others) c =
    (if r = 0 then Inr (Some (Returns False c))
     else if r = - 1
     then (if err = EAGAIN then Inr (Some (Continues c))
           else Inr (Some (Returns False (setLastError pf 605 ''rsva11001_connection_process'' err c))))
     else send_loop pf others (sent (nat r) c))"
    using c assms(2,4) m by (subst send_loop.simps) (simp add: sent_def)
qed

text \<open>With an answer for every byte left, the loop ends.\<close>

lemma send_loop_returns:
  "connection_ok c \<Longrightarrow> sends_ok answers \<Longrightarrow> outputLength c - bytesWritten c \<le> length answers \<Longrightarrow>
   send_loop pf answers c \<noteq> Inr None"
proof (induction answers arbitrary: c)
  case Nil
  then show ?case by (subst send_loop.simps) (auto simp: connection_ok_def)
next
  case (Cons answer others)
  show ?case
  proof (cases "bytesWritten c = outputLength c")
    case True
    then show ?thesis by (subst send_loop.simps) simp
  next
    case False
    obtain r err where a: "answer (outputLength c - bytesWritten c) = (r, err)" by fastforce
    note round = send_loop_round[OF Cons.prems(1) False Cons.prems(2) a]
    have "send_loop pf others (sent (nat r) c) \<noteq> Inr None" if "r \<noteq> 0" "r \<noteq> - 1"
    proof (rule Cons.IH)
      note n = round(2)[OF that]
      have "bytesWritten c \<le> outputLength c" using Cons.prems(1) by (simp add: connection_ok_def)
      then show "connection_ok (sent (nat r) c)" by (intro sent_ok[OF Cons.prems(1)]) (use n in linarith)
      show "sends_ok others" using Cons.prems(2) by (simp add: sends_ok_def)
      show "outputLength (sent (nat r) c) - bytesWritten (sent (nat r) c) \<le> length others"
        using n Cons.prems(3) unfolding sent_def by (simp del: zero_less_nat_eq, linarith)
    qed
    then show ?thesis by (simp add: round(1))
  qed
qed

text \<open>A socket that takes some bytes whenever it is asked, or says that it takes none now.\<close>

definition sends_well :: "(nat \<Rightarrow> int \<times> int) list \<Rightarrow> bool" where
  "sends_well answers \<longleftrightarrow> sends_ok answers \<and> outputBufferSize \<le> length answers \<and>
     (\<forall>f\<in>set answers. \<forall>n. 0 < n \<longrightarrow> 0 < fst (f n) \<or> f n = (- 1, EAGAIN))"

lemma send_loop_goes_on:
  assumes "connection_ok c" "sends_ok answers" "outputLength c - bytesWritten c \<le> length answers"
    and "\<forall>f\<in>set answers. \<forall>n. 0 < n \<longrightarrow> 0 < fst (f n) \<or> f n = (- 1, EAGAIN)"
  shows "\<exists>n. bytesWritten c + n \<le> outputLength c \<and> send_loop pf answers c = Inr (Some (Continues (sent n c)))"
  using assms
proof (induction answers arbitrary: c)
  case Nil
  then have "bytesWritten c = outputLength c" by (auto simp: connection_ok_def)
  then show ?case by (intro exI[of _ 0], subst send_loop.simps) (simp add: sent_def)
next
  case (Cons answer others)
  show ?case
  proof (cases "bytesWritten c = outputLength c")
    case True
    then show ?thesis by (intro exI[of _ 0], subst send_loop.simps) (simp add: sent_def)
  next
    case False
    have le: "bytesWritten c \<le> outputLength c" using Cons.prems(1) by (simp add: connection_ok_def)
    obtain r err where a: "answer (outputLength c - bytesWritten c) = (r, err)" by fastforce
    note round = send_loop_round[OF Cons.prems(1) False Cons.prems(2) a]
    have "0 < outputLength c - bytesWritten c" using False le by simp
    then have "0 < r \<or> (r, err) = (- 1, EAGAIN)" using Cons.prems(4) a by (metis fst_conv list.set_intros(1))
    then show ?thesis
    proof
      assume "(r, err) = (- 1, EAGAIN)"
      then show ?thesis using le by (intro exI[of _ 0]) (simp add: round(1) sent_def)
    next
      assume r: "0 < r"
      note n = round(2)
      have k: "0 < nat r" "nat r \<le> outputLength c - bytesWritten c" using n r by simp_all
      have "\<exists>n. bytesWritten (sent (nat r) c) + n \<le> outputLength (sent (nat r) c) \<and>
          send_loop pf others (sent (nat r) c) = Inr (Some (Continues (sent n (sent (nat r) c))))"
      proof (rule Cons.IH)
        show "connection_ok (sent (nat r) c)" by (intro sent_ok[OF Cons.prems(1)]) (use k le in linarith)
        show "sends_ok others" using Cons.prems(2) by (simp add: sends_ok_def)
        show "outputLength (sent (nat r) c) - bytesWritten (sent (nat r) c) \<le> length others"
          using k Cons.prems(3) by (simp add: sent_def)
      qed (use Cons.prems(4) in simp)
      then obtain n where "bytesWritten c + nat r + n \<le> outputLength c"
        "send_loop pf others (sent (nat r) c) = Inr (Some (Continues (sent (nat r + n) c)))"
        by (auto simp: sent_def add.assoc)
      then show ?thesis using r by (intro exI[of _ "nat r + n"]) (simp add: round(1))
    qed
  qed
qed

section \<open>The receiving loop\<close>

definition is_data :: "recv_answer \<Rightarrow> bool" where
  "is_data a \<longleftrightarrow> (case a of Received d \<Rightarrow> d \<noteq> [] | Recv_error err \<Rightarrow> False)"

lemma recv_loop_data:
  "\<forall>a\<in>set answers. is_data a \<Longrightarrow> recv_loop pf answers c \<noteq> Inr (Some r)"
  by (induction pf answers c rule: recv_loop.induct) (auto simp: is_data_def rbind_def split: sum.split)

lemma recv_loop_ends:
  "\<exists>a\<in>set answers. \<not> is_data a \<Longrightarrow> recv_loop pf answers c \<noteq> Inr None"
  by (induction pf answers c rule: recv_loop.induct) (auto simp: is_data_def rbind_def split: sum.split)

section \<open>The whole call\<close>

lemma check_connected_fields:
  "check_connected pf env c = Continues c' \<Longrightarrow> c' = c\<lparr>connected := True\<rparr>"
  by (auto simp: check_connected_def Let_def split: if_splits)

lemma process_ends:
  assumes "connection_ok c" "sends_ok (env_send env)" "outputLength c - bytesWritten c \<le> length (env_send env)"
    and "\<exists>a\<in>set (env_recv env). \<not> is_data a"
  shows "rsva11001_connection_process pf env c \<noteq> Inr None"
proof (cases "check_connected pf env c")
  case (Returns b c')
  then show ?thesis using assms(1) by (simp add: rsva11001_connection_process_def connection_ok_def)
next
  case (Continues c')
  then have c': "connection_ok c'" "outputLength c' - bytesWritten c' \<le> length (env_send env)"
    using check_connected_ok[OF assms(1), of pf env] check_connected_fields[OF Continues] assms(3) by (simp_all add: part_ok_def)
  with send_loop_returns[OF c'(1) assms(2) c'(2)] recv_loop_ends[OF assms(4)] Continues assms(1) show ?thesis
    by (auto simp: rsva11001_connection_process_def rbind_def connection_ok_def split: sum.split option.split part.split)
qed

text \<open>The socket is connected (or the asynchronous \<^verbatim>\<open>connect\<close> has succeeded) and takes the request.\<close>

definition ready :: "process_env \<Rightarrow> bool" where
  "ready env \<longleftrightarrow> env_poll env = (1, 0) \<and> env_pollout env \<and> fst (env_getsockopt env) = 0 \<and> env_optlen env = 4 \<and>
     env_opt env = 0 \<and> sends_well (env_send env)"

lemma process_ready:
  assumes "connection_ok c" "ready env"
  obtains n where "bytesWritten c + n \<le> outputLength c"
    "rsva11001_connection_process pf env c = recv_loop pf (env_recv env) (sent n (c\<lparr>connected := True\<rparr>))"
proof -
  let ?c = "c\<lparr>connected := True\<rparr>"
  have cc: "check_connected pf env c = Continues ?c"
    using assms(2) by (cases "connected c") (simp_all add: check_connected_def ready_def Let_def)
  have ok: "connection_ok ?c" using check_connected_ok[OF assms(1), of pf env] cc by (simp add: part_ok_def)
  have "outputLength c < outputBufferSize" using assms(1) by (simp add: connection_ok_def)
  then have "outputLength ?c - bytesWritten ?c \<le> length (env_send env)" "sends_ok (env_send env)"
    "\<forall>f\<in>set (env_send env). \<forall>n. 0 < n \<longrightarrow> 0 < fst (f n) \<or> f n = (- 1, EAGAIN)"
    using assms(2) by (auto simp: ready_def sends_well_def)
  from send_loop_goes_on[OF ok this(2,1,3)] obtain n where
    "bytesWritten c + n \<le> outputLength c" "send_loop pf (env_send env) ?c = Inr (Some (Continues (sent n ?c)))" by auto
  with that cc assms(1) show thesis
    by (simp add: rsva11001_connection_process_def connection_ok_def)
qed

end
