(* ===== verification/Rsva_Failures.thy ===== *)
theory Rsva_Failures
  imports Rsva_Open
begin

text \<open>
  What a connection does with input its guards do not reach: bytes that are no frames, frames
  too long for a buffer or too short for the reassembly, a length near \<^verbatim>\<open>2^32\<close>, and a request
  that does not fit its buffer. Shared by the properties that state it.
\<close>

section \<open>After an error of the parser\<close>

lemma execute_after_error:
  "hp_errno p \<noteq> HPE_OK \<Longrightarrow> http_parser_execute st p data s = Inr (0, p, s)"
  by (simp add: http_parser_execute_def)

lemma recv_loop_after_error:
  assumes "hp_errno (parser c) \<noteq> HPE_OK" "[] \<notin> set datas"
  shows "recv_loop pf (map Received datas @ [Recv_error EAGAIN]) c = Inr (Some (True, c))"
  using assms(2) by (induction datas) (auto simp: execute_after_error assms(1))

section \<open>One step of the loop, whatever the bytes are\<close>

text \<open>The answer of the callback decides; the body of a response without a length is one piece.\<close>

lemma recv_loop_step:
  assumes "hp_state (parser c) = s_body_identity_eof" "hp_errno (parser c) = HPE_OK" "data \<noteq> []"
  shows "rsva11001_connection_recv (parser c) data c = Inr (ret, False, c') \<Longrightarrow>
      recv_loop pf (Received data # answers) c =
        recv_loop pf answers (c'\<lparr>parser := (if ret = 0 then parser c else (parser c)\<lparr>hp_errno := HPE_CB_body\<rparr>)\<rparr>)"
    and "rsva11001_connection_recv (parser c) data c = Inl f \<Longrightarrow> recv_loop pf (Received data # answers) c = Inl f"
proof -
  have cb: "on_body rsva_settings = Some rsva11001_connection_recv" by (simp add: rsva_settings_def)
  { assume "rsva11001_connection_recv (parser c) data c = Inr (ret, False, c')"
    from execute_eof_body[OF assms cb this] assms(3)
    show "recv_loop pf (Received data # answers) c =
        recv_loop pf answers (c'\<lparr>parser := (if ret = 0 then parser c else (parser c)\<lparr>hp_errno := HPE_CB_body\<rparr>)\<rparr>)"
      by simp }
  { assume f: "rsva11001_connection_recv (parser c) data c = Inl f"
    let ?ex = "(start_exec (parser c) c)\<lparr>body_mark := Some 0, pos := length data\<rparr>"
    have ex: "field_mark ?ex = None" "value_mark ?ex = None" "url_mark ?ex = None" "body_mark ?ex = Some 0"
      "prs ?ex = parser c" "app ?ex = c" "pos ?ex = length data"
      using assms(1) by (simp_all add: start_exec_def url_states_def)
    have "finish rsva_settings data ?ex = Fault f"
      using ex assms(2) cb f
      by (simp add: finish_def callback_macros callback_data_after assert_parser_def count_marks_def after_callback_def)
    with assms show "recv_loop pf (Received data # answers) c = Inl f"
      by (simp add: http_parser_execute_def exec_loop_eof) }
qed

lemma streamingD:
  assumes "streaming c"
  shows "buffers_ok c" "hp_state (parser c) = s_body_identity_eof" "hp_errno (parser c) = HPE_OK"
    "hp_data (parser c) \<noteq> None" "\<not> complete_frame (pending c)"
  using assms by (simp_all add: streaming_def)

abbreviation stored :: "bytes \<Rightarrow> nat \<Rightarrow> rsva11001_connection \<Rightarrow> rsva11001_connection" where
  "stored buf k c \<equiv> (store_at (active_side c) buf c)\<lparr>activeReceiveBufferBytesReceived := k\<rparr>"

text \<open>The callback with the bytes stored: the active buffer begins with what was pending and what came.\<close>

lemma recv_stored:
  fixes data :: bytes
  assumes "buffers_ok c" "hp_data p \<noteq> None" "length (pending c) < 32766"
  defines "k \<equiv> min (length (pending c @ data)) 32766"
  obtains buf where "rsva11001_connection_recv p data c = recv_frame buf data (length (pending c))
      (stored buf k c)"
    "length buf = 32766" "take k buf = take k (pending c @ data)"
    "buffers_ok (stored buf k c)"
proof -
  let ?r = "activeReceiveBufferBytesReceived c"
  from assms(1) obtain act where act: "buffer_at (active_side c) c = Some act" "length act = 32766" "?r \<le> 32766"
    by (rule buffers_okE)
  have lp: "length (pending c) = ?r" by (rule pending_length[OF assms(1)])
  define n where "n = min (length data) (32766 - ?r)"
  define buf where "buf = overwrite ?r (take n data) act"
  have n: "n \<le> length data" "?r + n \<le> 32766" "k = ?r + n" using assms(3) lp by (auto simp: n_def k_def)
  have buf: "length buf = 32766" "take (?r + n) buf = take (?r + n) (pending c @ data)"
    using take_overwrite[of ?r "take n data" act] n act(2) lp
    by (simp_all add: buf_def pending_def act(1) min_absorb2)
  have "rsva11001_connection_recv p data c = recv_frame buf data ?r
      (stored buf (?r + n) c)"
    using recv_unfold[OF assms(1,2) act(1) refl, of data] assms(3) lp by (simp add: n_def buf_def Let_def)
  with that[of buf] buf n buffers_ok_store[OF assms(1) buf(1) n(2)] lp show thesis by simp
qed

lemma recv_full:
  assumes "buffers_ok c" "activeReceiveBufferBytesReceived c = 32766"
  shows "rsva11001_connection_recv p data c = Inl (Assert_failed In_connection_recv)"
proof (cases "hp_data p = None")
  case True
  then show ?thesis by (simp add: rsva11001_connection_recv_def)
next
  case False
  from assms(1) obtain act where "buffer_at (active_side c) c = Some act" by (rule buffers_okE)
  from recv_unfold[OF assms(1) False this assms(2)[symmetric]] show ?thesis by simp
qed

section \<open>A stream that is no sequence of frames\<close>

lemma recv_bad_magic:
  assumes "buffers_ok c" "hp_data p \<noteq> None" "length (pending c) < 32766"
    and "8 \<le> length (pending c @ data)" "take 4 (pending c @ data) \<noteq> HEADER"
  obtains c' where "rsva11001_connection_recv p data c = Inr (1, False, c')" "latest_image c' = latest_image c"
    "parser c' = parser c" "buffers_ok c'"
proof -
  let ?k = "min (length (pending c @ data)) 32766"
  from recv_stored[OF assms(1-3), where data = data] obtain buf where
    b: "rsva11001_connection_recv p data c = recv_frame buf data (length (pending c))
      (stored buf ?k c)"
    "take ?k buf = take ?k (pending c @ data)" "buffers_ok (stored buf ?k c)" by blast
  let ?c = "stored buf ?k c"
  have "take 4 buf = take 4 (pending c @ data)" by (rule take_agree[OF b(2)]) (use assms(4) in simp)
  then have "recv_frame buf data (length (pending c)) ?c = Inr (1, False, ?c)"
    using assms(4,5) by (simp add: recv_frame_def)
  with that[of ?c] b(1,3) show thesis by (simp add: pending_image_update)
qed

lemma recv_loop_bad_magic:
  assumes "streaming c" "data \<noteq> []" "8 \<le> length (pending c @ data)" "take 4 (pending c @ data) \<noteq> HEADER"
    and "length (pending c) < 32766" "[] \<notin> set datas"
  obtains c' where "recv_loop pf (map Received (data # datas) @ [Recv_error EAGAIN]) c = Inr (Some (True, c'))"
    "latest_image c' = latest_image c" "hp_errno (parser c') = HPE_CB_body"
proof -
  note s = streamingD[OF assms(1)]
  from recv_bad_magic[OF s(1,4) assms(5,3,4)] obtain c1 where
    c1: "rsva11001_connection_recv (parser c) data c = Inr (1, False, c1)" "latest_image c1 = latest_image c" .
  let ?c = "c1\<lparr>parser := (parser c)\<lparr>hp_errno := HPE_CB_body\<rparr>\<rparr>"
  have "recv_loop pf (map Received datas @ [Recv_error EAGAIN]) ?c = Inr (Some (True, ?c))"
    by (rule recv_loop_after_error) (use assms(6) in simp_all)
  with recv_loop_step(1)[OF s(2,3) assms(2) c1(1)] that[of ?c] c1(2) show thesis by simp
qed

section \<open>Frames of the wrong size\<close>

text \<open>A frame longer than a buffer: the assertion fails with the byte that does not fit.\<close>

lemma recv_loop_oversized:
  assumes "streaming c" "data \<noteq> []" "next_data \<noteq> []" "take 4 (pending c @ data) = HEADER"
    and "32754 < announced (pending c @ data)" "announced (pending c @ data) < 2 ^ 32 - 12"
    and "32766 \<le> length (pending c @ data)" "length (pending c) < 32766"
  shows "recv_loop pf (Received data # Received next_data # answers) c = Inl (Assert_failed In_connection_recv)"
proof -
  note s = streamingD[OF assms(1)]
  have k: "min (length (pending c @ data)) 32766 = 32766" using assms(7) by simp
  from recv_stored[OF s(1,4) assms(8), where data = data] obtain buf where
    b: "rsva11001_connection_recv (parser c) data c = recv_frame buf data (length (pending c))
      (stored buf 32766 c)"
    "take 32766 buf = take 32766 (pending c @ data)" "buffers_ok (stored buf 32766 c)" unfolding k by blast
  let ?c = "stored buf 32766 c"
  have "recv_frame buf data (length (pending c)) ?c = Inr (0, False, ?c)"
    by (rule recv_frame_waits[where k = 32766 and s = "pending c @ data"]) (use b(2) assms(4-7) in simp_all)
  then have 1: "rsva11001_connection_recv (parser c) data c = Inr (0, False, ?c)" using b(1) by simp
  let ?c2 = "?c\<lparr>parser := parser c\<rparr>"
  have "rsva11001_connection_recv (parser ?c2) next_data ?c2 = Inl (Assert_failed In_connection_recv)"
    by (rule recv_full) (use b(3) in simp_all)
  then have "recv_loop pf (Received next_data # answers) ?c2 = Inl (Assert_failed In_connection_recv)"
    by (intro recv_loop_step(2)) (use s assms(3) in simp_all)
  with recv_loop_step(1)[OF s(2,3) assms(2) 1] show ?thesis by simp
qed

text \<open>A length so close to \<^verbatim>\<open>2^32\<close> that the sum wraps: the footer is looked for outside the buffer.\<close>

lemma recv_loop_wrapped_length:
  assumes "streaming c" "data \<noteq> []" "take 4 (pending c @ data) = HEADER"
    and "2 ^ 32 - 12 \<le> announced (pending c @ data)" "12 \<le> length (pending c @ data)" "length (pending c) < 32766"
  shows "recv_loop pf (Received data # answers) c = Inl (Out_of_bounds In_connection_recv)"
proof -
  note s = streamingD[OF assms(1)]
  let ?s = "pending c @ data"
  let ?k = "min (length ?s) 32766"
  from recv_stored[OF s(1,4) assms(6), where data = data] obtain buf where
    b: "rsva11001_connection_recv (parser c) data c = recv_frame buf data (length (pending c))
      (stored buf ?k c)"
    "length buf = 32766" "take ?k buf = take ?k ?s" by blast
  let ?c = "stored buf ?k c"
  have k: "12 \<le> ?k" using assms(5) by simp
  have h: "take 4 buf = HEADER" using take_agree[OF b(3), of 4] k assms(3) by simp
  have ann: "announced buf = announced ?s"
    using announced_take[of ?k buf] announced_take[of ?k ?s] b(3) k by simp
  let ?j = "ntohl (slice 4 4 buf)"
  have j: "2 ^ 32 - 12 \<le> unat ?j" using ann assms(4) by (simp add: announced_def)
  have "unat ?j < 2 ^ 32" using announced_less[of buf] by (simp add: announced_def)
  then have "unat (HEADER_SIZE + ?j + FOOTER_SIZE) = unat ?j + 12 - 2 ^ 32"
    using j by (simp add: HEADER_SIZE_def FOOTER_SIZE_def unat_word_ariths mod_if)
  then have "unat (HEADER_SIZE + ?j + FOOTER_SIZE) \<le> ?k" using k \<open>unat ?j < 2 ^ 32\<close> by linarith
  then have "recv_frame buf data (length (pending c)) ?c = Inl (Out_of_bounds In_connection_recv)"
    using h k j b(2) by (simp add: recv_frame_def Let_def)
  with b(1) recv_loop_step(2)[OF s(2,3) assms(2)] show ?thesis by simp
qed

text \<open>
  A frame that came whole behind the end of another one, with more behind it: the next call
  finds more bytes than its frame has, and reads in front of \<^verbatim>\<open>data\<close>.
\<close>

lemma recv_complete_pending:
  assumes "buffers_ok c" "hp_data p \<noteq> None" "length (pending c) < 32766" "data \<noteq> []" "length data \<le> 32766"
    and "pending c = encode_frame img @ t" "t \<noteq> []"
  shows "rsva11001_connection_recv p data c = Inl (Out_of_bounds In_connection_recv)"
proof -
  let ?s = "pending c @ data"
  let ?k = "min (length ?s) 32766"
  from recv_stored[OF assms(1-3), where data = data] obtain buf where
    b: "rsva11001_connection_recv p data c = recv_frame buf data (length (pending c))
      (stored buf ?k c)"
    "length buf = 32766" "take ?k buf = take ?k ?s" "buffers_ok (stored buf ?k c)" by blast
  let ?c = "stored buf ?k c"
  have img: "12 + length img < length (pending c)" using assms(6,7) by (simp add: length_encode_frame)
  have small: "length img < 2 ^ 32" using img assms(3) by simp
  have s: "?s = encode_frame img @ t @ data" using assms(6) by simp
  have k: "12 + length img < ?k" using img assms(3) by simp
  have agree: "take 4 buf = take 4 ?s" "slice 4 4 buf = slice 4 4 ?s"
    "slice (8 + length img) 4 buf = slice (8 + length img) 4 ?s"
    using take_agree[OF b(3), of 4] slice_agree[OF b(3)] k by simp_all
  have h: "take 4 buf = HEADER" "slice (8 + length img) 4 buf = FOOTER"
    using agree encode_frame_parts[OF small, of "t @ data"] s by simp_all
  have ann: "announced buf = length img"
    using announced_encode[OF small, of "t @ data"] agree(2) s by (simp add: announced_def)
  then have j: "unat (ntohl (slice 4 4 buf)) = length img" by (simp add: announced_def)
  have tot: "unat (HEADER_SIZE + ntohl (slice 4 4 buf) + FOOTER_SIZE) = 12 + length img"
    using total_length[of "ntohl (slice 4 4 buf)"] j img assms(3) by simp
  have eq: "recv_frame buf data (length (pending c)) ?c = recv_complete data (12 + length img) (length (pending c)) ?c"
    unfolding recv_frame_def Let_def tot j using h k b(2) img assms(3) by (simp add: min_def)
  have fin: "usub (12 + length img) (length (pending c)) = 2 ^ 64 - (length (pending c) - (12 + length img))"
    by (rule usub_wrap) (use img assms(3) in simp_all)
  then have far: "length data < usub (12 + length img) (length (pending c))" using assms(3,5) img by simp
  from b(4) obtain idl where idl: "buffer_at (idle_side ?c) ?c = Some idl" by (rule buffers_okE)
  have "recv_complete data (12 + length img) (length (pending c)) ?c = Inl (Out_of_bounds In_connection_recv)"
    using far idl by (simp add: recv_complete_def Let_def)
  with b(1) eq show ?thesis by simp
qed

lemma recv_loop_short_frames:
  assumes "streaming c" "pending c @ data = encode_frame i @ encode_frame j @ t" "t \<noteq> []"
    and "length i \<le> 32754" "data \<noteq> []" "length data \<le> 16383" "next_data \<noteq> []" "length next_data \<le> 16383"
  shows "recv_loop pf (Received data # Received next_data # answers) c = Inl (Out_of_bounds In_connection_recv)"
proof -
  note s = streamingD[OF assms(1)]
  have "(pending c @ data) @ [] = frames [i] @ encode_frame j @ t" using assms(2) by simp
  have pre: "take (12 + length i) (pending c @ data) = encode_frame i" "drop (12 + length i) (pending c @ data) = encode_frame j @ t"
    using assms(2) by (simp_all add: length_encode_frame)
  have small: "length i < 2 ^ 32" using assms(4) by simp
  note parts = encode_frame_parts[OF small, of "encode_frame j @ t"]
  have ann: "announced (pending c @ data) = length i"
    using announced_encode[OF small, of "encode_frame j @ t"] assms(2) by simp
  have comp: "complete_frame (pending c @ data)"
    using ann assms(2) by (simp add: complete_frame_def length_encode_frame)
  have wf: "well_framed (pending c @ data)"
    using ann assms(2,4) parts by (simp add: well_framed_def BASE_BUFFER_SIZE_def)
  have "length data \<le> 32766" using assms(6) by simp
  from recv_refines_feed[OF s(1,4) this s(5) wf] obtain c1 where
    c1: "rsva11001_connection_recv (parser c) data c = Inr (0, False, c1)" "buffers_ok c1"
      "abstract c1 = feed (abstract c) data" "link c1 = link c" .
  have p1: "pending c1 = encode_frame j @ t"
    using c1(3) comp ann pre(2) by (simp add: abstract_def feed_def Let_def del: drop_append)
  have "length (pending c) < 12 + length i"
    using incomplete_length(2)[OF s(5) wf] ann comp by (simp add: complete_frame_def)
  moreover have "length (pending c @ data) = 12 + length i + length (pending c1)"
    using assms(2) p1 by (simp add: length_encode_frame)
  ultimately have lp: "length (pending c1) < 32766" using assms(6) by simp
  let ?c2 = "c1\<lparr>parser := parser c\<rparr>"
  have "rsva11001_connection_recv (parser ?c2) next_data ?c2 = Inl (Out_of_bounds In_connection_recv)"
    by (rule recv_complete_pending[where img = j and t = t]) (use c1(2) s(4) lp p1 assms(3,7,8) in simp_all)
  then have "recv_loop pf (Received next_data # answers) ?c2 = Inl (Out_of_bounds In_connection_recv)"
    by (intro recv_loop_step(2)) (use s assms(7) in simp_all)
  with recv_loop_step(1)[OF s(2,3) assms(5) c1(1)] show ?thesis by simp
qed

section \<open>A request that does not fit\<close>

lemma open_long_request:
  assumes "sockfd c = - 1" "channel c \<le> MAX_CHAN" "storage_ok env c" "network_ok env" "512 < length (http_request pf c)"
  obtains c' where "rsva11001_connection_open pf env c = Inr (True, c')" "outputLength c' = length (http_request pf c)"
    "bytesWritten c' = 0" "length (the (outputBuffer c')) = 512" "outputBuffer c' \<noteq> None"
proof -
  let ?req = "http_request pf c"
  let ?c1 = "c\<lparr>sockfd := fst (env_socket env), connected := False\<rparr>"
  from assms(3) obtain out where out: "length out = 512"
    "(case outputBuffer c of None \<Rightarrow> env_malloc_output env | Some b \<Rightarrow> Some b) = Some out"
    by (auto simp: storage_ok_def have_or_alloc_def outputBufferSize_def split: option.splits)
  let ?buf = "snprintf_into 512 ?req out"
  have same: "http_request pf ?c1 = ?req" by (simp add: http_request_def)
  have buf: "length ?buf = 512" using assms(5) out(1) by (simp add: snprintf_into_def)
  let ?c2 = "?c1\<lparr>outputBuffer := Some ?buf, outputLength := length ?req, bytesWritten := 0\<rparr>"
  have st: "storage_ok env ?c2" using assms(3) buf by (simp add: storage_ok_def have_or_alloc_def outputBufferSize_def)
  show thesis
    by (rule that[of "?c2\<lparr>pongReceiveBuffer := Some zero_buffer, pongReceiveBufferSize := BASE_BUFFER_SIZE,
     pingReceiveBuffer := Some zero_buffer, pingReceiveBufferSize := BASE_BUFFER_SIZE,
     ping := True, activeReceiveBuffer := Some Ping, activeReceiveBufferSize := Some Ping,
     activeReceiveBufferBytesReceived := 0, parser := http_parser_init (parser c) HTTP_RESPONSE\<rparr>"])
      (use assms(1,4,5) out(2) open_buffers_ok[OF st] same buf in
        \<open>simp_all add: open_eq network_ok_def open_output_eq open_request_def Let_def outputBufferSize_def\<close>)
qed

lemma send_loop_long_request:
  assumes "outputLength c = n" "512 < n" "n < 2 ^ 64" "bytesWritten c = 0" "outputBuffer c = Some buf" "length buf = 512"
  shows "send_loop pf answers c = Inl (Out_of_bounds In_connection_process)"
  using assms by (subst send_loop.simps) simp

end
