(* ===== verification/Camera_Properties.thy ===== *)
theory Camera_Properties
  imports Rsva_Failures Http_Run
begin

text \<open>
  The properties of the connection to a camera, each with a concrete case. The concrete
  connection is one after \<^verbatim>\<open>malloc\<close>, \<^verbatim>\<open>configure\<close> and \<^verbatim>\<open>open\<close>, with a response read.
\<close>

section \<open>A concrete connection\<close>

definition demo_platform :: platform where
  "demo_platform = \<lparr>file_name = ''src/rsva11001.c'', strerror = (\<lambda>e. ''error'')\<rparr>"

definition demo_buffer :: bytes where "demo_buffer = replicate 512 NUL"

definition demo_connection :: rsva11001_connection where
  "demo_connection =
     \<lparr>lastError = [], sockfd = 5, username = ''admin'', password = ''secret'', hostname = ''camera'', channel = 1,
      outputBuffer = Some demo_buffer, outputLength = 100, bytesWritten = 100, ping = True,
      pingReceiveBuffer = Some zero_buffer, pingReceiveBufferSize = BASE_BUFFER_SIZE,
      pongReceiveBuffer = Some zero_buffer, pongReceiveBufferSize = BASE_BUFFER_SIZE,
      activeReceiveBuffer = Some Ping, activeReceiveBufferSize = Some Ping, activeReceiveBufferBytesReceived = 0,
      parser = plain_parser (zeroed_parser\<lparr>hp_data := Some 64\<rparr>), connected = True\<rparr>"

lemma demo_buffers: "buffers_ok demo_connection" "pending demo_connection = []" "latest_image demo_connection = None"
  by (simp_all add: demo_connection_def buffers_ok_def has_buffer_def active_side_def idle_side_def pending_def
      latest_image_def zero_buffer_idle BASE_BUFFER_SIZE_def)

lemma demo_streaming: "streaming demo_connection"
  using demo_buffers
  by (simp add: streaming_def complete_frame_def) (simp add: demo_connection_def plain_parser_def http_parser_init_def
      zeroed_parser_def)

lemma demo_ok: "connection_ok demo_connection"
  using demo_buffers(1)
  by (simp add: connection_ok_def)
    (simp add: demo_connection_def plain_parser_def http_parser_init_def zeroed_parser_def parser_ok_def state_ok_def
      counters_ok_def outputBufferSize_def demo_buffer_def configured_def MIN_CHAN_def MAX_CHAN_def)

lemma demo_fields:
  "sockfd demo_connection = 5" "connected demo_connection" "bytesWritten demo_connection = 100"
  "outputLength demo_connection = 100" "hp_data (parser demo_connection) = Some 64"
  by (simp_all add: demo_connection_def plain_parser_def http_parser_init_def)

definition demo_image :: bytes where "demo_image = replicate 16371 CHR ''x''"

lemma demo_image: "length demo_image = 16371" "frame_sized demo_image"
  by (simp_all add: demo_image_def frame_sized_def)

definition demo_env :: "recv_answer list \<Rightarrow> process_env" where
  "demo_env answers = \<lparr>env_poll = (1, 0), env_pollout = True, env_getsockopt = (0, 0), env_optlen = 4, env_opt = 0,
     env_send = [], env_recv = answers\<rparr>"

section \<open>Properties\<close>

lemma process_sent:
  assumes "connected c" "bytesWritten c = outputLength c" "sockfd c \<noteq> - 1"
  shows "rsva11001_connection_process pf env c = recv_loop pf (env_recv env) c"
  using assms by (simp add: rsva11001_connection_process_def check_connected_def send_loop.simps)

text \<open>
  C1. The stream theorem. A camera sends a stream of frames, each between 16371 and 32754 bytes
  of image, and one call of \<^verbatim>\<open>process\<close> receives it in pieces cut anywhere, each at most the
  16383 bytes of a \<^verbatim>\<open>recv\<close>. The call succeeds without a fault; the frames split into those that are
  complete and those still to come, of which only a proper beginning is pending; and
  \<^verbatim>\<open>getLatestImage\<close> on a large enough buffer gives exactly the last complete image.
\<close>

theorem stream_delivers_last_image:
  assumes "streaming c" "connected c" "bytesWritten c = outputLength c" "sockfd c \<noteq> - 1"
    and "\<forall>d\<in>set datas. d \<noteq> [] \<and> length d \<le> 16383" and "\<forall>img\<in>set imgs. frame_sized img"
    and "pending c @ concat datas @ rest = frames imgs" and "env_recv env = map Received datas @ [Recv_error EAGAIN]"
    and "32754 \<le> capacity"
  shows "\<exists>ds later c'. imgs = ds @ later \<and> rsva11001_connection_process pf env c = Inr (Some (True, c')) \<and>
     streaming c' \<and> pending c' @ rest = frames later \<and>
     (ds \<noteq> [] \<longrightarrow> rsva11001_connection_getLatestImage capacity c' = Inr (True, length (last ds), last ds))"
proof -
  from recv_loop_frames[OF assms(1,5-7), where pf = pf] obtain ds later c' where
    r: "imgs = ds @ later" "recv_loop pf (map Received datas @ [Recv_error EAGAIN]) c = Inr (Some (True, c'))"
      "latest_image c' = (if ds = [] then latest_image c else Some (last ds))" "pending c' @ rest = frames later"
      "streaming c'"
    by blast
  have "rsva11001_connection_getLatestImage capacity c' = Inr (True, length (last ds), last ds)" if "ds \<noteq> []"
  proof -
    have "length (last ds) \<le> capacity"
    proof -
      have "last ds \<in> set imgs" using r(1) last_in_set[OF that] by simp
      with assms(6) have "frame_sized (last ds)" by blast
      then show ?thesis using assms(9) by (simp add: frame_sized_def)
    qed
    with getLatestImage_spec[OF streamingD(1)[OF r(5)], of capacity] r(3) that show ?thesis by simp
  qed
  with r process_sent[OF assms(2-4), of pf env] assms(8) show ?thesis by auto
qed

lemma stream_delivers_last_image_witness:
  "\<exists>ds later c'. [demo_image] = ds @ later \<and>
     rsva11001_connection_process demo_platform (demo_env [Received (encode_frame demo_image), Recv_error EAGAIN])
       demo_connection = Inr (Some (True, c')) \<and>
     streaming c' \<and> pending c' @ [] = frames later \<and>
     (ds \<noteq> [] \<longrightarrow> rsva11001_connection_getLatestImage 32754 c' = Inr (True, length (last ds), last ds))"
proof (rule stream_delivers_last_image[where datas = "[encode_frame demo_image]"])
  show "streaming demo_connection" by (rule demo_streaming)
  show "\<forall>d\<in>set [encode_frame demo_image]. d \<noteq> [] \<and> length d \<le> 16383"
    using length_encode_frame[of demo_image] demo_image by auto
qed (simp_all add: demo_fields demo_image demo_buffers(2) demo_env_def)

text \<open>
  C2. Refinement. With the buffers in order, the parser's callback implements the abstract
  reassembler: on any piece that continues a well-formed stream it returns 0, the new latest image
  and the pending bytes are those of \<^theory_text>\<open>feed\<close>, the buffers are in order again and nothing else of
  the connection changes.
\<close>

theorem recv_refines_reassembler:
  assumes "buffers_ok c" "hp_data p \<noteq> None" "length data \<le> 32766"
    and "\<not> complete_frame (pending c)" "well_framed (pending c @ data)"
  shows "\<exists>c'. rsva11001_connection_recv p data c = Inr (0, False, c') \<and>
     abstract c' = feed (abstract c) data \<and> buffers_ok c' \<and> link c' = link c"
  using recv_refines_feed[OF assms] by metis

lemma recv_refines_reassembler_witness:
  "\<exists>c'. rsva11001_connection_recv (parser demo_connection) ''JPGS'' demo_connection = Inr (0, False, c') \<and>
     abstract c' = feed (abstract demo_connection) ''JPGS'' \<and> buffers_ok c' \<and> link c' = link demo_connection"
  by (rule recv_refines_reassembler) (simp_all add: demo_buffers demo_fields complete_frame_def well_framed_def)

text \<open>
  C3. Safety of \<^verbatim>\<open>process\<close>, whatever the camera and the network do. An open connection in order
  (buffers, parser, request) is in order again when the call returns; no assertion of the parser
  fails, nothing is sent from outside the request, and the only faults a call can run into are
  those of the callback that reassembles frames.
\<close>

theorem process_keeps_connection:
  assumes "connection_ok c" and "sends_ok (env_send env)"
  shows "case rsva11001_connection_process pf env c of
     Inl f \<Rightarrow> fault_site f = In_connection_recv
   | Inr None \<Rightarrow> True
   | Inr (Some (b, c')) \<Rightarrow> connection_ok c'"
  using process_ok[OF assms, of pf] by (simp add: outcome_ok_def)

lemma process_keeps_connection_witness:
  "case rsva11001_connection_process demo_platform (demo_env [Received ''garbage'', Received []]) demo_connection of
     Inl f \<Rightarrow> fault_site f = In_connection_recv
   | Inr None \<Rightarrow> True
   | Inr (Some (b, c')) \<Rightarrow> connection_ok c'"
  by (rule process_keeps_connection) (simp_all add: demo_ok demo_env_def sends_ok_def)

text \<open>
  C4. Safety of the parser. With callbacks that do not fault themselves, and a parser as
  \<^verbatim>\<open>http_parser_init\<close> or an earlier call left it, \<^verbatim>\<open>http_parser_execute\<close> on any buffer returns:
  none of its assertions fails and no table is read out of range. The parser it leaves can be
  called again.
\<close>

theorem http_parser_execute_never_faults:
  assumes "parser_ok p"
    and "\<And>f q s. Some f \<in> notify_callbacks st \<Longrightarrow> \<not> (\<exists>e. f q s = Inl e)"
    and "\<And>g q d s. Some g \<in> data_callbacks st \<Longrightarrow> \<not> (\<exists>e. g q d s = Inl e)"
  shows "\<exists>n p' s'. http_parser_execute st p data s = Inr (n, p', s') \<and> parser_ok p'"
proof -
  have "callback_contract st (\<lambda>s. True) (\<lambda>e. False) (length data)"
    using assms(2,3) by unfold_locales (simp_all add: callback_ok_def split: sum.split prod.split)
  from callback_contract.http_parser_execute_ok[OF this assms(1), where s = s and data = data] show ?thesis
    by (auto simp: call_ok_def split: sum.splits)
qed

definition demo_settings :: "nat http_parser_settings" where
  "demo_settings = \<lparr>on_message_begin = Some (\<lambda>p n. Inr (0, False, Suc n)), on_url = Some (\<lambda>p d n. Inr (0, False, n + length d)),
     on_status_complete = None, on_header_field = None, on_header_value = None, on_headers_complete = None,
     on_body = Some (\<lambda>p d n. Inr (1, False, n)), on_message_complete = None\<rparr>"

lemma http_parser_execute_never_faults_witness:
  "\<exists>n p' s'. http_parser_execute demo_settings (http_parser_init zeroed_parser HTTP_REQUEST) (''GET /x HTTP/1.1'' @ [CR, LF]) 0
     = Inr (n, p', s') \<and> parser_ok p'"
  by (rule http_parser_execute_never_faults)
    (auto simp: http_parser_init_ok notify_callbacks_def data_callbacks_def demo_settings_def)

end
