(* ===== verification/Camera_Session.thy ===== *)
theory Camera_Session
  imports Http_Response Rsva_Calls Camera_Properties
begin

text \<open>
  A whole session with a camera: from \<^verbatim>\<open>open\<close> over the head of the response to the images, in any
  number of calls of \<^verbatim>\<open>process\<close>, the bytes cut anywhere.
\<close>

section \<open>What a connection expects\<close>

lemma rsva_settings_body_only: "rsva_settings = body_only (Some rsva11001_connection_recv)"
  by (simp add: rsva_settings_def body_only_def no_callbacks_def)

text \<open>A connection that has still to read \<^theory_text>\<open>head\<close>, after which the body goes on up to the end.\<close>

definition awaiting :: "bytes \<Rightarrow> rsva11001_connection \<Rightarrow> bool" where
  "awaiting head c \<longleftrightarrow> buffers_ok c \<and> pending c = [] \<and> parser_ok (parser c) \<and> hp_errno (parser c) = HPE_OK \<and>
     hp_data (parser c) \<noteq> None \<and> (\<exists>p. header_parse c head (parser c) = Some p \<and> hp_state p = s_body_identity_eof)"

definition expects :: "bytes \<Rightarrow> rsva11001_connection \<Rightarrow> bool" where
  "expects head c \<longleftrightarrow> (if head = [] then streaming c else awaiting head c)"

lemma awaiting_end: "awaiting [] c \<Longrightarrow> streaming c"
  by (auto simp: awaiting_def streaming_def complete_frame_def)

lemma awaiting_expects: "awaiting head c \<Longrightarrow> expects head c"
  by (cases "head = []") (auto simp: expects_def dest: awaiting_end)

text \<open>A piece that is part of the head.\<close>

lemma recv_head_piece:
  assumes "awaiting (d @ later) c" "d \<noteq> []"
  obtains c' where "\<And>pf others. recv_loop pf (Received d # others) c = recv_loop pf others c'" "awaiting later c'"
    "latest_image c' = latest_image c"
proof -
  have c: "buffers_ok c" "pending c = []" "parser_ok (parser c)" "hp_errno (parser c) = HPE_OK" "hp_data (parser c) \<noteq> None"
    using assms(1) by (simp_all add: awaiting_def)
  from assms(1) obtain q p where q: "header_parse c d (parser c) = Some q" "header_parse c later q = Some p"
    "hp_state p = s_body_identity_eof"
    by (auto simp: awaiting_def header_parse_append split: option.splits)
  note e = execute_head(1)[OF q(1) assms(2) c(3,4), of "Some rsva11001_connection_recv" c]
    execute_head(2-4)[OF q(1) assms(2) c(3,4)]
  have "recv_loop pf (Received d # others) c = recv_loop pf others (c\<lparr>parser := q\<rparr>)" for pf others
    using e(1) assms(2) by (simp add: rsva_settings_body_only)
  moreover have "awaiting later (c\<lparr>parser := q\<rparr>)"
    using c e header_parse_any[OF q(2), of "c\<lparr>parser := q\<rparr>"] q(3) by (simp add: awaiting_def)
  ultimately show thesis using that[of "c\<lparr>parser := q\<rparr>"] by simp
qed

text \<open>A piece with the end of the head and the beginning of the body.\<close>

lemma recv_last_head_piece:
  assumes "awaiting head c" "d \<noteq> []" "length d \<le> 16383"
    and "\<forall>img\<in>set imgs. frame_sized img" "d @ rest = frames imgs"
  obtains ds imgs' c' where "imgs = ds @ imgs'"
    "\<And>pf others. recv_loop pf (Received (head @ d) # others) c = recv_loop pf others c'"
    "latest_image c' = (if ds = [] then latest_image c else Some (last ds))" "pending c' @ rest = frames imgs'" "streaming c'"
proof -
  have c: "buffers_ok c" "pending c = []" "parser_ok (parser c)" "hp_errno (parser c) = HPE_OK" "hp_data (parser c) \<noteq> None"
    using assms(1) by (simp_all add: awaiting_def)
  from assms(1) obtain p where p: "header_parse c head (parser c) = Some p" "hp_state p = s_body_identity_eof"
    by (auto simp: awaiting_def)
  have hp: "hp_data p \<noteq> None" "hp_errno p = HPE_OK"
    using execute_head[OF p(1) _ c(3,4)] p(1) c(4,5) by (cases "head = []"; simp)+
  have "\<not> complete_frame (pending c)" "pending c @ d @ rest = frames imgs"
    using c(2) assms(5) by (simp_all add: complete_frame_def)
  from recv_feeds_frames[OF c(1) hp(1) this(1) assms(3,4) this(2)] obtain ds imgs' c1 where
    c1: "rsva11001_connection_recv p d c = Inr (0, False, c1)" "buffers_ok c1" "imgs = ds @ imgs'"
      "latest_image c1 = (if ds = [] then latest_image c else Some (last ds))" "pending c1 @ rest = frames imgs'"
      "\<not> complete_frame (pending c1)" .
  note e = execute_head_and_body[OF p assms(2) c(3,4), where f = rsva11001_connection_recv, OF c1(1)]
  have "recv_loop pf (Received (head @ d) # others) c = recv_loop pf others (c1\<lparr>parser := p\<rparr>)" for pf others
    using e assms(2) by (simp add: rsva_settings_body_only)
  with that[OF c1(3)] c1 hp p(2) show thesis by (simp add: streaming_def)
qed

text \<open>Any piece.\<close>

lemma expects_piece:
  assumes "expects head c" "d \<noteq> []" "length d \<le> 16383"
    and "\<forall>img\<in>set imgs. frame_sized img" "pending c @ d @ rest = head @ frames imgs"
  obtains ds imgs' c' head' where "imgs = ds @ imgs'"
    "\<forall>pf others. recv_loop pf (Received d # others) c = recv_loop pf others c'" "expects head' c'"
    "latest_image c' = (if ds = [] then latest_image c else Some (last ds))" "pending c' @ rest = head' @ frames imgs'"
proof (cases "head = []")
  case True
  then have "streaming c" "pending c @ d @ rest = frames imgs" using assms(1,5) by (simp_all add: expects_def)
  from recv_piece[OF this(1) assms(2-4) this(2)] obtain ds imgs' c' where
    "imgs = ds @ imgs'" "\<And>pf others. recv_loop pf (Received d # others) c = recv_loop pf others c'"
    "latest_image c' = (if ds = [] then latest_image c else Some (last ds))" "pending c' @ rest = frames imgs'" "streaming c'"
    by blast
  then show thesis using that[of ds imgs' c' "[]"] by (simp add: expects_def)
next
  case False
  then have a: "awaiting head c" "d @ rest = head @ frames imgs"
    using assms(1,5) by (simp_all add: expects_def awaiting_def)
  from a(2) obtain us where "d = head @ us \<and> us @ rest = frames imgs \<or> d @ us = head \<and> rest = us @ frames imgs"
    by (auto simp: append_eq_append_conv2)
  then consider us where "head = d @ us" "rest = us @ frames imgs" | us where "d = head @ us" "us \<noteq> []" "us @ rest = frames imgs"
    by (metis append_Nil append_Nil2)
  then show thesis
  proof cases
    case 1
    from recv_head_piece[of d us c] a(1) 1(1) assms(2) obtain c' where
      "\<And>pf others. recv_loop pf (Received d # others) c = recv_loop pf others c'" "awaiting us c'"
      "latest_image c' = latest_image c" by blast
    then show thesis using that[of "[]" imgs c' us] 1(2) by (simp add: awaiting_expects awaiting_def)
  next
    case 2
    have "length us \<le> 16383" using 2(1) assms(3) by simp
    from recv_last_head_piece[OF a(1) 2(2) this assms(4) 2(3)] obtain ds imgs' c' where
      "imgs = ds @ imgs'" "\<And>pf others. recv_loop pf (Received (head @ us) # others) c = recv_loop pf others c'"
      "latest_image c' = (if ds = [] then latest_image c else Some (last ds))" "pending c' @ rest = frames imgs'" "streaming c'"
      by blast
    then show thesis using that[of ds imgs' c' "[]"] 2(1) by (simp add: expects_def)
  qed
qed

lemma expects_loop:
  assumes "expects head c" "\<forall>d\<in>set datas. d \<noteq> [] \<and> length d \<le> 16383" "\<forall>img\<in>set imgs. frame_sized img"
    and "pending c @ concat datas @ rest = head @ frames imgs"
  obtains ds imgs' c' head' where "imgs = ds @ imgs'"
    "recv_loop pf (map Received datas @ [Recv_error EAGAIN]) c = Inr (Some (True, c'))" "expects head' c'"
    "latest_image c' = (if ds = [] then latest_image c else Some (last ds))" "pending c' @ rest = head' @ frames imgs'"
  using assms
proof (induction datas arbitrary: c head imgs thesis)
  case Nil
  from Nil.prems(1)[of "[]" imgs c head] Nil.prems show thesis by simp
next
  case (Cons d datas)
  have d: "d \<noteq> []" "length d \<le> 16383" using Cons.prems(3) by simp_all
  have st: "pending c @ d @ concat datas @ rest = head @ frames imgs" using Cons.prems(5) by simp
  obtain ds1 imgs1 c1 head1 where
    1: "imgs = ds1 @ imgs1" "\<forall>pf others. recv_loop pf (Received d # others) c = recv_loop pf others c1" "expects head1 c1"
      "latest_image c1 = (if ds1 = [] then latest_image c else Some (last ds1))"
      "pending c1 @ concat datas @ rest = head1 @ frames imgs1"
    by (rule expects_piece[OF Cons.prems(2) d Cons.prems(4) st])
  have sz: "\<forall>d\<in>set datas. d \<noteq> [] \<and> length d \<le> 16383" "\<forall>img\<in>set imgs1. frame_sized img"
    using Cons.prems(3,4) 1(1) by simp_all
  show thesis
  proof (rule Cons.IH[OF _ 1(3) sz 1(5)])
    fix ds2 imgs2 head2 c2
    assume r: "imgs1 = ds2 @ imgs2" "recv_loop pf (map Received datas @ [Recv_error EAGAIN]) c1 = Inr (Some (True, c2))"
      "expects head2 c2" "latest_image c2 = (if ds2 = [] then latest_image c1 else Some (last ds2))"
      "pending c2 @ rest = head2 @ frames imgs2"
    show thesis
      by (rule Cons.prems(1)[of "ds1 @ ds2" imgs2 c2 head2]) (use 1 r in simp_all)
  qed
qed

section \<open>Calls of process\<close>

text \<open>What one call of \<^verbatim>\<open>process\<close> receives before it is told that there is no more.\<close>

definition delivers :: "process_env \<Rightarrow> bytes list \<Rightarrow> bool" where
  "delivers env datas \<longleftrightarrow> ready env \<and> env_recv env = map Received datas @ [Recv_error EAGAIN] \<and>
     (\<forall>d\<in>set datas. d \<noteq> [] \<and> length d \<le> 16383)"

lemma abstract_sent [simp]:
  "pending (sent n (c\<lparr>connected := b\<rparr>)) = pending c" "latest_image (sent n (c\<lparr>connected := b\<rparr>)) = latest_image c"
  "buffers_ok (sent n (c\<lparr>connected := b\<rparr>)) = buffers_ok c" "parser (sent n (c\<lparr>connected := b\<rparr>)) = parser c"
  by (cases "ping c"; simp add: sent_def latest_image_def pending_def active_side_def idle_side_def)+

lemma expects_sent [simp]: "expects head (sent n (c\<lparr>connected := b\<rparr>)) = expects head c"
  by (simp add: expects_def streaming_def awaiting_def header_parse_eq[of "sent n (c\<lparr>connected := b\<rparr>)" _ _ c])

lemma process_delivers:
  assumes "connection_ok c" "expects head c" "delivers env datas" "\<forall>img\<in>set imgs. frame_sized img"
    and "pending c @ concat datas @ rest = head @ frames imgs"
  obtains ds imgs' c' head' where "imgs = ds @ imgs'" "rsva11001_connection_process pf env c = Inr (Some (True, c'))"
    "connection_ok c'" "expects head' c'" "latest_image c' = (if ds = [] then latest_image c else Some (last ds))"
    "pending c' @ rest = head' @ frames imgs'"
proof -
  have env: "ready env" "env_recv env = map Received datas @ [Recv_error EAGAIN]" "\<forall>d\<in>set datas. d \<noteq> [] \<and> length d \<le> 16383"
    using assms(3) by (simp_all add: delivers_def)
  from process_ready[OF assms(1) env(1), of pf] obtain n where
    p: "rsva11001_connection_process pf env c = recv_loop pf (env_recv env) (sent n (c\<lparr>connected := True\<rparr>))" by blast
  let ?c = "sent n (c\<lparr>connected := True\<rparr>)"
  have c: "expects head ?c" "pending ?c @ concat datas @ rest = head @ frames imgs" using assms(2,5) by simp_all
  obtain ds imgs' c' head' where
    l: "imgs = ds @ imgs'" "recv_loop pf (map Received datas @ [Recv_error EAGAIN]) ?c = Inr (Some (True, c'))" "expects head' c'"
      "latest_image c' = (if ds = [] then latest_image ?c else Some (last ds))" "pending c' @ rest = head' @ frames imgs'"
    by (rule expects_loop[OF c(1) env(3) assms(4) c(2)])
  have r: "rsva11001_connection_process pf env c = Inr (Some (True, c'))"
    "latest_image c' = (if ds = [] then latest_image c else Some (last ds))"
    using p env(2) l(2,4) by simp_all
  have "sends_ok (env_send env)" using env(1) by (simp add: ready_def sends_well_def)
  from process_ok[OF assms(1) this, of pf] r(1) have "connection_ok c'" by (simp add: outcome_ok_def)
  then show thesis by (rule that[OF l(1) r(1) _ l(3) r(2) l(5)])
qed

text \<open>One call after the other, as long as they succeed.\<close>

fun process_calls :: "platform \<Rightarrow> process_env list \<Rightarrow> rsva11001_connection \<Rightarrow> (bool \<times> rsva11001_connection) option res" where
  "process_calls pf [] c = Inr (Some (True, c))"
| "process_calls pf (env # envs) c =
     rbind (rsva11001_connection_process pf env c) (\<lambda>r.
       case r of
         None \<Rightarrow> Inr None
       | Some (ok, c) \<Rightarrow> if ok then process_calls pf envs c else Inr (Some (False, c)))"

lemma calls_deliver:
  assumes "connection_ok c" "expects head c" "list_all2 delivers envs datass" "\<forall>img\<in>set imgs. frame_sized img"
    and "pending c @ concat (concat datass) @ rest = head @ frames imgs"
  obtains ds imgs' c' head' where "imgs = ds @ imgs'" "process_calls pf envs c = Inr (Some (True, c'))"
    "connection_ok c'" "expects head' c'" "latest_image c' = (if ds = [] then latest_image c else Some (last ds))"
    "pending c' @ rest = head' @ frames imgs'"
  using assms(3,1,2,4,5)
proof (induction envs datass arbitrary: c head imgs thesis rule: list_all2_induct)
  case Nil
  from Nil.prems(1)[of "[]" imgs c head] Nil.prems show thesis by simp
next
  case (Cons env envs datas datass)
  have "pending c @ concat datas @ concat (concat datass) @ rest = head @ frames imgs" using Cons.prems(5) by simp
  then obtain ds1 imgs1 c1 head1 where
    1: "imgs = ds1 @ imgs1" "rsva11001_connection_process pf env c = Inr (Some (True, c1))" "connection_ok c1"
      "expects head1 c1" "latest_image c1 = (if ds1 = [] then latest_image c else Some (last ds1))"
      "pending c1 @ concat (concat datass) @ rest = head1 @ frames imgs1"
    by (rule process_delivers[OF Cons.prems(2,3) Cons.hyps(1) Cons.prems(4)])
  have sz: "\<forall>img\<in>set imgs1. frame_sized img" using Cons.prems(4) 1(1) by simp
  show thesis
  proof (rule Cons.IH[OF _ 1(3,4) sz 1(6)])
    fix ds2 imgs2 head2 c2
    assume r: "imgs1 = ds2 @ imgs2" "process_calls pf envs c1 = Inr (Some (True, c2))" "connection_ok c2" "expects head2 c2"
      "latest_image c2 = (if ds2 = [] then latest_image c1 else Some (last ds2))" "pending c2 @ rest = head2 @ frames imgs2"
    show thesis
      by (rule Cons.prems(1)[of "ds1 @ ds2" imgs2 c2 head2]) (use 1 r in simp_all)
  qed
qed

text \<open>When nothing is left to come, every frame has been read.\<close>

lemma complete_frame_frames: "img \<in> set imgs \<Longrightarrow> \<forall>img\<in>set imgs. frame_sized img \<Longrightarrow> complete_frame (frames imgs)"
  by (cases imgs) (auto simp: complete_frame_def announced_encode length_encode_frame frame_sized_def)

lemma expects_nothing_left:
  assumes "expects head c" "pending c = head @ frames imgs" "\<forall>img\<in>set imgs. frame_sized img"
  shows "imgs = []"
proof (rule ccontr)
  assume "imgs \<noteq> []"
  then have "complete_frame (frames imgs)" using complete_frame_frames[of "hd imgs" imgs] assms(3) by simp
  moreover have "head = [] \<Longrightarrow> \<not> complete_frame (frames imgs)" using assms(1,2) by (simp add: expects_def streaming_def)
  moreover have "head \<noteq> [] \<Longrightarrow> False" using assms(1,2) by (simp add: expects_def awaiting_def)
  ultimately show False by blast
qed

end
