(* ===== verification/Adapter_State.thy ===== *)
theory Adapter_State
  imports Rsva_Failures C_Strings
begin

text \<open>
  The global variables of \<^verbatim>\<open>main.c\<close>, its configuration and its set-up. A pointer to a camera is
  its index in \<^verbatim>\<open>conns\<close>, so that what \<^verbatim>\<open>activeCamera\<close> points to and the array are the same
  object. The SCGI library (sandgrouse) and the operating system are arguments: a connection of
  the library is a number, and what the adapter sends on it is a list of responses.
\<close>

section \<open>The globals\<close>

definition MAX_NUM_CAMERAS :: nat where "MAX_NUM_CAMERAS = 8"
definition MAX_PENDING_REQUESTS :: nat where "MAX_PENDING_REQUESTS = 64"
definition SCGI_ID :: nat where "SCGI_ID = 2"
definition SIGFD_ID :: nat where "SIGFD_ID = 1"
definition CAMERA_ID :: nat where "CAMERA_ID = 0"

type_synonym sg_connection = nat

record pending_requests =
  connections :: "sg_connection option list"
  numPending :: nat

datatype response =
    Send404 sg_connection
  | Response sg_connection "(string \<times> string) list" bytes

text \<open>
  \<^verbatim>\<open>lastImage[i]\<close> is the mapped image (its size is the length), \<^theory_text>\<open>None\<close> the null pointer. The last
  two fields are the world: the files of the working directory and the responses so far.
\<close>

record globals =
  conns :: "rsva11001_connection option list"
  activeCamera :: "nat option"
  cameraIterator :: nat
  numCameras :: nat
  lastImage :: "bytes option list"
  pendingRequests :: "pending_requests list"
  g_username :: string
  g_password :: string
  g_host :: string
  signalFd :: int
  epollFd :: int
  files :: "string \<Rightarrow> bytes option"
  responses :: "response list"

definition no_requests :: pending_requests where
  "no_requests = \<lparr>connections = replicate MAX_PENDING_REQUESTS None, numPending = 0\<rparr>"

text \<open>\<^verbatim>\<open>bzero(&globals, sizeof(globals))\<close>, with the files there are.\<close>

definition zeroed_globals :: "(string \<Rightarrow> bytes option) \<Rightarrow> globals" where
  "zeroed_globals fs =
     \<lparr>conns = replicate MAX_NUM_CAMERAS None, activeCamera = None, cameraIterator = 0, numCameras = 0,
      lastImage = replicate MAX_NUM_CAMERAS None, pendingRequests = replicate MAX_NUM_CAMERAS no_requests,
      g_username = [], g_password = [], g_host = [], signalFd = 0, epollFd = 0, files = fs, responses = []\<rparr>"

section \<open>Configuration\<close>

text \<open>\<^verbatim>\<open>strcpy\<close> into an array of \<^theory_text>\<open>n\<close> bytes.\<close>

definition strcpy_checked :: "nat \<Rightarrow> string option \<Rightarrow> string res" where
  "strcpy_checked n s =
     (case s of
        None \<Rightarrow> Inl (Null_pointer In_adapter)
      | Some t \<Rightarrow> if n \<le> length t then Inl (Out_of_bounds In_adapter) else Inr t)"

definition read_num_cameras :: "string \<Rightarrow> globals \<Rightarrow> bool \<times> globals" where
  "read_num_cameras s g =
     (let (v, endptr, err) = strtoul (s @ [NUL])
      in if v = 2 ^ 64 - 1 \<and> err then (False, g)
         else if MAX_NUM_CAMERAS \<le> v \<or> 2 ^ 32 - 1 < v then (False, g)
         else (True, g\<lparr>numCameras := v\<rparr>))"

definition readConfiguration :: "(string \<Rightarrow> string option) \<Rightarrow> globals \<Rightarrow> (bool \<times> globals) res" where
  "readConfiguration getenv g =
     (let RSVA11001_HOST = getenv ''RSVA11001_HOST'';
          RSVA11001_PASSWORD = getenv ''RSVA11001_PASSWORD'';
          RSVA11001_USERNAME = getenv ''RSVA11001_USERNAME'';
          RSVA11001_NUM_CAMERAS = getenv ''RSVA11001_NUM_CAMERAS''
      in if RSVA11001_HOST = None then Inr (False, g)
         else if RSVA11001_PASSWORD = None then Inr (False, g)
         else if RSVA11001_HOST = None then Inr (False, g)
         else
           (case RSVA11001_NUM_CAMERAS of
              None \<Rightarrow> Inr (False, g)
            | Some n \<Rightarrow>
                rbind (strcpy_checked 256 RSVA11001_HOST) (\<lambda>h.
                rbind (strcpy_checked 64 RSVA11001_PASSWORD) (\<lambda>p.
                rbind (strcpy_checked 64 RSVA11001_USERNAME) (\<lambda>u.
                Inr (read_num_cameras n (g\<lparr>g_host := h, g_password := p, g_username := u\<rparr>)))))))"

section \<open>Set-up\<close>

text \<open>The loop over the cameras: \<^theory_text>\<open>mems i\<close> is what \<^verbatim>\<open>malloc\<close> gives for camera \<^theory_text>\<open>i\<close>.\<close>

fun setup_loop :: "(nat \<Rightarrow> (nat \<times> rsva11001_connection) option) \<Rightarrow> nat list \<Rightarrow> globals \<Rightarrow> bool \<times> globals" where
  "setup_loop mems [] g = (True, g)"
| "setup_loop mems (i # is') g =
     (case rsva11001_connection_malloc (mems i) of
        None \<Rightarrow> (False, g)
      | Some conn \<Rightarrow>
          (case rsva11001_connection_configure (g_host g) (g_username g) (g_password g) (of_nat (i + 1)) conn of
             (ok, conn) \<Rightarrow>
               if \<not> ok then (False, g)
               else setup_loop mems is' (g\<lparr>conns := (conns g)[i := Some conn]\<rparr>)))"

definition setupCameraConnections :: "(nat \<Rightarrow> (nat \<times> rsva11001_connection) option) \<Rightarrow> globals \<Rightarrow> bool \<times> globals" where
  "setupCameraConnections mems g =
     setup_loop mems [0 ..< numCameras g] (g\<lparr>conns := replicate MAX_NUM_CAMERAS None, cameraIterator := 0\<rparr>)"

text \<open>The two descriptors: \<^theory_text>\<open>masked\<close> is the result of \<^verbatim>\<open>sigprocmask\<close>.\<close>

definition setupSignalFd :: "int \<Rightarrow> int \<Rightarrow> globals \<Rightarrow> bool \<times> globals" where
  "setupSignalFd masked fd g =
     (if masked \<noteq> 0 then (False, g)
      else (let g = g\<lparr>signalFd := fd\<rparr> in (fd \<noteq> - 1, g)))"

definition setupEpollFd :: "int \<Rightarrow> int \<Rightarrow> globals \<Rightarrow> bool \<times> globals" where
  "setupEpollFd fd added g =
     (let g = g\<lparr>epollFd := fd\<rparr>
      in if fd = - 1 then (False, g) else if added \<noteq> 0 then (False, g) else (True, g))"

text \<open>
  The SCGI server: what the library and \<^verbatim>\<open>epoll_ctl\<close> answer. A set-up that fails gives back what
  it has made so far.
\<close>

definition setupScgiServer :: "bool \<Rightarrow> bool \<Rightarrow> int \<Rightarrow> int \<Rightarrow> bool \<times> release list" where
  "setupScgiServer allocated initialised fd added =
     (if \<not> allocated then (False, [])
      else if \<not> initialised then (False, [Free_server])
      else if fd < 0 then (False, [Destroy_server, Free_server])
      else if added \<noteq> 0 then (False, [Destroy_server, Free_server])
      else (True, []))"

definition closeScgiServer :: "release list" where
  "closeScgiServer = [Destroy_server, Free_server]"

end
