(* ===== verification/Adapter_Serve.thy ===== *)
theory Adapter_Serve
  imports Adapter_State
begin

text \<open>
  What \<^verbatim>\<open>main.c\<close> does with an image and with a request: \<^verbatim>\<open>openNextCameraConnection\<close>, \<^verbatim>\<open>sendJpeg\<close>,
  \<^verbatim>\<open>writeImageFile\<close>, \<^verbatim>\<open>processActiveCamera\<close> and \<^verbatim>\<open>handleNewRequest\<close>.
\<close>

section \<open>The next camera\<close>

text \<open>\<^theory_text>\<open>added\<close> is the result of \<^verbatim>\<open>epoll_ctl\<close>.\<close>

definition openNextCameraConnection :: "platform \<Rightarrow> open_env \<Rightarrow> int \<Rightarrow> globals \<Rightarrow> (bool \<times> globals) res" where
  "openNextCameraConnection pf env added g =
     (if MAX_NUM_CAMERAS \<le> cameraIterator g then Inl (Out_of_bounds In_adapter)
      else
        (let i = cameraIterator g;
             next = (if numCameras g \<le> i + 1 then 0 else i + 1)
         in case conns g ! i of
              None \<Rightarrow> Inl (Assert_failed In_adapter)
            | Some c \<Rightarrow>
                rbind (rsva11001_connection_open pf env c) (\<lambda>(ok, c).
                  let g = g\<lparr>activeCamera := Some i, cameraIterator := next, conns := (conns g)[i := Some c]\<rparr>
                  in if \<not> ok then Inr (False, g) else if added \<noteq> 0 then Inr (False, g) else Inr (True, g))))"

section \<open>Answers\<close>

text \<open>What the SCGI library tells the adapter.\<close>

record sg_env =
  sg_getHeader :: "sg_connection \<Rightarrow> string \<Rightarrow> string option"
  sg_writeResponse :: "sg_connection \<Rightarrow> bool"
  sg_query_init :: "string \<Rightarrow> bool"
  sg_findFirst :: "string \<Rightarrow> string \<Rightarrow> bool \<times> nat \<times> bytes"

definition respond :: "response \<Rightarrow> globals \<Rightarrow> globals" where
  "respond r g = g\<lparr>responses := responses g @ [r]\<rparr>"

definition jpeg_headers :: "string option \<Rightarrow> string \<Rightarrow> (string \<times> string) list" where
  "jpeg_headers host size_text =
     [(''Content-Type'', ''image/jpeg''), (''Status'', ''200 OK''), (''Content-Length'', size_text),
      (''Connection'', ''Close''), (''Cache-Control'', ''no-cache'')] @
     (case host of None \<Rightarrow> [] | Some h \<Rightarrow> [(''Host'', h)])"

definition sendJpeg :: "sg_env \<Rightarrow> sg_connection \<Rightarrow> bytes \<Rightarrow> globals \<Rightarrow> bool \<times> globals" where
  "sendJpeg sg conn data g =
     (let size_text = decimal (length data)
      in if length size_text = 16 then (True, respond (Send404 conn) g)
         else if sg_writeResponse sg conn
         then (True, respond (Response conn (jpeg_headers (sg_getHeader sg conn ''HTTP_HOST'') (take 15 size_text)) data) g)
         else (False, g))"

section \<open>An image from the active camera\<close>

text \<open>A pair of ints is a result and its \<^verbatim>\<open>errno\<close>.\<close>

record file_env =
  fe_unlink :: "int \<times> int"
  fe_open :: int
  fe_ftruncate :: int
  fe_mmap :: bool
  fe_close :: int
  fe_munmap :: int
  fe_sg_process :: bool

definition ENOENT :: int where "ENOENT = 2"

definition image_name :: "nat \<Rightarrow> string" where
  "image_name n = take 127 (''camera_'' @ decimal n @ ''.jpg'')"

definition set_file :: "string \<Rightarrow> bytes option \<Rightarrow> globals \<Rightarrow> globals" where
  "set_file name b g = g\<lparr>files := (files g)(name := b)\<rparr>"

definition resized :: "nat \<Rightarrow> bytes \<Rightarrow> bytes" where
  "resized n b = take n b @ replicate (n - length b) NUL"

fun fill_pending :: "sg_env \<Rightarrow> nat \<Rightarrow> bytes \<Rightarrow> nat list \<Rightarrow> globals \<Rightarrow> globals res" where
  "fill_pending sg cam jpeg [] g = Inr g"
| "fill_pending sg cam jpeg (i # is') g =
     (let p = pendingRequests g ! cam
      in if MAX_PENDING_REQUESTS \<le> i then Inl (Out_of_bounds In_adapter)
         else
           (case connections p ! i of
              None \<Rightarrow> Inl (Assert_failed In_adapter)
            | Some conn \<Rightarrow>
                let g = snd (sendJpeg sg conn jpeg g)
                in fill_pending sg cam jpeg is'
                     (g\<lparr>pendingRequests := (pendingRequests g)[cam := p\<lparr>connections := (connections p)[i := None]\<rparr>]\<rparr>)))"

text \<open>The image is in the file: store it and fill the requests that wait for it.\<close>

definition publish_image :: "sg_env \<Rightarrow> file_env \<Rightarrow> bytes \<Rightarrow> globals \<Rightarrow> (bool \<times> globals) res" where
  "publish_image sg fe jpeg g =
     (let cam = cameraIterator g
      in if lastImage g ! cam \<noteq> None \<and> fe_munmap fe \<noteq> 0 then Inr (False, g)
         else
           (let g = g\<lparr>lastImage := (lastImage g)[cam := Some jpeg]\<rparr>
            in rbind (fill_pending sg cam jpeg [0 ..< numPending (pendingRequests g ! cam)] g) (\<lambda>g.
                 let p = pendingRequests g ! cam;
                     g = g\<lparr>pendingRequests := (pendingRequests g)[cam := p\<lparr>numPending := 0\<rparr>]\<rparr>
                 in Inr (fe_sg_process fe, g))))"

definition writeImageFile :: "sg_env \<Rightarrow> file_env \<Rightarrow> bytes \<Rightarrow> globals \<Rightarrow> (bool \<times> globals) res" where
  "writeImageFile sg fe jpeg g =
     (let name = image_name (cameraIterator g)
      in if fst (fe_unlink fe) \<noteq> 0 \<and> snd (fe_unlink fe) \<noteq> ENOENT then Inr (False, g)
         else
           (let g = (if fst (fe_unlink fe) = 0 then set_file name None g else g)
            in if fe_open fe = - 1 then Inr (False, g)
               else
                 (let old = (case files g name of None \<Rightarrow> [] | Some b \<Rightarrow> b);
                      g = set_file name (Some old) g
                  in if fe_ftruncate fe \<noteq> 0 then Inr (False, g)
                     else
                       (let g = set_file name (Some (resized (length jpeg) old)) g
                        in if \<not> fe_mmap fe then Inr (False, g)
                           else if fe_close fe \<noteq> 0 then Inr (False, g)
                           else publish_image sg fe jpeg (set_file name (Some jpeg) g)))))"

record camera_env =
  ce_process :: process_env
  ce_close :: "int \<times> int"
  ce_file :: file_env

text \<open>The image is there: the camera is closed and the image written under the iterator's number.\<close>

definition take_image ::
  "platform \<Rightarrow> sg_env \<Rightarrow> camera_env \<Rightarrow> nat \<Rightarrow> rsva11001_connection \<Rightarrow> bytes \<Rightarrow> globals \<Rightarrow> (int \<times> globals) res" where
  "take_image pf sg env i c jpeg g =
     (case rsva11001_connection_close pf (ce_close env) c of
        (closed, c) \<Rightarrow>
          let g = g\<lparr>conns := (conns g)[i := Some c]\<rparr>
          in if \<not> closed then Inr (- 2, g)
             else rbind (writeImageFile sg (ce_file env) jpeg g) (\<lambda>(ok, g).
               if \<not> ok then Inr (- 1, g) else Inr (0, g\<lparr>activeCamera := None\<rparr>)))"

definition processActiveCamera :: "platform \<Rightarrow> sg_env \<Rightarrow> camera_env \<Rightarrow> globals \<Rightarrow> (int \<times> globals) option res" where
  "processActiveCamera pf sg env g =
     (case activeCamera g of
        None \<Rightarrow> Inl (Assert_failed In_adapter)
      | Some i \<Rightarrow>
          (case conns g ! i of
             None \<Rightarrow> Inl (Null_pointer In_adapter)
           | Some c \<Rightarrow>
               rbind (rsva11001_connection_process pf (ce_process env) c) (\<lambda>r.
                 case r of
                   None \<Rightarrow> Inr None
                 | Some (ok, c) \<Rightarrow>
                     let g = g\<lparr>conns := (conns g)[i := Some c]\<rparr>
                     in if \<not> ok then Inr (Some (- 1, g))
                        else rbind (rsva11001_connection_getLatestImage 30000 c) (\<lambda>(got, imageSize, jpeg).
                          if \<not> got then Inr (Some (- 1, g))
                          else if imageSize = 0 then Inr (Some (0, g))
                          else rbind (take_image pf sg env i c jpeg g) (\<lambda>r. Inr (Some r))))))"

section \<open>A new request\<close>

text \<open>The number of the camera, when the query names one; \<^theory_text>\<open>None\<close> is a 404.\<close>

definition parse_source :: "nat \<Rightarrow> nat \<Rightarrow> bytes \<Rightarrow> nat option res" where
  "parse_source cameras len buffer =
     (if len = 0 then Inr (Some 0)
      else
        (let (v, endptr, err) = strtoul buffer
         in if v = 2 ^ 64 - 1 \<and> err then Inr None
            else if endptr = [] then Inl (Out_of_bounds In_query_buffer)
            else if hd endptr \<noteq> NUL then Inr None
            else if 2 ^ 32 - 1 < v then Inr None
            else if cameras \<le> v then Inr None
            else Inr (Some v)))"

definition serve_source :: "sg_env \<Rightarrow> sg_connection \<Rightarrow> string \<Rightarrow> nat \<Rightarrow> globals \<Rightarrow> (bool \<times> globals) res" where
  "serve_source sg conn query src g =
     (if \<not> src < numCameras g then Inl (Assert_failed In_adapter)
      else
        (let (found, len, buffer) = sg_findFirst sg query ''wait''
         in if \<not> found then Inr (True, respond (Send404 conn) g)
            else if len = 1 \<and> take 1 buffer = ''1''
            then
              (let p = pendingRequests g ! src; index = numPending p
               in if MAX_PENDING_REQUESTS \<le> index then Inl (Out_of_bounds In_pending_requests)
                  else Inr (True, g\<lparr>pendingRequests := (pendingRequests g)[src :=
                         \<lparr>connections = (connections p)[index := Some conn], numPending = index + 1\<rparr>]\<rparr>))
            else
              (case lastImage g ! src of
                 None \<Rightarrow> Inr (True, respond (Send404 conn) g)
               | Some jpeg \<Rightarrow> Inr (sendJpeg sg conn jpeg g))))"

definition handleNewRequest :: "sg_env \<Rightarrow> sg_connection \<Rightarrow> globals \<Rightarrow> (bool \<times> globals) res" where
  "handleNewRequest sg conn g =
     (let not_found = Inr (True, respond (Send404 conn) g)
      in if sg_getHeader sg conn ''REQUEST_METHOD'' \<noteq> Some ''GET'' then not_found
         else if sg_getHeader sg conn ''PATH_INFO'' \<noteq> Some ''/camera.jpg'' then not_found
         else
           (case sg_getHeader sg conn ''QUERY_STRING'' of
              None \<Rightarrow> not_found
            | Some query \<Rightarrow>
                if \<not> sg_query_init sg query then not_found
                else
                  (let (found, len, buffer) = sg_findFirst sg query ''source''
                   in if \<not> found then not_found
                      else rbind (parse_source (numCameras g) len buffer) (\<lambda>r.
                        case r of None \<Rightarrow> not_found | Some src \<Rightarrow> serve_source sg conn query src g))))"

end
