(* ===== verification/Adapter_Reactor.thy ===== *)
theory Adapter_Reactor
  imports Adapter_Serve
begin

text \<open>
  The reactor of \<^verbatim>\<open>main.c\<close>: what one event does, a batch of events, the two nested loops, and the
  clean-up at the end. The answers of \<^verbatim>\<open>epoll_wait\<close> are a list; a reactor whose list is used up
  is still waiting, which is \<^theory_text>\<open>None\<close>.
\<close>

section \<open>Events\<close>

text \<open>\<^theory_text>\<open>ev_error\<close> is \<^verbatim>\<open>EPOLLERR\<close> or \<^verbatim>\<open>EPOLLHUP\<close>; \<^theory_text>\<open>ev_close\<close> answers the \<^verbatim>\<open>close\<close> after an error.\<close>

record camera_event =
  ev_error :: bool
  ev_camera :: camera_env
  ev_close :: "int \<times> int"

text \<open>The two results of \<^verbatim>\<open>sg_server_process\<close>, and the connections there are in between.\<close>

record scgi_event =
  first_process :: bool
  new_connections :: "sg_connection list"
  second_process :: bool

datatype event =
    Camera_event camera_event
  | Signal_event
  | Scgi_event scgi_event
  | Unknown_event nat

fun event_id :: "event \<Rightarrow> nat" where
  "event_id (Camera_event e) = CAMERA_ID"
| "event_id Signal_event = SIGFD_ID"
| "event_id (Scgi_event e) = SCGI_ID"
| "event_id (Unknown_event n) = n"

text \<open>The camera is closed and no longer active, or the reactor shuts down.\<close>

definition drop_camera :: "platform \<Rightarrow> int \<times> int \<Rightarrow> bool \<Rightarrow> globals \<Rightarrow> (bool \<times> globals) res" where
  "drop_camera pf answer shutdown g =
     (case activeCamera g of
        None \<Rightarrow> Inl (Null_pointer In_adapter)
      | Some i \<Rightarrow>
          (case conns g ! i of
             None \<Rightarrow> Inl (Null_pointer In_adapter)
           | Some c \<Rightarrow>
               (case rsva11001_connection_close pf answer c of
                  (closed, c) \<Rightarrow>
                    let g = g\<lparr>conns := (conns g)[i := Some c]\<rparr>
                    in if closed then Inr (shutdown, g\<lparr>activeCamera := None\<rparr>) else Inr (True, g))))"

definition handle_camera :: "platform \<Rightarrow> sg_env \<Rightarrow> camera_event \<Rightarrow> bool \<Rightarrow> globals \<Rightarrow> (bool \<times> globals) option res" where
  "handle_camera pf sg e shutdown g =
     (if ev_error e then rbind (drop_camera pf (ev_close e) shutdown g) (\<lambda>r. Inr (Some r))
      else
        rbind (processActiveCamera pf sg (ev_camera e) g) (\<lambda>r.
          case r of
            None \<Rightarrow> Inr None
          | Some (code, g) \<Rightarrow>
              if code = 0 then Inr (Some (shutdown, g))
              else if code = - 1 then rbind (drop_camera pf (ev_close e) shutdown g) (\<lambda>r. Inr (Some r))
              else Inr (Some (True, g))))"

fun handle_requests :: "sg_env \<Rightarrow> sg_connection list \<Rightarrow> bool \<Rightarrow> globals \<Rightarrow> (bool \<times> globals) res" where
  "handle_requests sg [] shutdown g = Inr (shutdown, g)"
| "handle_requests sg (conn # others) shutdown g =
     rbind (handleNewRequest sg conn g) (\<lambda>(ok, g).
       if \<not> ok then Inr (True, g) else handle_requests sg others shutdown g)"

definition handle_scgi :: "sg_env \<Rightarrow> scgi_event \<Rightarrow> bool \<Rightarrow> globals \<Rightarrow> (bool \<times> globals) res" where
  "handle_scgi sg e shutdown g =
     (if \<not> first_process e then Inr (True, g)
      else rbind (handle_requests sg (new_connections e) shutdown g) (\<lambda>(shutdown, g).
        Inr (if \<not> second_process e then True else shutdown, g)))"

fun handle_event :: "platform \<Rightarrow> sg_env \<Rightarrow> event \<Rightarrow> bool \<Rightarrow> globals \<Rightarrow> (bool \<times> globals) option res" where
  "handle_event pf sg (Camera_event e) shutdown g = handle_camera pf sg e shutdown g"
| "handle_event pf sg Signal_event shutdown g = Inr (Some (True, g))"
| "handle_event pf sg (Scgi_event e) shutdown g = rbind (handle_scgi sg e shutdown g) (\<lambda>r. Inr (Some r))"
| "handle_event pf sg (Unknown_event n) shutdown g = Inr (Some (True, g))"

fun handle_events :: "platform \<Rightarrow> sg_env \<Rightarrow> event list \<Rightarrow> bool \<Rightarrow> globals \<Rightarrow> (bool \<times> globals) option res" where
  "handle_events pf sg [] shutdown g = Inr (Some (shutdown, g))"
| "handle_events pf sg (e # es) shutdown g =
     rbind (handle_event pf sg e shutdown g) (\<lambda>r.
       case r of None \<Rightarrow> Inr None | Some (shutdown, g) \<Rightarrow> handle_events pf sg es shutdown g)"

section \<open>The loops\<close>

definition MAX_EVENTS :: nat where "MAX_EVENTS = 4"
definition EINTR :: int where "EINTR = 4"

datatype wait_answer = Events "event list" | Wait_failed int

text \<open>What the system answers in one round: to \<^verbatim>\<open>open\<close> and \<^verbatim>\<open>epoll_ctl\<close>, if it comes to that, and to \<^verbatim>\<open>epoll_wait\<close>.\<close>

datatype turn = Turn (turn_open: open_env) (turn_added: int) (turn_wait: wait_answer)

text \<open>
  \<^theory_text>\<open>inner\<close> tells that the inner loop goes on: the last batch was full and there is an active
  camera. Only when the inner loop is left is \<^verbatim>\<open>shutdown\<close> looked at.
\<close>

fun reactor :: "platform \<Rightarrow> sg_env \<Rightarrow> turn list \<Rightarrow> bool \<Rightarrow> bool \<Rightarrow> globals \<Rightarrow> (bool \<times> globals) option res" where
  "reactor pf sg turns inner shutdown g =
     (if \<not> inner \<and> shutdown then Inr (Some (True, g))
      else
        (case turns of
           [] \<Rightarrow> Inr None
         | t # others \<Rightarrow>
             rbind (if inner \<or> activeCamera g \<noteq> None then Inr (True, g)
                    else openNextCameraConnection pf (turn_open t) (turn_added t) g) (\<lambda>(ok, g).
               if \<not> ok then Inr (Some (True, g))
               else
                 (case turn_wait t of
                    Wait_failed err \<Rightarrow>
                      if err = EINTR then reactor pf sg others False shutdown g else Inr (Some (False, g))
                  | Events es \<Rightarrow>
                      rbind (handle_events pf sg es shutdown g) (\<lambda>r.
                        case r of
                          None \<Rightarrow> Inr None
                        | Some (shutdown, g) \<Rightarrow>
                            reactor pf sg others (length es = MAX_EVENTS \<and> activeCamera g \<noteq> None) shutdown g)))))"

declare reactor.simps [simp del]

section \<open>The end\<close>

text \<open>\<^verbatim>\<open>cleanupCameraConnections\<close>: what is released, camera by camera; \<^theory_text>\<open>answers i\<close> answers its \<^verbatim>\<open>close\<close>.\<close>

fun cleanup_loop :: "platform \<Rightarrow> (nat \<Rightarrow> int \<times> int) \<Rightarrow> nat list \<Rightarrow> globals \<Rightarrow> (release list \<times> globals) res" where
  "cleanup_loop pf answers [] g = Inr ([], g)"
| "cleanup_loop pf answers (i # is') g =
     (case conns g ! i of
        None \<Rightarrow> Inl (Null_pointer In_adapter)
      | Some c \<Rightarrow>
          let c = snd (rsva11001_connection_close pf (answers i) c)
          in rbind (cleanup_loop pf answers is' (g\<lparr>conns := (conns g)[i := None]\<rparr>)) (\<lambda>(rel, g).
               Inr (rsva11001_connection_destroy c @ Free_connection # rel, g)))"

definition cleanupCameraConnections :: "platform \<Rightarrow> (nat \<Rightarrow> int \<times> int) \<Rightarrow> globals \<Rightarrow> (release list \<times> globals) res" where
  "cleanupCameraConnections pf answers g = cleanup_loop pf answers [0 ..< numCameras g] g"

text \<open>\<^verbatim>\<open>main\<close>: the answers of the system during the set-up, then the reactor.\<close>

record setup_env =
  se_getenv :: "string \<Rightarrow> string option"
  se_signal :: "int \<times> int"
  se_epoll :: "int \<times> int"
  se_mems :: "nat \<Rightarrow> (nat \<times> rsva11001_connection) option"
  se_server :: "bool \<times> bool"
  se_server_fd :: "int \<times> int"
  se_close :: "nat \<Rightarrow> int \<times> int"

definition main_loop :: "platform \<Rightarrow> sg_env \<Rightarrow> setup_env \<Rightarrow> turn list \<Rightarrow> globals \<Rightarrow> (int \<times> release list \<times> globals) option res" where
  "main_loop pf sg se turns g =
     (case setupScgiServer (fst (se_server se)) (snd (se_server se)) (fst (se_server_fd se)) (snd (se_server_fd se)) of
        (ok, freed) \<Rightarrow>
          rbind (if ok then rbind (reactor pf sg turns False False g) (\<lambda>r. Inr (map_option (\<lambda>(_, g). (closeScgiServer, g)) r))
                 else Inr (Some (freed, g))) (\<lambda>r.
            case r of
              None \<Rightarrow> Inr None
            | Some (server, g) \<Rightarrow>
                rbind (cleanupCameraConnections pf (se_close se) g) (\<lambda>(rel, g').
                  Inr (Some (0, server @ [Close_fd (signalFd g), Close_fd (epollFd g)] @ rel, g')))))"

definition main :: "platform \<Rightarrow> sg_env \<Rightarrow> setup_env \<Rightarrow> turn list \<Rightarrow> (string \<Rightarrow> bytes option) \<Rightarrow>
    (int \<times> release list \<times> globals) option res" where
  "main pf sg se turns fs =
     rbind (readConfiguration (se_getenv se) (zeroed_globals fs)) (\<lambda>(ok, g).
       if \<not> ok then Inr (Some (1, [], g))
       else
         (case setupSignalFd (fst (se_signal se)) (snd (se_signal se)) g of
            (ok, g) \<Rightarrow>
              if \<not> ok then Inr (Some (1, [], g))
              else
                (case setupEpollFd (fst (se_epoll se)) (snd (se_epoll se)) g of
                   (ok, g) \<Rightarrow>
                     if \<not> ok then Inr (Some (1, [], g))
                     else
                       (case setupCameraConnections (se_mems se) g of
                          (ok, g) \<Rightarrow>
                            if \<not> ok then Inr (Some (1, [], g)) else main_loop pf sg se turns g))))"

end
