(* ===== verification/Adapter_Images.thy ===== *)
theory Adapter_Images
  imports Adapter_Reactor
begin

text \<open>
  How an image is published: the file, the slot and the requests that wait for it, in one
  equation each; and that publishing leaves the cameras alone.
\<close>

section \<open>Answers\<close>

text \<open>The responses one \<^verbatim>\<open>sendJpeg\<close> adds.\<close>

definition jpeg_answer :: "sg_env \<Rightarrow> sg_connection \<Rightarrow> bytes \<Rightarrow> response list" where
  "jpeg_answer sg conn data =
     (if length (decimal (length data)) = 16 then [Send404 conn]
      else if sg_writeResponse sg conn
      then [Response conn (jpeg_headers (sg_getHeader sg conn ''HTTP_HOST'') (take 15 (decimal (length data)))) data]
      else [])"

lemma sendJpeg_eq:
  "snd (sendJpeg sg conn data g) = g\<lparr>responses := responses g @ jpeg_answer sg conn data\<rparr>"
  by (simp add: sendJpeg_def jpeg_answer_def respond_def Let_def)

lemma sendJpeg_fst:
  "fst (sendJpeg sg conn data g) \<longleftrightarrow> length (decimal (length data)) = 16 \<or> sg_writeResponse sg conn"
  by (simp add: sendJpeg_def Let_def)

lemma small_size_text:
  "n < 1000000 \<Longrightarrow> length (decimal n) \<le> 6"
  using length_decimal_le[of n 5] by simp

text \<open>An image below a million bytes is sent with its length in full.\<close>

lemma jpeg_answer_small:
  assumes "length data < 1000000" "sg_writeResponse sg conn"
  shows "jpeg_answer sg conn data =
    [Response conn (jpeg_headers (sg_getHeader sg conn ''HTTP_HOST'') (decimal (length data))) data]"
  using small_size_text[OF assms(1)] assms(2) by (simp add: jpeg_answer_def)

section \<open>The waiting requests\<close>

definition pending_ok :: "pending_requests \<Rightarrow> bool" where
  "pending_ok p \<longleftrightarrow> length (connections p) = MAX_PENDING_REQUESTS \<and> numPending p \<le> MAX_PENDING_REQUESTS \<and>
     (\<forall>j<numPending p. connections p ! j \<noteq> None)"

definition waiting :: "pending_requests \<Rightarrow> sg_connection list" where
  "waiting p = map (\<lambda>j. the (connections p ! j)) [0 ..< numPending p]"

definition cleared :: "nat list \<Rightarrow> 'a option list \<Rightarrow> 'a option list" where
  "cleared js xs = foldl (\<lambda>xs j. xs[j := None]) xs js"

lemma length_cleared [simp]: "length (cleared js xs) = length xs"
  unfolding cleared_def by (induction js arbitrary: xs) auto

lemma fill_pending_eq:
  assumes "cam < length (pendingRequests g)" "distinct js"
    and "\<forall>j\<in>set js. j < 64 \<and> j < length (connections (pendingRequests g ! cam)) \<and> connections (pendingRequests g ! cam) ! j \<noteq> None"
  shows "fill_pending sg cam jpeg js g = Inr (g
    \<lparr>responses := responses g @ concat (map (\<lambda>j. jpeg_answer sg (the (connections (pendingRequests g ! cam) ! j)) jpeg) js),
     pendingRequests := (pendingRequests g)[cam := (pendingRequests g ! cam)
       \<lparr>connections := cleared js (connections (pendingRequests g ! cam))\<rparr>]\<rparr>)"
  using assms
proof (induction js arbitrary: g)
  case Nil
  then show ?case by (simp add: cleared_def)
next
  case (Cons j js)
  let ?p = "pendingRequests g ! cam"
  obtain conn where conn: "connections ?p ! j = Some conn" using Cons.prems(3) by auto
  let ?g = "g\<lparr>responses := responses g @ jpeg_answer sg conn jpeg,
     pendingRequests := (pendingRequests g)[cam := ?p\<lparr>connections := (connections ?p)[j := None]\<rparr>]\<rparr>"
  have p: "pendingRequests ?g ! cam = ?p\<lparr>connections := (connections ?p)[j := None]\<rparr>"
    using Cons.prems(1) by simp
  have other: "connections (pendingRequests ?g ! cam) ! k = connections ?p ! k" if "k \<in> set js" for k
  proof -
    have "k \<noteq> j" using that Cons.prems(2) by auto
    then show ?thesis using p by simp
  qed
  have IH: "fill_pending sg cam jpeg js ?g = Inr (?g
    \<lparr>responses := responses ?g @ concat (map (\<lambda>j. jpeg_answer sg (the (connections (pendingRequests ?g ! cam) ! j)) jpeg) js),
     pendingRequests := (pendingRequests ?g)[cam := (pendingRequests ?g ! cam)
       \<lparr>connections := cleared js (connections (pendingRequests ?g ! cam))\<rparr>]\<rparr>)"
    by (rule Cons.IH) (use Cons.prems other p in auto)
  have same: "map (\<lambda>k. jpeg_answer sg (the (connections (pendingRequests ?g ! cam) ! k)) jpeg) js =
      map (\<lambda>k. jpeg_answer sg (the (connections ?p ! k)) jpeg) js"
    using other by (intro map_cong) simp_all
  have "fill_pending sg cam jpeg (j # js) g = fill_pending sg cam jpeg js ?g"
    using conn Cons.prems(3) by (simp add: Let_def sendJpeg_eq MAX_PENDING_REQUESTS_def)
  then show ?case
    unfolding IH same using Cons.prems(1) conn by (simp add: cleared_def)
qed

section \<open>Publishing\<close>

text \<open>The globals after the image is published under the number \<^theory_text>\<open>cam\<close>.\<close>

definition published :: "sg_env \<Rightarrow> bytes \<Rightarrow> globals \<Rightarrow> globals" where
  "published sg jpeg g =
     (let cam = cameraIterator g; p = pendingRequests g ! cam
      in g\<lparr>lastImage := (lastImage g)[cam := Some jpeg],
           responses := responses g @ concat (map (\<lambda>conn. jpeg_answer sg conn jpeg) (waiting p)),
           pendingRequests := (pendingRequests g)[cam := p\<lparr>connections := cleared [0 ..< numPending p] (connections p), numPending := 0\<rparr>]\<rparr>)"

text \<open>What the adapter's answers and images rest on.\<close>

definition serving_ok :: "globals \<Rightarrow> bool" where
  "serving_ok g \<longleftrightarrow> length (lastImage g) = MAX_NUM_CAMERAS \<and> length (pendingRequests g) = MAX_NUM_CAMERAS \<and>
     cameraIterator g < MAX_NUM_CAMERAS \<and> numCameras g \<le> MAX_NUM_CAMERAS \<and> (\<forall>p\<in>set (pendingRequests g). pending_ok p)"

lemma serving_ok_pending:
  "serving_ok g \<Longrightarrow> cam < MAX_NUM_CAMERAS \<Longrightarrow> pending_ok (pendingRequests g ! cam)"
  by (simp add: serving_ok_def)

lemma publish_image_eq:
  assumes "serving_ok g"
  shows "publish_image sg fe jpeg g =
    (if lastImage g ! cameraIterator g \<noteq> None \<and> fe_munmap fe \<noteq> 0 then Inr (False, g)
     else Inr (fe_sg_process fe, published sg jpeg g))"
proof -
  let ?cam = "cameraIterator g"
  let ?p = "pendingRequests g ! ?cam"
  let ?g = "g\<lparr>lastImage := (lastImage g)[?cam := Some jpeg]\<rparr>"
  have cam: "?cam < length (pendingRequests g)" "pending_ok ?p"
    using assms serving_ok_pending[OF assms, of ?cam] by (simp_all add: serving_ok_def)
  have "fill_pending sg ?cam jpeg [0 ..< numPending ?p] ?g = Inr (?g
    \<lparr>responses := responses ?g @ concat (map (\<lambda>j. jpeg_answer sg (the (connections (pendingRequests ?g ! ?cam) ! j)) jpeg) [0 ..< numPending ?p]),
     pendingRequests := (pendingRequests ?g)[?cam := (pendingRequests ?g ! ?cam)
       \<lparr>connections := cleared [0 ..< numPending ?p] (connections (pendingRequests ?g ! ?cam))\<rparr>]\<rparr>)"
    by (rule fill_pending_eq) (use cam in \<open>auto simp: pending_ok_def MAX_PENDING_REQUESTS_def\<close>)
  then show ?thesis
    using cam(1) by (simp add: publish_image_def Let_def published_def waiting_def comp_def)
qed

lemma pending_ok_cleared:
  "pending_ok p \<Longrightarrow> pending_ok (p\<lparr>connections := cleared js (connections p), numPending := 0\<rparr>)"
  by (simp add: pending_ok_def)

lemma serving_ok_published:
  assumes "serving_ok g"
  shows "serving_ok (published sg jpeg g)"
proof -
  let ?p = "pendingRequests g ! cameraIterator g"
  let ?q = "?p\<lparr>connections := cleared [0 ..< numPending ?p] (connections ?p), numPending := 0\<rparr>"
  have "pending_ok ?q"
    by (rule pending_ok_cleared[OF serving_ok_pending[OF assms]]) (use assms in \<open>simp add: serving_ok_def\<close>)
  then have "\<forall>p\<in>set ((pendingRequests g)[cameraIterator g := ?q]). pending_ok p"
    using assms set_update_subset_insert[of "pendingRequests g" "cameraIterator g" ?q]
    by (auto simp: serving_ok_def)
  with assms show ?thesis
    by (auto simp: published_def Let_def serving_ok_def)
qed

text \<open>The cameras' part of the globals.\<close>

definition cameras :: "globals \<Rightarrow> rsva11001_connection option list \<times> nat option \<times> nat \<times> nat" where
  "cameras g = (conns g, activeCamera g, cameraIterator g, numCameras g)"

lemma cameras_published [simp]: "cameras (published sg jpeg g) = cameras g"
  by (simp add: cameras_def published_def Let_def)

lemma set_file_simps [simp]:
  "serving_ok (set_file n b g) = serving_ok g" "cameras (set_file n b g) = cameras g"
  "cameraIterator (set_file n b g) = cameraIterator g" "lastImage (set_file n b g) = lastImage g"
  "pendingRequests (set_file n b g) = pendingRequests g" "responses (set_file n b g) = responses g"
  "files (set_file n b g) n = b"
  by (simp_all add: set_file_def serving_ok_def cameras_def)

text \<open>Writing an image never faults, and leaves the cameras alone.\<close>

lemma writeImageFile_ok:
  assumes "serving_ok g"
  obtains ok g' where "writeImageFile sg fe jpeg g = Inr (ok, g')" "serving_ok g'" "cameras g' = cameras g"
proof -
  let ?ok = "\<lambda>r. case r of Inl f \<Rightarrow> False | Inr (ok :: bool, g') \<Rightarrow> serving_ok g' \<and> cameras g' = cameras g"
  have pub: "?ok (publish_image sg fe jpeg h)" if "serving_ok h" "cameras h = cameras g" for h
    using publish_image_eq[OF that(1), of sg fe jpeg] serving_ok_published[OF that(1)] that by auto
  have "?ok (writeImageFile sg fe jpeg g)"
    using assms pub by (simp add: writeImageFile_def Let_def)
  then show thesis using that by (auto split: sum.splits)
qed

text \<open>With every call of the system succeeding, it stores the image in the file and publishes it.\<close>

definition files_ok :: "file_env \<Rightarrow> bool" where
  "files_ok fe \<longleftrightarrow> (fst (fe_unlink fe) = 0 \<or> snd (fe_unlink fe) = ENOENT) \<and> fe_open fe \<noteq> - 1 \<and> fe_ftruncate fe = 0 \<and>
     fe_mmap fe \<and> fe_close fe = 0 \<and> fe_munmap fe = 0 \<and> fe_sg_process fe"

lemma set_file_set_file [simp]: "set_file n b (set_file n a g) = set_file n b g"
  by (simp add: set_file_def)

lemma writeImageFile_success:
  assumes "serving_ok g" "files_ok fe"
  shows "writeImageFile sg fe jpeg g = Inr (True, published sg jpeg (set_file (image_name (cameraIterator g)) (Some jpeg) g))"
  using assms publish_image_eq[of "set_file (image_name (cameraIterator g)) (Some jpeg) g" sg fe jpeg]
  by (auto simp: writeImageFile_def Let_def files_ok_def)

end
