(* ===== verification/Adapter_Safety.thy ===== *)
theory Adapter_Safety
  imports Adapter_Images
begin

text \<open>
  The invariant of the whole adapter and the theorem that its reactor keeps it: at most one
  camera is connected, the active one, and the number its image gets is fixed by the iterator.
\<close>

section \<open>The invariant\<close>

text \<open>A camera that is not active: closed and configured, its buffers (if any) of their sizes.\<close>

definition sized :: "nat \<Rightarrow> bytes option \<Rightarrow> bool" where
  "sized n b \<longleftrightarrow> (case b of None \<Rightarrow> True | Some x \<Rightarrow> length x = n)"

definition reusable :: "rsva11001_connection \<Rightarrow> bool" where
  "reusable c \<longleftrightarrow> sockfd c = - 1 \<and> configured c \<and> sized outputBufferSize (outputBuffer c) \<and>
     sized BASE_BUFFER_SIZE (pingReceiveBuffer c) \<and> sized BASE_BUFFER_SIZE (pongReceiveBuffer c) \<and>
     (pingReceiveBuffer c \<noteq> None \<longrightarrow> pingReceiveBufferSize c = BASE_BUFFER_SIZE) \<and>
     (pongReceiveBuffer c \<noteq> None \<longrightarrow> pongReceiveBufferSize c = BASE_BUFFER_SIZE)"

definition camera_ok :: "bool \<Rightarrow> rsva11001_connection option \<Rightarrow> bool" where
  "camera_ok active c \<longleftrightarrow> (case c of None \<Rightarrow> False | Some c \<Rightarrow> if active then connection_ok c else reusable c)"

definition cameras_ok :: "globals \<Rightarrow> bool" where
  "cameras_ok g \<longleftrightarrow> length (conns g) = MAX_NUM_CAMERAS \<and> 0 < numCameras g \<and> numCameras g < MAX_NUM_CAMERAS \<and>
     cameraIterator g < numCameras g \<and>
     (\<forall>i<numCameras g. camera_ok (activeCamera g = Some i) (conns g ! i)) \<and>
     (case activeCamera g of None \<Rightarrow> True
      | Some i \<Rightarrow> i < numCameras g \<and> cameraIterator g = (i + 1) mod numCameras g)"

definition adapter_ok :: "globals \<Rightarrow> bool" where
  "adapter_ok g \<longleftrightarrow> cameras_ok g \<and> serving_ok g"

lemma cameras_okE:
  assumes "cameras_ok g" "activeCamera g = Some i"
  obtains c where "conns g ! i = Some c" "connection_ok c" "i < numCameras g" "i < length (conns g)"
    "cameraIterator g = (i + 1) mod numCameras g"
  using assms by (auto simp: cameras_ok_def camera_ok_def split: option.splits)

lemma cameras_ok_cong: "cameras g' = cameras g \<Longrightarrow> cameras_ok g' = cameras_ok g"
  by (simp add: cameras_def cameras_ok_def split: option.split)

lemma camera_ok_simps [simp]:
  "camera_ok True (Some c) = connection_ok c" "camera_ok False (Some c) = reusable c"
  by (simp_all add: camera_ok_def)

lemma cameras_ok_update:
  assumes "cameras_ok g" "activeCamera g = Some i" "connection_ok c"
  shows "cameras_ok (g\<lparr>conns := (conns g)[i := Some c]\<rparr>)"
  using assms by (auto simp: cameras_ok_def nth_list_update)

lemma cameras_ok_drop:
  assumes "cameras_ok g" "activeCamera g = Some i" "reusable c"
  shows "cameras_ok (g\<lparr>conns := (conns g)[i := Some c], activeCamera := None\<rparr>)"
  using assms by (auto simp: cameras_ok_def nth_list_update)

lemma serving_ok_other [simp]:
  "serving_ok (g\<lparr>conns := cs\<rparr>) = serving_ok g" "serving_ok (g\<lparr>activeCamera := a\<rparr>) = serving_ok g"
  "serving_ok (g\<lparr>responses := rs\<rparr>) = serving_ok g"
  by (simp_all add: serving_ok_def)

lemma cameras_other [simp]:
  "cameras (g\<lparr>responses := rs\<rparr>) = cameras g" "cameras (g\<lparr>pendingRequests := ps\<rparr>) = cameras g"
  "cameras (g\<lparr>lastImage := l\<rparr>) = cameras g"
  by (simp_all add: cameras_def)

lemma connection_sized:
  assumes "connection_ok c"
  shows "reusable (c\<lparr>sockfd := - 1\<rparr>)"
  using assms
  by (auto simp: connection_ok_def reusable_def sized_def buffers_ok_def has_buffer_def configured_def split: option.splits)

lemma close_ok:
  assumes "connection_ok c"
  shows "case rsva11001_connection_close pf answer c of (closed, c') \<Rightarrow> if closed then reusable c' else connection_ok c'"
  using assms connection_sized[OF assms]
  by (auto simp: rsva11001_connection_close_def connection_ok_def)

lemma close_reusable: "reusable c \<Longrightarrow> rsva11001_connection_close pf answer c = (True, c)"
  by (simp add: rsva11001_connection_close_def reusable_def)

section \<open>Opening the next camera\<close>

definition alloc_ok :: "open_env \<Rightarrow> bool" where
  "alloc_ok env \<longleftrightarrow> have_or_alloc None (env_malloc_output env) outputBufferSize \<and>
     have_or_alloc None (env_malloc_pong env) BASE_BUFFER_SIZE \<and> have_or_alloc None (env_malloc_ping env) BASE_BUFFER_SIZE"

lemma reusable_storage: "reusable c \<Longrightarrow> alloc_ok env \<Longrightarrow> storage_ok env c"
  by (auto simp: reusable_def alloc_ok_def storage_ok_def have_or_alloc_def sized_def split: option.splits)

lemma open_reusable:
  assumes "reusable c" "alloc_ok env" "length (file_name pf) \<le> 229"
  obtains ok c' where "rsva11001_connection_open pf env c = Inr (ok, c')" "ok \<Longrightarrow> connection_ok c'"
proof (cases "network_ok env")
  case True
  have "sockfd c = - 1" "configured c" using assms(1) by (simp_all add: reusable_def)
  from open_ok[OF this reusable_storage[OF assms(1,2)] True assms(3)] that show thesis by metis
next
  case False
  have "sockfd c = - 1" using assms(1) by (simp add: reusable_def)
  with False have "\<exists>c'. rsva11001_connection_open pf env c = Inr (False, c')"
    by (auto simp: open_eq network_ok_def Let_def)
  then show thesis using that by blast
qed

definition cameras_present :: "globals \<Rightarrow> bool" where
  "cameras_present g \<longleftrightarrow> length (conns g) = MAX_NUM_CAMERAS \<and> numCameras g < MAX_NUM_CAMERAS \<and>
     (\<forall>i<numCameras g. conns g ! i \<noteq> None)"

lemma cameras_ok_present: "cameras_ok g \<Longrightarrow> cameras_present g"
  by (auto simp: cameras_ok_def cameras_present_def camera_ok_def split: option.splits)

lemma open_next_ok:
  assumes "adapter_ok g" "activeCamera g = None" "alloc_ok env" "length (file_name pf) \<le> 229"
  obtains ok g' where "openNextCameraConnection pf env added g = Inr (ok, g')" "ok \<Longrightarrow> adapter_ok g'"
    "ok \<Longrightarrow> activeCamera g' = Some (cameraIterator g)" "cameras_present g'" "numCameras g' = numCameras g"
proof -
  let ?i = "cameraIterator g"
  let ?next = "if numCameras g \<le> ?i + 1 then 0 else ?i + 1"
  have g: "?i < numCameras g" "numCameras g < MAX_NUM_CAMERAS" "length (conns g) = MAX_NUM_CAMERAS" "serving_ok g"
    using assms(1) by (simp_all add: adapter_ok_def cameras_ok_def)
  then obtain c where c: "conns g ! ?i = Some c" "reusable c"
    using assms(1,2) by (fastforce simp: adapter_ok_def cameras_ok_def camera_ok_def split: option.splits)
  from open_reusable[OF c(2) assms(3,4)] obtain ok c' where
    o: "rsva11001_connection_open pf env c = Inr (ok, c')" "ok \<Longrightarrow> connection_ok c'" by blast
  let ?g = "g\<lparr>activeCamera := Some ?i, cameraIterator := ?next, conns := (conns g)[?i := Some c']\<rparr>"
  have mod: "?next = (?i + 1) mod numCameras g" using g(1) by (cases "numCameras g = ?i + 1") auto
  have next_less: "?next < numCameras g" using g(1) by auto
  have res: "openNextCameraConnection pf env added g = Inr (ok \<and> added = 0, ?g)"
    using g c(1) o(1) by (simp add: openNextCameraConnection_def Let_def)
  have "cameras_present ?g"
    using assms(1) g cameras_ok_present[of g] by (auto simp: adapter_ok_def cameras_present_def nth_list_update)
  moreover have "adapter_ok ?g" if "ok \<and> added = 0"
  proof -
    have "connection_ok c'" using o(2) that by simp
    then have "cameras_ok ?g"
      using assms(1,2) g mod next_less by (auto simp: adapter_ok_def cameras_ok_def nth_list_update)
    moreover have "serving_ok ?g" using g next_less by (simp add: serving_ok_def)
    ultimately show ?thesis by (simp add: adapter_ok_def)
  qed
  ultimately show thesis using that[OF res] by simp
qed

section \<open>Events of the camera\<close>

text \<open>
  What \<^verbatim>\<open>handleNewRequest\<close> relies on when it reads a number from the value of a parameter: the
  library ends it with a NUL in the buffer.
\<close>

definition query_terminated :: "sg_env \<Rightarrow> bool" where
  "query_terminated sg \<longleftrightarrow> (\<forall>query len buffer. sg_findFirst sg query ''source'' = (True, len, buffer) \<and> len \<noteq> 0 \<longrightarrow> NUL \<in> set buffer)"

text \<open>
  The faults a run can meet: those of the reassembly of frames, the write behind the array of
  waiting requests, and, with a library that does not end the value, a read behind the query buffer.
\<close>

definition adapter_fault :: "sg_env \<Rightarrow> fault \<Rightarrow> bool" where
  "adapter_fault sg f \<longleftrightarrow> fault_site f = In_connection_recv \<or> f = Out_of_bounds In_pending_requests \<or>
     f = Out_of_bounds In_query_buffer \<and> \<not> query_terminated sg"

definition step_ok :: "sg_env \<Rightarrow> (bool \<times> globals) option res \<Rightarrow> bool" where
  "step_ok sg r \<longleftrightarrow> (case r of Inl f \<Rightarrow> adapter_fault sg f | Inr None \<Rightarrow> True | Inr (Some (_, g')) \<Rightarrow> adapter_ok g')"

lemma step_ok_simps [simp]:
  "step_ok sg (Inl f) = adapter_fault sg f" "step_ok sg (Inr None)" "step_ok sg (Inr (Some (b, g))) = adapter_ok g"
  by (simp_all add: step_ok_def)

lemma drop_camera_ok:
  assumes "adapter_ok g" "activeCamera g \<noteq> None"
  obtains b g' where "drop_camera pf answer shutdown g = Inr (b, g')" "adapter_ok g'"
proof -
  from assms obtain i where i: "activeCamera g = Some i" "cameras_ok g" by (auto simp: adapter_ok_def)
  from cameras_okE[OF i(2,1)] obtain c where c: "conns g ! i = Some c" "connection_ok c" by blast
  obtain closed c' where cl: "rsva11001_connection_close pf answer c = (closed, c')" by fastforce
  with close_ok[OF c(2), of pf answer] have "if closed then reusable c' else connection_ok c'" by simp
  then show thesis
    using that i c(1) cl assms(1) cameras_ok_drop[OF i(2,1)] cameras_ok_update[OF i(2,1)]
    by (cases closed) (simp_all add: drop_camera_def adapter_ok_def Let_def)
qed

text \<open>After \<^verbatim>\<open>processActiveCamera\<close>: on success and on a fatal error the invariant; on an error the camera is still active.\<close>

definition camera_result_ok :: "(int \<times> globals) option res \<Rightarrow> bool" where
  "camera_result_ok r \<longleftrightarrow> (case r of Inl f \<Rightarrow> fault_site f = In_connection_recv | Inr None \<Rightarrow> True
     | Inr (Some (code, g')) \<Rightarrow> (code = - 1 \<longrightarrow> (\<exists>i c. activeCamera g' = Some i \<and> conns g' ! i = Some c \<and>
          (connection_ok c \<and> adapter_ok g' \<or> reusable c \<and> adapter_ok (g'\<lparr>activeCamera := None\<rparr>)))) \<and>
        (code \<noteq> - 1 \<longrightarrow> adapter_ok g'))"

lemma take_image_ok:
  assumes "adapter_ok g" "activeCamera g = Some i" "conns g ! i = Some c" "connection_ok c"
  shows "camera_result_ok (rbind (take_image pf sg env i c jpeg g) (\<lambda>r. Inr (Some r)))"
proof -
  have g: "cameras_ok g" "serving_ok g" "i < length (conns g)"
    using assms(1) cameras_okE[OF _ assms(2)] by (auto simp: adapter_ok_def)
  obtain closed c' where cl: "rsva11001_connection_close pf (ce_close env) c = (closed, c')" by fastforce
  with close_ok[OF assms(4), of pf "ce_close env"] have c': "if closed then reusable c' else connection_ok c'" by simp
  let ?g = "g\<lparr>conns := (conns g)[i := Some c']\<rparr>"
  show ?thesis
  proof (cases closed)
    case False
    then show ?thesis
      using c' cl cameras_ok_update[OF g(1) assms(2)] g(2)
      by (simp add: take_image_def camera_result_ok_def adapter_ok_def)
  next
    case True
    have s: "serving_ok ?g" using g(2) by simp
    obtain ok g2 where w: "writeImageFile sg (ce_file env) jpeg ?g = Inr (ok, g2)" "serving_ok g2" "cameras g2 = cameras ?g"
      by (rule writeImageFile_ok[OF s])
    have "cameras (g2\<lparr>activeCamera := None\<rparr>) = cameras (?g\<lparr>activeCamera := None\<rparr>)"
      using w(3) by (simp add: cameras_def)
    then have "cameras_ok (g2\<lparr>activeCamera := None\<rparr>)"
      using cameras_ok_cong cameras_ok_drop[OF g(1) assms(2), of c'] c' True by (metis if_True)
    then have "adapter_ok (g2\<lparr>activeCamera := None\<rparr>)" using w(2) by (simp add: adapter_ok_def)
    moreover have "activeCamera g2 = Some i" "conns g2 ! i = Some c'"
      using w(3) assms(2) g(3) by (simp_all add: cameras_def)
    ultimately show ?thesis
      using True c' cl w(1) by (simp add: take_image_def Let_def camera_result_ok_def)
  qed
qed

lemma processActiveCamera_ok:
  assumes "adapter_ok g" "activeCamera g = Some i" "sends_ok (env_send (ce_process env))"
  shows "camera_result_ok (processActiveCamera pf sg env g)"
proof -
  have g: "cameras_ok g" "serving_ok g" using assms(1) by (simp_all add: adapter_ok_def)
  from cameras_okE[OF g(1) assms(2)] obtain c where c: "conns g ! i = Some c" "connection_ok c" "i < length (conns g)" by blast
  note proc = process_ok[OF c(2) assms(3), of pf]
  show ?thesis
  proof (cases "rsva11001_connection_process pf (ce_process env) c")
    case (Inl f)
    with proc assms(2) c show ?thesis by (simp add: processActiveCamera_def camera_result_ok_def outcome_ok_def)
  next
    case (Inr r)
    show ?thesis
    proof (cases r)
      case None
      with Inr assms(2) c show ?thesis by (simp add: processActiveCamera_def camera_result_ok_def)
    next
      case (Some r')
      obtain ok c' where r': "r' = (ok, c')" by fastforce
      then have c': "connection_ok c'" using proc Inr Some by (simp add: outcome_ok_def)
      let ?g = "g\<lparr>conns := (conns g)[i := Some c']\<rparr>"
      have g': "adapter_ok ?g" "activeCamera ?g = Some i" "conns ?g ! i = Some c'"
        using cameras_ok_update[OF g(1) assms(2) c'] g(2) assms(2) c(3) by (simp_all add: adapter_ok_def)
      have "buffers_ok c'" using c' by (simp add: connection_ok_def)
      note img = getLatestImage_spec[OF this, of 30000]
      note taken = take_image_ok[OF g' c', of pf sg env]
      show ?thesis
        using Inr Some r' c assms(2) g' c' img taken
        by (auto simp: processActiveCamera_def camera_result_ok_def Let_def split: option.splits)
    qed
  qed
qed

lemma handle_camera_ok:
  assumes "adapter_ok g" "activeCamera g \<noteq> None" "sends_ok (env_send (ce_process (ev_camera e)))"
  shows "step_ok sg (handle_camera pf sg e shutdown g)"
proof (cases "ev_error e")
  case True
  from drop_camera_ok[OF assms(1,2)] obtain b g' where
    "drop_camera pf (ev_close e) shutdown g = Inr (b, g')" "adapter_ok g'" by blast
  with True show ?thesis by (simp add: handle_camera_def)
next
  case False
  from assms(2) obtain i where i: "activeCamera g = Some i" by blast
  note res = processActiveCamera_ok[OF assms(1) i assms(3), of pf sg]
  show ?thesis
  proof (cases "processActiveCamera pf sg (ev_camera e) g")
    case (Inl f)
    with res False show ?thesis by (simp add: handle_camera_def camera_result_ok_def adapter_fault_def)
  next
    case (Inr r)
    show ?thesis
    proof (cases r)
      case None
      with Inr False show ?thesis by (simp add: handle_camera_def)
    next
      case (Some r')
      obtain code g1 where r': "r' = (code, g1)" by fastforce
      show ?thesis
      proof (cases "code = - 1")
        case True
        with res Inr Some r' obtain j c where
          j: "activeCamera g1 = Some j" "conns g1 ! j = Some c" and
          cases: "connection_ok c \<and> adapter_ok g1 \<or> reusable c \<and> adapter_ok (g1\<lparr>activeCamera := None\<rparr>)"
          by (auto simp: camera_result_ok_def)
        have "\<exists>b g'. drop_camera pf (ev_close e) shutdown g1 = Inr (b, g') \<and> adapter_ok g'"
          using cases
        proof (elim disjE conjE)
          assume "adapter_ok g1"
          from drop_camera_ok[OF this] j(1) show ?thesis by (metis option.distinct(1))
        next
          assume "reusable c" "adapter_ok (g1\<lparr>activeCamera := None\<rparr>)"
          moreover have "(conns g1)[j := Some c] = conns g1" using j(2) by (metis list_update_id)
          ultimately show ?thesis using j by (simp add: drop_camera_def close_reusable adapter_ok_def cameras_ok_def)
        qed
        with True False Inr Some r' show ?thesis by (auto simp: handle_camera_def)
      next
        case no: False
        with res Inr Some r' have "adapter_ok g1" by (simp add: camera_result_ok_def)
        with no False Inr Some r' show ?thesis by (simp add: handle_camera_def)
      qed
    qed
  qed
qed

section \<open>Requests\<close>

lemma adapter_ok_respond [simp]: "adapter_ok (respond r g) = adapter_ok g"
  by (simp add: respond_def adapter_ok_def cameras_ok_cong[of "g\<lparr>responses := rs\<rparr>" g for rs])

lemma sendJpeg_ok: "adapter_ok g \<Longrightarrow> adapter_ok (snd (sendJpeg sg conn data g))"
  by (simp add: sendJpeg_eq adapter_ok_def cameras_ok_cong[of "g\<lparr>responses := rs\<rparr>" g for rs])

definition request_ok :: "sg_env \<Rightarrow> (bool \<times> globals) res \<Rightarrow> bool" where
  "request_ok sg r \<longleftrightarrow> (case r of Inl f \<Rightarrow> f = Out_of_bounds In_pending_requests \<or> f = Out_of_bounds In_query_buffer \<and> \<not> query_terminated sg | Inr (_, g') \<Rightarrow> adapter_ok g')"

lemma request_ok_simps [simp]:
  "request_ok sg (Inl f) = (f = Out_of_bounds In_pending_requests \<or> f = Out_of_bounds In_query_buffer \<and> \<not> query_terminated sg)" "request_ok sg (Inr (b, g)) = adapter_ok g"
  by (simp_all add: request_ok_def)

text \<open>A request that waits is stored behind the others.\<close>

definition enqueue :: "nat \<Rightarrow> sg_connection \<Rightarrow> globals \<Rightarrow> globals" where
  "enqueue src conn g =
     (let p = pendingRequests g ! src
      in g\<lparr>pendingRequests := (pendingRequests g)[src :=
           \<lparr>connections = (connections p)[numPending p := Some conn], numPending = numPending p + 1\<rparr>]\<rparr>)"

lemma enqueue_pending_ok:
  assumes "pending_ok p" "numPending p < MAX_PENDING_REQUESTS"
  shows "pending_ok \<lparr>connections = (connections p)[numPending p := Some conn], numPending = numPending p + 1\<rparr>"
  using assms by (auto simp: pending_ok_def nth_list_update less_Suc_eq)

lemma enqueue_ok:
  assumes "adapter_ok g" "src < numCameras g" "numPending (pendingRequests g ! src) < MAX_PENDING_REQUESTS"
  shows "adapter_ok (enqueue src conn g)"
proof -
  let ?p = "pendingRequests g ! src"
  let ?q = "\<lparr>connections = (connections ?p)[numPending ?p := Some conn], numPending = numPending ?p + 1\<rparr>"
  have s: "serving_ok g" "src < MAX_NUM_CAMERAS" using assms(1,2) by (auto simp: adapter_ok_def serving_ok_def)
  have "pending_ok ?q" by (rule enqueue_pending_ok[OF serving_ok_pending[OF s] assms(3)])
  then have "\<forall>p\<in>set ((pendingRequests g)[src := ?q]). pending_ok p"
    using s(1) set_update_subset_insert[of "pendingRequests g" src ?q] by (auto simp: serving_ok_def)
  then have "serving_ok (enqueue src conn g)" using s(1) by (auto simp: enqueue_def Let_def serving_ok_def)
  moreover have "cameras (enqueue src conn g) = cameras g" by (simp add: enqueue_def Let_def cameras_def)
  ultimately show ?thesis
    using assms(1) cameras_ok_cong[of "enqueue src conn g" g] by (simp add: adapter_ok_def)
qed

lemma parse_source_less:
  "parse_source n len buffer = Inr (Some src) \<Longrightarrow> 0 < n \<Longrightarrow> src < n"
  by (auto simp: parse_source_def Let_def split: if_splits prod.splits)

lemma parse_source_fault:
  "parse_source n len buffer = Inl f \<Longrightarrow> f = Out_of_bounds In_query_buffer \<and> len \<noteq> 0 \<and> NUL \<notin> set buffer"
  using strtoul_stays[of buffer] by (auto simp: parse_source_def Let_def split: if_splits prod.splits)

lemma serve_source_ok:
  assumes "adapter_ok g" "src < numCameras g"
  shows "request_ok sg (serve_source sg conn query src g)"
proof -
  obtain found len buffer where f: "sg_findFirst sg query ''wait'' = (found, len, buffer)" by (metis prod_cases3)
  have en: "adapter_ok (enqueue src conn g)" if "\<not> MAX_PENDING_REQUESTS \<le> numPending (pendingRequests g ! src)"
    using enqueue_ok[OF assms] that by simp
  have send: "request_ok sg (Inr (sendJpeg sg conn jpeg g))" for jpeg
    using sendJpeg_ok[OF assms(1)] by (cases "sendJpeg sg conn jpeg g") (metis request_ok_simps(2) snd_conv)
  show ?thesis
    using assms f en send
    by (auto simp: serve_source_def Let_def enqueue_def split: option.split)
qed

lemma handleNewRequest_ok:
  assumes "adapter_ok g"
  shows "request_ok sg (handleNewRequest sg conn g)"
proof -
  have "0 < numCameras g" using assms by (simp add: adapter_ok_def cameras_ok_def)
  then have src: "request_ok sg (rbind (parse_source (numCameras g) len buffer) (\<lambda>r.
      case r of None \<Rightarrow> Inr (True, respond (Send404 conn) g) | Some src \<Rightarrow> serve_source sg conn query src g))"
    if "sg_findFirst sg query ''source'' = (True, len, buffer)" for len buffer query
  proof (cases "parse_source (numCameras g) len buffer")
    case (Inl f)
    with parse_source_fault[OF Inl] that show ?thesis by (auto simp: query_terminated_def)
  next
    case (Inr r)
    with \<open>0 < numCameras g\<close> show ?thesis
      using assms parse_source_less[of "numCameras g" len buffer] serve_source_ok[OF assms] by (simp split: option.split)
  qed
  show ?thesis
    using assms src by (simp add: handleNewRequest_def Let_def split: option.split prod.split)
qed

lemma handle_requests_ok: "adapter_ok g \<Longrightarrow> request_ok sg (handle_requests sg cs shutdown g)"
proof (induction cs arbitrary: g)
  case Nil
  then show ?case by simp
next
  case (Cons c cs)
  with handleNewRequest_ok[OF Cons.prems, of sg c] show ?case
    by (cases "handleNewRequest sg c g") (auto split: prod.splits)
qed

lemma handle_scgi_ok: "adapter_ok g \<Longrightarrow> request_ok sg (handle_scgi sg e shutdown g)"
  using handle_requests_ok[of g sg "new_connections e" shutdown]
  by (cases "handle_requests sg (new_connections e) shutdown g") (auto simp: handle_scgi_def)

section \<open>The reactor\<close>

text \<open>The kernel reports a descriptor at most once in a batch, and only registered identifiers.\<close>

definition is_camera :: "event \<Rightarrow> bool" where
  "is_camera e \<longleftrightarrow> (case e of Camera_event _ \<Rightarrow> True | _ \<Rightarrow> False)"

definition batch_ok :: "event list \<Rightarrow> bool" where
  "batch_ok es \<longleftrightarrow> length (filter is_camera es) \<le> 1 \<and>
     list_all (\<lambda>e. case e of Camera_event c \<Rightarrow> sends_ok (env_send (ce_process (ev_camera c))) | _ \<Rightarrow> True) es"

lemma handle_scgi_active:
  "handle_scgi sg e shutdown g = Inr (b, g') \<Longrightarrow> activeCamera g' = activeCamera g"
proof -
  have rq: "handleNewRequest sg c g = Inr (b, g') \<Longrightarrow> activeCamera g' = activeCamera g" for c b g g'
    by (auto simp: handleNewRequest_def serve_source_def respond_def Let_def sendJpeg_def rbind_def
        split: option.splits sum.splits prod.splits if_splits)
  have "handle_requests sg cs shutdown g = Inr (b, g') \<Longrightarrow> activeCamera g' = activeCamera g" for cs b g g'
    by (induction cs arbitrary: g) (auto simp: rbind_Inr_iff dest: rq split: prod.splits if_splits)
  then show "handle_scgi sg e shutdown g = Inr (b, g') \<Longrightarrow> activeCamera g' = activeCamera g"
    by (auto simp: handle_scgi_def rbind_Inr_iff split: if_splits)
qed

lemma handle_events_ok:
  "adapter_ok g \<Longrightarrow> batch_ok es \<Longrightarrow> activeCamera g \<noteq> None \<or> \<not> list_ex is_camera es \<Longrightarrow>
   step_ok sg (handle_events pf sg es shutdown g)"
proof (induction es arbitrary: shutdown g)
  case Nil
  then show ?case by simp
next
  case (Cons e es)
  have es: "batch_ok es" using Cons.prems(2) by (auto simp: batch_ok_def split: if_splits)
  show ?case
  proof (cases e)
    case (Camera_event c)
    then have "activeCamera g \<noteq> None" "sends_ok (env_send (ce_process (ev_camera c)))" "\<not> list_ex is_camera es"
      using Cons.prems(2,3) by (auto simp: is_camera_def batch_ok_def list_ex_iff filter_empty_conv)
    from handle_camera_ok[OF Cons.prems(1) this(1,2), of sg pf shutdown] this(3) Cons.IH[OF _ es] Camera_event show ?thesis
      by (cases "handle_camera pf sg c shutdown g") (auto split: option.splits)
  next
    case Signal_event
    with Cons.prems Cons.IH[OF _ es] show ?thesis by (simp add: is_camera_def)
  next
    case (Scgi_event s)
    from handle_scgi_ok[OF Cons.prems(1), of sg s shutdown] handle_scgi_active[of sg s shutdown g]
      Cons.IH[OF _ es] Cons.prems(3) Scgi_event show ?thesis
      by (cases "handle_scgi sg s shutdown g") (auto simp: is_camera_def adapter_fault_def)
  next
    case (Unknown_event n)
    with Cons.prems Cons.IH[OF _ es] show ?thesis by (simp add: is_camera_def)
  qed
qed

end
