(* ===== verification/Adapter_Runs.thy ===== *)
theory Adapter_Runs
  imports Adapter_Safety
begin

text \<open>
  Whole runs of the adapter: the reactor from a state in order, the set-up that makes one, the
  clean-up, and the numbers in a request.
\<close>

section \<open>The reactor\<close>

definition turn_ok :: "turn \<Rightarrow> bool" where
  "turn_ok t \<longleftrightarrow> alloc_ok (turn_open t) \<and> (case turn_wait t of Events es \<Rightarrow> batch_ok es | Wait_failed e \<Rightarrow> True)"

definition run_ok :: "sg_env \<Rightarrow> (bool \<times> globals) option res \<Rightarrow> bool" where
  "run_ok sg r \<longleftrightarrow> (case r of Inl f \<Rightarrow> adapter_fault sg f | Inr None \<Rightarrow> True | Inr (Some (_, g')) \<Rightarrow> cameras_present g')"

lemma run_ok_simps [simp]:
  "run_ok sg (Inl f) = adapter_fault sg f" "run_ok sg (Inr None)" "run_ok sg (Inr (Some (b, g))) = cameras_present g"
  by (simp_all add: run_ok_def)

lemma adapter_ok_present: "adapter_ok g \<Longrightarrow> cameras_present g"
  by (simp add: adapter_ok_def cameras_ok_present)

lemma reactor_open:
  assumes "adapter_ok g" "inner \<longrightarrow> activeCamera g \<noteq> None" "alloc_ok (turn_open t)" "length (file_name pf) \<le> 229"
  obtains ok g1 where
    "(if inner \<or> activeCamera g \<noteq> None then Inr (True, g)
      else openNextCameraConnection pf (turn_open t) (turn_added t) g) = Inr (ok, g1)"
    "ok \<Longrightarrow> adapter_ok g1" "ok \<Longrightarrow> activeCamera g1 \<noteq> None" "cameras_present g1"
proof (cases "inner \<or> activeCamera g \<noteq> None")
  case True
  with assms that[of True g] adapter_ok_present show thesis by auto
next
  case False
  then have "activeCamera g = None" by simp
  from open_next_ok[OF assms(1) this assms(3,4)] obtain ok g' where
    "openNextCameraConnection pf (turn_open t) (turn_added t) g = Inr (ok, g')" "ok \<Longrightarrow> adapter_ok g'"
    "ok \<Longrightarrow> activeCamera g' = Some (cameraIterator g)" "cameras_present g'" by blast
  with that[of ok g'] False show thesis by auto
qed

lemma reactor_ok:
  assumes "length (file_name pf) \<le> 229"
  shows "adapter_ok g \<Longrightarrow> (inner \<longrightarrow> activeCamera g \<noteq> None) \<Longrightarrow> list_all turn_ok turns \<Longrightarrow>
    run_ok sg (reactor pf sg turns inner shutdown g)"
proof (induction turns arbitrary: inner shutdown g)
  case Nil
  then show ?case by (subst reactor.simps) (simp add: adapter_ok_present)
next
  case (Cons t turns)
  have t: "alloc_ok (turn_open t)" "list_all turn_ok turns" "\<And>es. turn_wait t = Events es \<Longrightarrow> batch_ok es"
  proof -
    have "turn_ok t" using Cons.prems(3) by simp
    then show "alloc_ok (turn_open t)" "\<And>es. turn_wait t = Events es \<Longrightarrow> batch_ok es" by (auto simp: turn_ok_def)
    show "list_all turn_ok turns" using Cons.prems(3) by simp
  qed
  let ?open = "if inner \<or> activeCamera g \<noteq> None then Inr (True, g)
                 else openNextCameraConnection pf (turn_open t) (turn_added t) g"
  obtain ok g1 where o: "?open = Inr (ok, g1)" "ok \<Longrightarrow> adapter_ok g1" "ok \<Longrightarrow> activeCamera g1 \<noteq> None" "cameras_present g1"
    using reactor_open[OF Cons.prems(1,2) t(1) assms] by blast
  have wait: "run_ok sg (case turn_wait t of
       Wait_failed err \<Rightarrow> if err = EINTR then reactor pf sg turns False shutdown g1 else Inr (Some (False, g1))
     | Events es \<Rightarrow> rbind (handle_events pf sg es shutdown g1) (\<lambda>r. case r of None \<Rightarrow> Inr None
         | Some (shutdown, g) \<Rightarrow> reactor pf sg turns (length es = MAX_EVENTS \<and> activeCamera g \<noteq> None) shutdown g))"
    if ok
  proof (cases "turn_wait t")
    case (Events es)
    from handle_events_ok[OF o(2)[OF that] t(3)[OF Events], of sg pf shutdown] o(3)[OF that]
    have h: "step_ok sg (handle_events pf sg es shutdown g1)" by blast
    show ?thesis
    proof (cases "handle_events pf sg es shutdown g1")
      case (Inl f)
      with h Events show ?thesis by simp
    next
      case (Inr r)
      with h Events Cons.IH[OF _ _ t(2)] show ?thesis by (auto split: option.split)
    qed
  next
    case (Wait_failed err)
    with Cons.IH[OF o(2)[OF that] _ t(2), of False shutdown] o(4) show ?thesis by simp
  qed
  show ?case
  proof (cases "\<not> inner \<and> shutdown")
    case True
    then show ?thesis using Cons.prems(1) by (subst reactor.simps) (simp add: adapter_ok_present)
  next
    case False
    then have "reactor pf sg (t # turns) inner shutdown g = rbind ?open (\<lambda>(ok, g1).
      if \<not> ok then Inr (Some (True, g1))
      else (case turn_wait t of
         Wait_failed err \<Rightarrow> if err = EINTR then reactor pf sg turns False shutdown g1 else Inr (Some (False, g1))
       | Events es \<Rightarrow> rbind (handle_events pf sg es shutdown g1) (\<lambda>r. case r of None \<Rightarrow> Inr None
         | Some (shutdown, g) \<Rightarrow> reactor pf sg turns (length es = MAX_EVENTS \<and> activeCamera g \<noteq> None) shutdown g)))"
      by (subst reactor.simps) (simp only: if_False list.case simp_thms)
    then show ?thesis unfolding o(1) using wait o(4) by (cases ok) simp_all
  qed
qed

section \<open>Clean-up\<close>

text \<open>What is released for one camera, when its \<^verbatim>\<open>close\<close> is answered with \<^theory_text>\<open>answer\<close>.\<close>

definition released :: "platform \<Rightarrow> int \<times> int \<Rightarrow> rsva11001_connection \<Rightarrow> release list" where
  "released pf answer c =
     (let c' = snd (rsva11001_connection_close pf answer c)
      in rsva11001_connection_destroy c' @ [Free_connection])"

lemma cleanup_loop_eq:
  "distinct is' \<Longrightarrow> \<forall>i\<in>set is'. conns g ! i \<noteq> None \<Longrightarrow> \<forall>i\<in>set is'. i < length (conns g) \<Longrightarrow>
   cleanup_loop pf answers is' g = Inr (concat (map (\<lambda>i. released pf (answers i) (the (conns g ! i))) is'),
     g\<lparr>conns := cleared is' (conns g)\<rparr>)"
proof (induction is' arbitrary: g)
  case Nil
  then show ?case by (simp add: cleared_def)
next
  case (Cons i is')
  obtain c where c: "conns g ! i = Some c" using Cons.prems(2) by auto
  let ?g = "g\<lparr>conns := (conns g)[i := None]\<rparr>"
  have other: "conns ?g ! j = conns g ! j" if "j \<in> set is'" for j
  proof -
    have "j \<noteq> i" using that Cons.prems(1) by auto
    then show ?thesis by simp
  qed
  have IH: "cleanup_loop pf answers is' ?g = Inr (concat (map (\<lambda>i. released pf (answers i) (the (conns ?g ! i))) is'),
     ?g\<lparr>conns := cleared is' (conns ?g)\<rparr>)"
    by (rule Cons.IH) (use Cons.prems other in auto)
  have same: "map (\<lambda>i. released pf (answers i) (the (conns ?g ! i))) is' = map (\<lambda>i. released pf (answers i) (the (conns g ! i))) is'"
    using other by (intro map_cong) simp_all
  show ?case
    using c by (simp only: cleanup_loop.simps option.case Let_def IH same) (simp add: released_def cleared_def)
qed

lemma cleanup_ok:
  assumes "cameras_present g"
  shows "cleanupCameraConnections pf answers g =
    Inr (concat (map (\<lambda>i. released pf (answers i) (the (conns g ! i))) [0 ..< numCameras g]),
      g\<lparr>conns := cleared [0 ..< numCameras g] (conns g)\<rparr>)"
  unfolding cleanupCameraConnections_def
  by (rule cleanup_loop_eq) (use assms in \<open>auto simp: cameras_present_def\<close>)

section \<open>Set-up\<close>

lemma malloc_reusable:
  assumes "rsva11001_connection_malloc m = Some c" "rsva11001_connection_configure h u pw n c = (True, c')"
  shows "reusable c'"
proof -
  have "outputBuffer c' = None" "pingReceiveBuffer c' = None" "pongReceiveBuffer c' = None"
    using assms by (auto simp: rsva11001_connection_malloc_def rsva11001_connection_configure_def split: option.splits if_splits)
  then show ?thesis
    using configure_configured[OF assms(2)] by (simp add: reusable_def sized_def)
qed

lemma setup_loop_ok:
  "setup_loop mems is' g = (True, g') \<Longrightarrow> \<forall>i\<in>set is'. i < length (conns g) \<Longrightarrow>
   (\<exists>cs. g' = g\<lparr>conns := cs\<rparr> \<and> length cs = length (conns g) \<and>
      (\<forall>i. camera_ok False (conns g ! i) \<or> i \<in> set is' \<longrightarrow> camera_ok False (cs ! i)))"
proof (induction is' arbitrary: g)
  case Nil
  then show ?case by (intro exI[of _ "conns g"]) simp
next
  case (Cons i is')
  then obtain c ok c' where c: "rsva11001_connection_malloc (mems i) = Some c"
    "rsva11001_connection_configure (g_host g) (g_username g) (g_password g) (of_nat (i + 1)) c = (ok, c')"
    "ok" "setup_loop mems is' (g\<lparr>conns := (conns g)[i := Some c']\<rparr>) = (True, g')"
    by (auto split: option.splits prod.splits if_splits)
  have r: "reusable c'" using malloc_reusable[OF c(1)] c(2,3) by simp
  from Cons.IH[OF c(4)] Cons.prems(2) obtain cs where
    cs: "g' = g\<lparr>conns := cs\<rparr>" "length cs = length (conns g)"
      "\<forall>j. camera_ok False ((conns g)[i := Some c'] ! j) \<or> j \<in> set is' \<longrightarrow> camera_ok False (cs ! j)" by auto
  have "camera_ok False (cs ! j)" if "camera_ok False (conns g ! j) \<or> j \<in> set (i # is')" for j
    using cs(3) that r Cons.prems(2) by (cases "j = i") auto
  with cs(1,2) show ?case by blast
qed

lemma setupCameraConnections_ok:
  assumes "setupCameraConnections mems g = (True, g')" "0 < numCameras g" "numCameras g < MAX_NUM_CAMERAS"
    "serving_ok g" "activeCamera g = None"
  shows "adapter_ok g'"
proof -
  let ?g = "g\<lparr>conns := replicate MAX_NUM_CAMERAS None, cameraIterator := 0\<rparr>"
  have "setup_loop mems [0 ..< numCameras g] ?g = (True, g')" using assms(1) by (simp add: setupCameraConnections_def)
  from setup_loop_ok[OF this] assms(3) obtain cs where
    cs: "g' = ?g\<lparr>conns := cs\<rparr>" "length cs = MAX_NUM_CAMERAS" "\<forall>i<numCameras g. camera_ok False (cs ! i)" by auto
  with assms(2-5) show ?thesis by (simp add: adapter_ok_def cameras_ok_def serving_ok_def)
qed

lemma serving_ok_zeroed: "serving_ok (zeroed_globals fs)"
  by (simp add: serving_ok_def zeroed_globals_def pending_ok_def no_requests_def MAX_NUM_CAMERAS_def)

lemma readConfiguration_ok:
  assumes "readConfiguration getenv g = Inr (ok, g')"
  shows "\<exists>h u pw n. g' = g\<lparr>g_host := h, g_username := u, g_password := pw, numCameras := n\<rparr>"
    and "ok \<Longrightarrow> numCameras g' < MAX_NUM_CAMERAS"
    and "ok \<Longrightarrow> \<exists>s. getenv ''RSVA11001_NUM_CAMERAS'' = Some s \<and> numCameras g' = fst (strtoul (s @ [NUL]))"
proof -
  have self: "\<exists>h u pw n. g = g\<lparr>g_host := h, g_username := u, g_password := pw, numCameras := n\<rparr>"
    by (rule exI[of _ "g_host g"], rule exI[of _ "g_username g"], rule exI[of _ "g_password g"], rule exI[of _ "numCameras g"]) simp
  have read: "read_num_cameras s (g\<lparr>g_host := h, g_password := pw, g_username := u\<rparr>) = (b, g') \<Longrightarrow>
      (\<exists>n. g' = g\<lparr>g_host := h, g_username := u, g_password := pw, numCameras := n\<rparr>) \<and>
      (b \<longrightarrow> numCameras g' < MAX_NUM_CAMERAS \<and> numCameras g' = fst (strtoul (s @ [NUL])))" for s h u pw b
    by (cases g; cases "strtoul (s @ [NUL])") (auto simp: read_num_cameras_def split: if_splits)
  from assms show "\<exists>h u pw n. g' = g\<lparr>g_host := h, g_username := u, g_password := pw, numCameras := n\<rparr>"
    and "ok \<Longrightarrow> numCameras g' < MAX_NUM_CAMERAS"
    and "ok \<Longrightarrow> \<exists>s. getenv ''RSVA11001_NUM_CAMERAS'' = Some s \<and> numCameras g' = fst (strtoul (s @ [NUL]))"
    using self by (auto simp: readConfiguration_def Let_def rbind_Inr_iff split: if_splits option.splits dest!: read)
qed

section \<open>The whole program\<close>

text \<open>Before the cameras are set up.\<close>

definition fresh :: "globals \<Rightarrow> bool" where
  "fresh g \<longleftrightarrow> serving_ok g \<and> activeCamera g = None \<and> 0 < numCameras g \<and> numCameras g < MAX_NUM_CAMERAS"

lemma fresh_descriptors:
  "fresh g \<Longrightarrow> fresh (snd (setupSignalFd a b g))" "fresh g \<Longrightarrow> fresh (snd (setupEpollFd a b g))"
  by (simp_all add: fresh_def serving_ok_def setupSignalFd_def setupEpollFd_def Let_def)

definition exit_ok :: "sg_env \<Rightarrow> (int \<times> release list \<times> globals) option res \<Rightarrow> bool" where
  "exit_ok sg r \<longleftrightarrow> (case r of Inl f \<Rightarrow> adapter_fault sg f | Inr None \<Rightarrow> True | Inr (Some (code, _)) \<Rightarrow> code = 0 \<or> code = 1)"

lemma main_loop_ok:
  assumes "adapter_ok g" "list_all turn_ok turns" "length (file_name pf) \<le> 229"
  shows "exit_ok sg (main_loop pf sg se turns g)"
proof -
  obtain ok freed where s: "setupScgiServer (fst (se_server se)) (snd (se_server se)) (fst (se_server_fd se)) (snd (se_server_fd se)) = (ok, freed)"
    by fastforce
  let ?run = "if ok then rbind (reactor pf sg turns False False g) (\<lambda>r. Inr (map_option (\<lambda>(_, g). (closeScgiServer, g)) r))
     else Inr (Some (freed, g))"
  have r: "run_ok sg (reactor pf sg turns False False g)" by (rule reactor_ok[OF assms(3,1) _ assms(2)]) simp
  have "case ?run of Inl f \<Rightarrow> adapter_fault sg f | Inr None \<Rightarrow> True | Inr (Some (rel, g')) \<Rightarrow> cameras_present g'"
    using r adapter_ok_present[OF assms(1)] by (cases "reactor pf sg turns False False g") (auto split: option.split)
  then show ?thesis
    by (cases ?run) (auto simp: main_loop_def s exit_ok_def cleanup_ok split: option.splits)
qed

lemma main_fresh_ok:
  assumes "readConfiguration (se_getenv se) (zeroed_globals fs) = Inr (ok, g)" and "ok \<Longrightarrow> fresh g"
    and "list_all turn_ok turns" "length (file_name pf) \<le> 229"
  shows "exit_ok sg (main pf sg se turns fs)"
proof (cases ok)
  case False
  with assms(1) show ?thesis by (simp add: main_def exit_ok_def)
next
  case True
  obtain ok1 g1 where 1: "setupSignalFd (fst (se_signal se)) (snd (se_signal se)) g = (ok1, g1)" by fastforce
  obtain ok2 g2 where 2: "setupEpollFd (fst (se_epoll se)) (snd (se_epoll se)) g1 = (ok2, g2)" by fastforce
  obtain ok3 g3 where 3: "setupCameraConnections (se_mems se) g2 = (ok3, g3)" by fastforce
  have "fresh g2" using fresh_descriptors assms(2)[OF True] 1 2 by (metis snd_conv)
  with setupCameraConnections_ok[of "se_mems se" g2 g3] 3 have "ok3 \<Longrightarrow> adapter_ok g3" by (simp add: fresh_def)
  from main_loop_ok[OF this assms(3,4)] show ?thesis
    using True assms(1) 1 2 3 by (simp add: main_def exit_ok_def)
qed

section \<open>Source numbers\<close>

lemma parse_source_decimal:
  assumes "n < k" "k \<le> 8"
  shows "parse_source k (length (decimal n)) (decimal n @ NUL # rest) = Inr (Some n)"
proof -
  have "strtoul (decimal n @ NUL # rest) = (n, NUL # rest, False)"
    by (rule strtoul_decimal) (use assms in \<open>simp_all add: IS_NUM_def\<close>)
  with assms show ?thesis by (simp add: parse_source_def)
qed

end
