(* ===== verification/Camera_Edge_Cases.thy ===== *)
theory Camera_Edge_Cases
  imports Camera_Properties
begin

text \<open>
  Opening and reading a connection, and the properties that bound what the reassembly of frames
  can take: each of the last five is an input the code does not handle.
\<close>

section \<open>Opening and reading\<close>

definition demo_malloc :: rsva11001_connection where
  "demo_malloc = the (rsva11001_connection_malloc (Some (64, demo_connection)))"

definition demo_closed :: rsva11001_connection where
  "demo_closed = demo_malloc\<lparr>hostname := ''camera'', username := ''admin'', password := ''secret'', channel := 1\<rparr>"

definition demo_open_env :: open_env where
  "demo_open_env = \<lparr>env_socket = (5, 0), env_getaddrinfo = (0, 0), env_connect = (- 1, EINPROGRESS),
     env_malloc_output = Some demo_buffer, env_malloc_errno = 0,
     env_malloc_pong = Some zero_buffer, env_malloc_ping = Some zero_buffer\<rparr>"

lemma demo_closed_simps:
  "sockfd demo_closed = - 1" "configured demo_closed" "storage_ok demo_open_env demo_closed" "network_ok demo_open_env"
  "channel demo_closed = 1" "length (username demo_closed) = 5" "length (password demo_closed) = 6"
  "length (hostname demo_closed) = 6"
  by (simp_all add: demo_closed_def demo_malloc_def rsva11001_connection_malloc_def configured_def storage_ok_def
      have_or_alloc_def demo_open_env_def network_ok_def demo_buffer_def outputBufferSize_def BASE_BUFFER_SIZE_def
      zero_buffer_def MIN_CHAN_def MAX_CHAN_def)

text \<open>
  C5. \<^verbatim>\<open>open\<close> after \<^verbatim>\<open>configure\<close>. If the system gives what is asked for and the path in
  \<^verbatim>\<open>__FILE__\<close> has at most 229 characters, the connection is in order: the output buffer holds the
  whole request, unsent; there is no image and nothing pending; the parser waits for a response.
\<close>

theorem open_makes_connection:
  assumes "rsva11001_connection_configure h u pw n c0 = (True, c)" and "storage_ok env c" and "network_ok env"
    and "length (file_name pf) \<le> 229"
  shows "\<exists>c'. rsva11001_connection_open pf env c = Inr (True, c') \<and> connection_ok c' \<and>
     take (outputLength c') (the (outputBuffer c')) = http_request pf c \<and> bytesWritten c' = 0 \<and>
     abstract c' = (None, []) \<and> parser c' = http_parser_init (parser c) HTTP_RESPONSE"
proof -
  have "sockfd c = - 1" "configured c" using configure_configured[OF assms(1)] by simp_all
  from open_ok[OF this assms(2-4)] show ?thesis by metis
qed

lemma open_makes_connection_witness:
  "\<exists>c'. rsva11001_connection_open demo_platform demo_open_env demo_closed = Inr (True, c') \<and> connection_ok c' \<and>
     take (outputLength c') (the (outputBuffer c')) = http_request demo_platform demo_closed \<and> bytesWritten c' = 0 \<and>
     abstract c' = (None, []) \<and> parser c' = http_parser_init (parser demo_closed) HTTP_RESPONSE"
proof (rule open_makes_connection)
  show "rsva11001_connection_configure ''camera'' ''admin'' ''secret'' 1 demo_malloc = (True, demo_closed)"
    by (simp add: rsva11001_connection_configure_def demo_closed_def demo_malloc_def rsva11001_connection_malloc_def
        MAX_CHAN_def MIN_CHAN_def)
qed (simp_all add: demo_closed_simps demo_platform_def)

text \<open>
  C6. \<^verbatim>\<open>getLatestImage\<close>. With the buffers in order it never reads outside a buffer. It gives the
  latest image if there is one and it fits the caller's buffer; no image is a success with size 0,
  an image that does not fit a failure with size 0.
\<close>

theorem getLatestImage_gives_latest:
  assumes "buffers_ok c"
  shows "rsva11001_connection_getLatestImage capacity c =
    Inr (case latest_image c of None \<Rightarrow> (True, 0, [])
         | Some img \<Rightarrow> if capacity < length img then (False, 0, []) else (True, length img, img))"
  by (rule getLatestImage_spec[OF assms])

lemma getLatestImage_gives_latest_witness:
  "rsva11001_connection_getLatestImage 30000 demo_connection = Inr (True, 0, [])"
  using getLatestImage_gives_latest[OF demo_buffers(1), of 30000] demo_buffers(3) by simp

text \<open>What \<^verbatim>\<open>open\<close> does with a socket: it stays the connection's or is closed.\<close>

lemma open_buffers_sockfd: "open_buffers env c = Inr c' \<Longrightarrow> sockfd c' = sockfd c"
  by (auto simp: open_buffers_def Let_def rbind_Inr_iff split: if_splits)

lemma open_request_sockfd:
  "open_request pf env out c = Inr (ok, c') \<Longrightarrow> sockfd c' = sockfd c \<and> (ok \<or> length (http_request pf c) = outputBufferSize)"
  by (auto simp: open_request_def Let_def rbind_Inr_iff dest!: open_buffers_sockfd split: if_splits)

lemma open_output_sockfd:
  assumes "open_output_closing pf env c = Inr (ok, closed, c')"
  shows "sockfd c' = sockfd c \<and> closed = [] \<and> (ok \<or> length (http_request pf c) = outputBufferSize) \<or>
    \<not> ok \<and> sockfd c' = - 1 \<and> closed = [Close_fd (sockfd c)]"
proof -
  have "http_request pf (c\<lparr>connected := False\<rparr>) = http_request pf c" by (simp add: http_request_def)
  then show ?thesis
    using assms by (auto simp: open_output_closing_def Let_def rbind_Inr_iff dest!: open_request_sockfd split: option.splits)
qed

text \<open>
  C7. The socket of \<^verbatim>\<open>open\<close>. Whatever fails on the way, a socket it has made is either closed and
  forgotten, with \<^verbatim>\<open>false\<close>, or is the connection's. It is the connection's after a success, and
  after just one failure: a request of exactly 512 bytes. In every case \<^verbatim>\<open>open\<close> and a later
  \<^verbatim>\<open>destroy\<close> together close it exactly once.
\<close>

theorem open_accounts_for_socket:
  assumes "sockfd c = - 1" "fst (env_socket env) = fd" "fd \<noteq> - 1"
    and "rsva11001_connection_open_closing pf env c = Inr (ok, closed, c')"
  shows "(sockfd c' = fd \<and> closed = [] \<and> (ok \<or> length (http_request pf c) = outputBufferSize) \<or>
      \<not> ok \<and> sockfd c' = - 1 \<and> closed = [Close_fd fd]) \<and>
    filter (\<lambda>r. r = Close_fd fd) (closed @ rsva11001_connection_destroy c') = [Close_fd fd]"
proof -
  have "http_request pf (c\<lparr>sockfd := fd\<rparr>) = http_request pf c" by (simp add: http_request_def)
  then have "sockfd c' = fd \<and> closed = [] \<and> (ok \<or> length (http_request pf c) = outputBufferSize) \<or>
      \<not> ok \<and> sockfd c' = - 1 \<and> closed = [Close_fd fd]"
    using assms open_output_sockfd[of pf env "c\<lparr>sockfd := fd\<rparr>" ok closed c']
    by (auto simp: rsva11001_connection_open_closing_def Let_def split: if_splits)
  with assms(3) show ?thesis by (auto simp: rsva11001_connection_destroy_def)
qed

definition demo_refused :: open_env where
  "demo_refused = demo_open_env\<lparr>env_connect := (- 1, 111)\<rparr>"

lemma open_accounts_for_socket_witness:
  "\<exists>c'. rsva11001_connection_open_closing demo_platform demo_refused demo_closed = Inr (False, [Close_fd 5], c') \<and>
     filter (\<lambda>r. r = Close_fd 5) ([Close_fd 5] @ rsva11001_connection_destroy c') = [Close_fd 5]"
proof -
  obtain c' where c': "rsva11001_connection_open_closing demo_platform demo_refused demo_closed = Inr (False, [Close_fd 5], c')"
    using demo_closed_simps(1)
    by (simp add: rsva11001_connection_open_closing_def demo_refused_def demo_open_env_def EINPROGRESS_def)
  have "fst (env_socket demo_refused) = 5" by (simp add: demo_refused_def demo_open_env_def)
  from open_accounts_for_socket[OF demo_closed_simps(1) this _ c'] c' show ?thesis by simp
qed

text \<open>The beginnings of one frame.\<close>

lemma frame_beginning:
  assumes "s @ t = encode_frame img" "length img \<le> 32754"
  shows "well_framed s" "complete_frame s \<longleftrightarrow> t = []"
proof -
  have n: "length img < 2 ^ 32" using assms(2) by simp
  have len: "length s + length t = 12 + length img"
    using arg_cong[OF assms(1), of length] by (simp add: length_encode_frame)
  have a: "announced s = length img" "take 4 s = HEADER" if "8 \<le> length s"
  proof -
    show "announced s = length img" using announced_prefix[OF that, of t] announced_encode[OF n, of "[]"] assms(1) by simp
    have "take 4 (s @ t) = HEADER" using encode_frame_parts(1)[OF n, of "[]"] assms(1) by simp
    then show "take 4 s = HEADER" using that by simp
  qed
  show c: "complete_frame s \<longleftrightarrow> t = []"
    using a(1) len by (cases t) (auto simp: complete_frame_def)
  have "slice (8 + announced s) 4 s = FOOTER" if "complete_frame s"
    using that c assms(1) a(1) encode_frame_parts(3)[OF n, of "[]"] by (auto simp: complete_frame_def)
  then show "well_framed s"
    using a assms(2) by (auto simp: well_framed_def BASE_BUFFER_SIZE_def)
qed

lemma feed_frame_end:
  assumes "s @ d = encode_frame img" "length img \<le> 32754"
  shows "feed (r, s) d = (Some img, [])"
proof -
  have n: "length img < 2 ^ 32" using assms(2) by simp
  have "complete_frame (encode_frame img)" using frame_beginning(2)[of "encode_frame img" "[]" img] assms(2) by simp
  then show ?thesis
    using assms(1) announced_encode[OF n, of "[]"] encode_frame_parts(2)[OF n, of "[]"]
    by (simp add: feed_def Let_def length_encode_frame)
qed

text \<open>The calls of the callback on pieces of a body; \<^theory_text>\<open>None\<close> when one does not return 0.\<close>

fun recv_pieces :: "http_parser \<Rightarrow> bytes list \<Rightarrow> rsva11001_connection \<Rightarrow> rsva11001_connection option res" where
  "recv_pieces p [] c = Inr (Some c)"
| "recv_pieces p (d # ds) c =
     rbind (rsva11001_connection_recv p d c) (\<lambda>(ret, paused, c'). if ret = 0 then recv_pieces p ds c' else Inr None)"

lemma recv_pieces_frame:
  assumes "hp_data p \<noteq> None" "length img \<le> 32754"
  shows "buffers_ok c \<Longrightarrow> pending c @ concat ds = encode_frame img \<Longrightarrow> ds \<noteq> [] \<Longrightarrow> [] \<notin> set ds \<Longrightarrow>
    \<exists>c'. recv_pieces p ds c = Inr (Some c') \<and> buffers_ok c' \<and> abstract c' = (Some img, [])"
proof (induction ds arbitrary: c)
  case (Cons d ds)
  have s: "(pending c @ d) @ concat ds = encode_frame img" "pending c @ (d @ concat ds) = encode_frame img"
    using Cons.prems(2) by simp_all
  have "d \<noteq> []" using Cons.prems(4) by auto
  then have incomplete: "\<not> complete_frame (pending c)" using frame_beginning(2)[OF s(2) assms(2)] by simp
  have "length d \<le> 32766" using arg_cong[OF s(1), of length] assms(2) by (simp add: length_encode_frame)
  from recv_refines_feed[OF Cons.prems(1) assms(1) this incomplete frame_beginning(1)[OF s(1) assms(2)]]
  obtain c' where c': "rsva11001_connection_recv p d c = Inr (0, False, c')" "buffers_ok c'"
    "abstract c' = feed (abstract c) d" by blast
  show ?case
  proof (cases ds)
    case Nil
    with s(1) feed_frame_end[of "pending c" d img] assms(2) c' show ?thesis by (simp add: abstract_def)
  next
    case (Cons e es)
    then have "concat ds \<noteq> []" using Cons.prems(4) by auto
    then have "\<not> complete_frame (pending c @ d)" using frame_beginning(2)[OF s(1) assms(2)] by simp
    then have "pending c' = pending c @ d" using c'(3) by (simp add: abstract_def feed_def)
    with Cons.IH[OF c'(2)] s(1) Cons Cons.prems(4) c'(1) show ?thesis by simp
  qed
qed simp

text \<open>
  C8. Round trip of a frame through the code. The bytes of one frame, \<^verbatim>\<open>JPGS\<close>, the length of the
  image in four bytes, the image (of at most 32754 bytes, also a short one) and \<^verbatim>\<open>JPGE\<close>, given to
  the parser's callback in whatever pieces, are taken without an error and without a byte left
  over, and \<^verbatim>\<open>getLatestImage\<close> then gives back exactly the image.
\<close>

theorem received_frame_is_read_back:
  assumes "buffers_ok c" "pending c = []" "hp_data p \<noteq> None" "length img \<le> 32754" "length img \<le> capacity"
    and "concat ds = ''JPGS'' @ htonl (of_nat (length img)) @ img @ ''JPGE''" "[] \<notin> set ds"
  shows "\<exists>c'. recv_pieces p ds c = Inr (Some c') \<and> buffers_ok c' \<and> pending c' = [] \<and>
    rsva11001_connection_getLatestImage capacity c' = Inr (True, length img, img)"
proof -
  have "pending c @ concat ds = encode_frame img" using assms(2,6) by (simp add: encode_frame_def HEADER_def FOOTER_def)
  moreover have "ds \<noteq> []" using assms(6) by auto
  ultimately obtain c' where c': "recv_pieces p ds c = Inr (Some c')" "buffers_ok c'" "abstract c' = (Some img, [])"
    using recv_pieces_frame[OF assms(3,4,1) _ _ assms(7)] by blast
  from getLatestImage_spec[OF c'(2), of capacity] c' assms(5) show ?thesis by (simp add: abstract_def)
qed

lemma received_frame_is_read_back_witness:
  "\<exists>c'. recv_pieces (parser demo_connection) [''JPGS'', htonl 3 @ ''ab'', ''cJPGE''] demo_connection = Inr (Some c') \<and>
    rsva11001_connection_getLatestImage 3 c' = Inr (True, 3, ''abc'')"
  using received_frame_is_read_back[OF demo_buffers(1,2), of "parser demo_connection" "''abc''" 3 "[''JPGS'', htonl 3 @ ''ab'', ''cJPGE'']"]
  by (auto simp: demo_fields)

section \<open>Inputs the reassembly does not handle\<close>

text \<open>
  C9. After one wrong frame header the stream is dead, and \<^verbatim>\<open>process\<close> does not say so: the call that
  receives it, and every later piece, still gives \<^verbatim>\<open>true\<close>, while the latest image never changes
  again and the parser stays in the error state \<^verbatim>\<open>HPE_CB_body\<close>.
\<close>

theorem bad_header_freezes_stream:
  assumes "streaming c" "data \<noteq> []" "8 \<le> length (pending c @ data)" "take 4 (pending c @ data) \<noteq> HEADER"
    and "length (pending c) < 32766" "[] \<notin> set datas"
  shows "\<exists>c'. recv_loop pf (map Received (data # datas) @ [Recv_error EAGAIN]) c = Inr (Some (True, c')) \<and>
     latest_image c' = latest_image c \<and> hp_errno (parser c') = HPE_CB_body"
  using recv_loop_bad_magic[OF assms, of pf] by metis

lemma bad_header_freezes_stream_witness:
  "\<exists>c'. recv_loop demo_platform (map Received (''JPEG0123'' # [encode_frame demo_image]) @ [Recv_error EAGAIN]) demo_connection
       = Inr (Some (True, c')) \<and>
     latest_image c' = latest_image demo_connection \<and> hp_errno (parser c') = HPE_CB_body"
  by (rule bad_header_freezes_stream)
    (simp_all add: demo_streaming demo_buffers HEADER_def encode_frame_def)

text \<open>
  C10. An image of more than 32754 bytes aborts the program: its frame does not fit a buffer, and
  when the buffer is full the next piece fails the assertion on \<^verbatim>\<open>spaceRemaining\<close>.
\<close>

theorem oversized_frame_aborts:
  assumes "streaming c" "data \<noteq> []" "next_data \<noteq> []" "take 4 (pending c @ data) = HEADER"
    and "32754 < announced (pending c @ data)" "announced (pending c @ data) < 2 ^ 32 - 12"
    and "32766 \<le> length (pending c @ data)" "length (pending c) < 32766"
  shows "recv_loop pf (Received data # Received next_data # answers) c = Inl (Assert_failed In_connection_recv)"
  by (rule recv_loop_oversized[OF assms])

definition demo_oversized :: bytes where
  "demo_oversized = HEADER @ htonl 32755 @ replicate 32758 NUL"

lemma announced_header: "announced (HEADER @ htonl w @ t) = unat w"
  by (simp add: announced_def slice_def)

lemma demo_oversized:
  "announced demo_oversized = 32755" "length demo_oversized = 32766" "take 4 demo_oversized = HEADER"
  "demo_oversized \<noteq> []"
  unfolding demo_oversized_def announced_header by (simp_all add: HEADER_def)

lemma oversized_frame_aborts_witness:
  "recv_loop demo_platform (Received demo_oversized # Received ''x'' # []) demo_connection
     = Inl (Assert_failed In_connection_recv)"
  by (rule oversized_frame_aborts) (simp_all add: demo_streaming demo_buffers demo_oversized)

text \<open>
  C11. Two frames that end in the same piece, with more behind them: the next call computes a
  negative number of new bytes and copies from in front of \<^verbatim>\<open>data\<close>.
\<close>

theorem short_frames_read_outside:
  assumes "streaming c" "pending c @ data = encode_frame i @ encode_frame j @ t" "t \<noteq> []"
    and "length i \<le> 32754" "data \<noteq> []" "length data \<le> 16383" "next_data \<noteq> []" "length next_data \<le> 16383"
  shows "recv_loop pf (Received data # Received next_data # answers) c = Inl (Out_of_bounds In_connection_recv)"
  by (rule recv_loop_short_frames[OF assms])

lemma short_frames_read_outside_witness:
  "recv_loop demo_platform (Received (encode_frame ''a'' @ encode_frame ''b'' @ ''J'') # Received ''P'' # []) demo_connection
     = Inl (Out_of_bounds In_connection_recv)"
  by (rule short_frames_read_outside[where i = "''a''" and j = "''b''" and t = "''J''"])
    (simp_all add: demo_streaming demo_buffers length_encode_frame)

text \<open>
  C12. A length of \<^verbatim>\<open>2^32 - 12\<close> or more wraps the 32-bit sum \<^verbatim>\<open>totalLength\<close>, so the frame counts
  as complete and the footer is compared about 4 GB behind the buffer.
\<close>

theorem wrapped_length_reads_outside:
  assumes "streaming c" "data \<noteq> []" "take 4 (pending c @ data) = HEADER"
    and "2 ^ 32 - 12 \<le> announced (pending c @ data)" "12 \<le> length (pending c @ data)" "length (pending c) < 32766"
  shows "recv_loop pf (Received data # answers) c = Inl (Out_of_bounds In_connection_recv)"
  by (rule recv_loop_wrapped_length[OF assms])

lemma wrapped_length_reads_outside_witness:
  "recv_loop demo_platform (Received (HEADER @ htonl (- 1) @ ''JPGE'') # []) demo_connection
     = Inl (Out_of_bounds In_connection_recv)"
proof (rule wrapped_length_reads_outside)
  have "unat (- 1 :: 32 word) = 2 ^ 32 - 1" by (simp add: unsigned_minus_1_eq_mask mask_eq_exp_minus_1)
  then show "2 ^ 32 - 12 \<le> announced (pending demo_connection @ HEADER @ htonl (- 1) @ ''JPGE'')"
    by (simp add: demo_buffers announced_header)
qed (simp_all add: demo_streaming demo_buffers HEADER_def htonl_def)

text \<open>
  C13. The test for a request that does not fit misses every length but 512: \<^verbatim>\<open>open\<close> succeeds with
  an output length beyond the buffer, and the first \<^verbatim>\<open>send\<close> reads behind the buffer.
\<close>

theorem long_request_sent_from_outside:
  assumes "sockfd c = - 1" "channel c \<le> MAX_CHAN" "storage_ok env c" "network_ok env"
    and "512 < length (http_request pf c)" "length (http_request pf c) < 2 ^ 31"
  shows "\<exists>c'. rsva11001_connection_open pf env c = Inr (True, c') \<and>
     send_loop pf answers c' = Inl (Out_of_bounds In_connection_process)"
proof -
  from open_long_request[OF assms(1-5)] obtain c' where
    c: "rsva11001_connection_open pf env c = Inr (True, c')" "outputLength c' = length (http_request pf c)"
      "bytesWritten c' = 0" "length (the (outputBuffer c')) = 512" "outputBuffer c' \<noteq> None" .
  then obtain buf where "outputBuffer c' = Some buf" "length buf = 512" by auto
  with send_loop_long_request[OF c(2) assms(5) _ c(3)] assms(6) c(1) show ?thesis by auto
qed

definition demo_long_path :: platform where
  "demo_long_path = \<lparr>file_name = replicate 403 CHR ''/'', strerror = (\<lambda>e. ''error'')\<rparr>"

lemma long_request_sent_from_outside_witness:
  "\<exists>c'. rsva11001_connection_open demo_long_path demo_open_env demo_closed = Inr (True, c') \<and>
     send_loop demo_long_path [] c' = Inl (Out_of_bounds In_connection_process)"
proof (rule long_request_sent_from_outside)
  have "channel demo_closed \<le> MAX_CHAN" by (simp add: demo_closed_simps MAX_CHAN_def)
  from http_request_length[OF this, of demo_long_path]
  have "length (http_request demo_long_path demo_closed) = 513"
    by (simp add: demo_closed_simps demo_long_path_def)
  then show "512 < length (http_request demo_long_path demo_closed)"
    "length (http_request demo_long_path demo_closed) < 2 ^ 31" by simp_all
qed (simp_all add: demo_closed_simps MAX_CHAN_def)

end
