(* ===== verification/Adapter_Properties.thy ===== *)
theory Adapter_Properties
  imports Adapter_Runs Camera_Edge_Cases
begin

text \<open>
  The properties of the adapter's main program, each with a concrete case: two cameras, the first
  of them connected.
\<close>

section \<open>A concrete adapter\<close>

lemma demo_closed_reusable: "reusable demo_closed"
  using demo_closed_simps(1,2)
  by (simp add: reusable_def sized_def) (simp add: demo_closed_def demo_malloc_def rsva11001_connection_malloc_def)

definition demo_globals :: globals where
  "demo_globals = (zeroed_globals (\<lambda>f. None))
     \<lparr>conns := [Some demo_connection, Some demo_closed, None, None, None, None, None, None],
      activeCamera := Some 0, cameraIterator := 1, numCameras := 2\<rparr>"

lemma demo_globals_ok: "adapter_ok demo_globals"
proof -
  have "cameras_ok demo_globals"
    by (auto simp: cameras_ok_def demo_globals_def zeroed_globals_def MAX_NUM_CAMERAS_def demo_ok demo_closed_reusable
        less_Suc_eq numeral_2_eq_2)
  moreover have "serving_ok demo_globals"
    using serving_ok_zeroed[of "\<lambda>f. None"] by (simp add: serving_ok_def demo_globals_def MAX_NUM_CAMERAS_def)
  ultimately show ?thesis by (simp add: adapter_ok_def)
qed

lemma demo_globals_simps [simp]:
  "activeCamera demo_globals = Some 0" "cameraIterator demo_globals = 1" "numCameras demo_globals = 2"
  "conns demo_globals ! 0 = Some demo_connection" "conns demo_globals ! Suc 0 = Some demo_closed"
  "pendingRequests demo_globals ! n = pendingRequests (zeroed_globals (\<lambda>f. None)) ! n"
  "responses demo_globals = []"
  by (simp_all add: demo_globals_def zeroed_globals_def)

definition demo_sg :: sg_env where
  "demo_sg = \<lparr>sg_getHeader = (\<lambda>c k. if k = ''REQUEST_METHOD'' then Some ''GET'' else
      if k = ''PATH_INFO'' then Some ''/camera.jpg'' else if k = ''QUERY_STRING'' then Some ''source=1'' else None),
     sg_writeResponse = (\<lambda>c. True), sg_query_init = (\<lambda>q. True),
     sg_findFirst = (\<lambda>q k. if k = ''source'' then (True, 1, ''1'' @ NUL # []) else (True, 0, [NUL]))\<rparr>"

lemma decimal_1: "decimal (Suc 0) = ''1''"
  by (simp add: char_of_def bit_0)

definition demo_files :: file_env where
  "demo_files = \<lparr>fe_unlink = (- 1, ENOENT), fe_open = 7, fe_ftruncate = 0, fe_mmap = True, fe_close = 0,
     fe_munmap = 0, fe_sg_process = True\<rparr>"

definition demo_camera :: "recv_answer list \<Rightarrow> camera_env" where
  "demo_camera answers = \<lparr>ce_process = demo_env answers, ce_close = (0, 0), ce_file = demo_files\<rparr>"

definition demo_answers :: "recv_answer list" where
  "demo_answers = [Received (encode_frame demo_image), Recv_error EAGAIN]"

lemma demo_received:
  obtains c' where "rsva11001_connection_process demo_platform (demo_env demo_answers) demo_connection = Inr (Some (True, c'))"
    "connection_ok c'" "latest_image c' = Some demo_image"
proof -
  have len: "\<forall>d\<in>set [encode_frame demo_image]. d \<noteq> [] \<and> length d \<le> 16383"
    using length_encode_frame[of demo_image] demo_image by auto
  have "\<forall>img\<in>set [demo_image]. frame_sized img" "pending demo_connection @ concat [encode_frame demo_image] @ [] = frames [demo_image]"
    using demo_image demo_buffers by simp_all
  from recv_loop_frames[OF demo_streaming len this, where pf = demo_platform] obtain ds later c' where
    r: "[demo_image] = ds @ later" "recv_loop demo_platform (map Received [encode_frame demo_image] @ [Recv_error EAGAIN]) demo_connection = Inr (Some (True, c'))"
      "latest_image c' = (if ds = [] then latest_image demo_connection else Some (last ds))" "pending c' @ [] = frames later"
      "streaming c'" by blast
  have "ds \<noteq> []"
  proof
    assume "ds = []"
    then have p: "pending c' = encode_frame demo_image @ []" using r(1,4) by auto
    have "complete_frame (pending c')"
      unfolding p complete_frame_def using announced_encode[of demo_image "[]"] demo_image
      by (simp add: length_encode_frame)
    then show False using r(5) by (simp add: streaming_def)
  qed
  then have img: "latest_image c' = Some demo_image" using r(1,3) by (cases ds) auto
  have proc: "rsva11001_connection_process demo_platform (demo_env demo_answers) demo_connection = Inr (Some (True, c'))"
    using r(2) process_sent[of demo_connection demo_platform "demo_env demo_answers"]
    by (simp add: demo_fields demo_env_def demo_answers_def)
  have "connection_ok c'"
    using process_ok[OF demo_ok, of "demo_env demo_answers" demo_platform] proc
    by (simp add: outcome_ok_def sends_ok_def demo_env_def)
  with that proc img show thesis by blast
qed

lemma demo_files_ok: "files_ok demo_files"
  by (simp add: files_ok_def demo_files_def)

lemma demo_image_size: "demo_image \<noteq> []" "length demo_image \<le> 30000"
  using demo_image by auto

section \<open>Publishing and serving\<close>

text \<open>What one image of the active camera does to the globals.\<close>

definition after_image :: "platform \<Rightarrow> sg_env \<Rightarrow> camera_env \<Rightarrow> nat \<Rightarrow> rsva11001_connection \<Rightarrow> bytes \<Rightarrow> globals \<Rightarrow> globals" where
  "after_image pf sg env i c jpeg g =
     (published sg jpeg (set_file (image_name (cameraIterator g)) (Some jpeg)
        (g\<lparr>conns := (conns g)[i := Some (c\<lparr>sockfd := - 1\<rparr>)]\<rparr>)))\<lparr>activeCamera := None\<rparr>"

lemma processActiveCamera_image:
  assumes "adapter_ok g" "activeCamera g = Some i" "conns g ! i = Some c"
    and "rsva11001_connection_process pf (ce_process env) c = Inr (Some (True, c'))" "connection_ok c'"
    and "latest_image c' = Some jpeg" "jpeg \<noteq> []" "length jpeg \<le> 30000" "fst (ce_close env) = 0" "files_ok (ce_file env)"
  shows "processActiveCamera pf sg env g = Inr (Some (0, after_image pf sg env i c' jpeg g))"
proof -
  have img: "rsva11001_connection_getLatestImage 30000 c' = Inr (True, length jpeg, jpeg)"
    using getLatestImage_spec[of c' 30000] assms(5,6,8) by (simp add: connection_ok_def)
  have cl: "rsva11001_connection_close pf (ce_close env) c' = (True, c'\<lparr>sockfd := - 1\<rparr>)"
    using assms(5,9) by (simp add: rsva11001_connection_close_def connection_ok_def)
  let ?g = "g\<lparr>conns := (conns g)[i := Some (c'\<lparr>sockfd := - 1\<rparr>)]\<rparr>"
  have "serving_ok ?g" using assms(1) by (simp add: adapter_ok_def)
  from writeImageFile_success[OF this assms(10), of sg jpeg]
  show ?thesis
    using assms(2-4,7) img cl
    by (simp add: processActiveCamera_def take_image_def Let_def after_image_def)
qed

lemma after_image_facts:
  fixes g
  assumes "adapter_ok g" "activeCamera g = Some i" "connection_ok c"
  defines "slot \<equiv> cameraIterator g"
  shows "lastImage (after_image pf sg env i c jpeg g) ! slot = Some jpeg"
    and "files (after_image pf sg env i c jpeg g) (image_name slot) = Some jpeg"
    and "numPending (pendingRequests (after_image pf sg env i c jpeg g) ! slot) = 0"
    and "responses (after_image pf sg env i c jpeg g) =
      responses g @ concat (map (\<lambda>conn. jpeg_answer sg conn jpeg) (waiting (pendingRequests g ! slot)))"
    and "activeCamera (after_image pf sg env i c jpeg g) = None"
    and "adapter_ok (after_image pf sg env i c jpeg g)"
    and "numCameras (after_image pf sg env i c jpeg g) = numCameras g"
    and "slot = (i + 1) mod numCameras g"
proof -
  have g: "cameras_ok g" "serving_ok g" "slot < MAX_NUM_CAMERAS" using assms(1) by (auto simp: adapter_ok_def serving_ok_def slot_def)
  show "lastImage (after_image pf sg env i c jpeg g) ! slot = Some jpeg"
    "files (after_image pf sg env i c jpeg g) (image_name slot) = Some jpeg"
    "numPending (pendingRequests (after_image pf sg env i c jpeg g) ! slot) = 0"
    "responses (after_image pf sg env i c jpeg g) =
      responses g @ concat (map (\<lambda>conn. jpeg_answer sg conn jpeg) (waiting (pendingRequests g ! slot)))"
    "activeCamera (after_image pf sg env i c jpeg g) = None"
    "numCameras (after_image pf sg env i c jpeg g) = numCameras g"
    using g by (simp_all add: after_image_def published_def set_file_def Let_def slot_def serving_ok_def)
  show "slot = (i + 1) mod numCameras g" using cameras_okE[OF g(1) assms(2)] slot_def by blast
  let ?g = "g\<lparr>conns := (conns g)[i := Some (c\<lparr>sockfd := - 1\<rparr>)], activeCamera := None\<rparr>"
  have "cameras_ok ?g" by (rule cameras_ok_drop[OF g(1) assms(2) connection_sized[OF assms(3)]])
  moreover have "cameras (after_image pf sg env i c jpeg g) = cameras ?g"
    by (simp add: after_image_def cameras_def published_def set_file_def Let_def)
  ultimately have "cameras_ok (after_image pf sg env i c jpeg g)"
    using cameras_ok_cong[of "after_image pf sg env i c jpeg g" ?g] by simp
  moreover have "serving_ok (after_image pf sg env i c jpeg g)"
    using g(2) by (simp add: after_image_def serving_ok_published)
  ultimately show "adapter_ok (after_image pf sg env i c jpeg g)" by (simp add: adapter_ok_def)
qed

text \<open>
  C14. One image from the active camera \<^theory_text>\<open>i\<close>. If \<^verbatim>\<open>process\<close> leaves an image of at most 30000
  bytes and the system's calls succeed, \<^verbatim>\<open>processActiveCamera\<close> gives 0; under the number
  \<^theory_text>\<open>(i + 1) mod numCameras\<close> the image is the last image and the contents of the file, every request
  waiting there has its answer, in order, and none waits any more; no camera is active, and the
  adapter is in order.
\<close>

theorem image_is_published:
  assumes "adapter_ok g" "activeCamera g = Some i" "conns g ! i = Some c"
    and "rsva11001_connection_process pf (ce_process env) c = Inr (Some (True, c'))" "connection_ok c'"
    and "latest_image c' = Some jpeg" "jpeg \<noteq> []" "length jpeg \<le> 30000" "fst (ce_close env) = 0" "files_ok (ce_file env)"
  shows "\<exists>g'. processActiveCamera pf sg env g = Inr (Some (0, g')) \<and>
    lastImage g' ! ((i + 1) mod numCameras g) = Some jpeg \<and>
    files g' (image_name ((i + 1) mod numCameras g)) = Some jpeg \<and>
    responses g' = responses g @
      concat (map (\<lambda>conn. jpeg_answer sg conn jpeg) (waiting (pendingRequests g ! ((i + 1) mod numCameras g)))) \<and>
    numPending (pendingRequests g' ! ((i + 1) mod numCameras g)) = 0 \<and> activeCamera g' = None \<and> adapter_ok g'"
  using processActiveCamera_image[OF assms, of sg] after_image_facts[OF assms(1,2,5)] by simp

lemma image_is_published_witness:
  "\<exists>g'. processActiveCamera demo_platform demo_sg (demo_camera demo_answers) demo_globals = Inr (Some (0, g')) \<and>
    lastImage g' ! 1 = Some demo_image \<and> files g' (image_name 1) = Some demo_image \<and>
    numPending (pendingRequests g' ! 1) = 0 \<and> activeCamera g' = None \<and> adapter_ok g'"
proof -
  obtain c' where c: "rsva11001_connection_process demo_platform (demo_env demo_answers) demo_connection = Inr (Some (True, c'))"
    "connection_ok c'" "latest_image c' = Some demo_image" by (rule demo_received)
  have p: "rsva11001_connection_process demo_platform (ce_process (demo_camera demo_answers)) demo_connection = Inr (Some (True, c'))"
    using c(1) by (simp add: demo_camera_def)
  have e: "fst (ce_close (demo_camera demo_answers)) = 0" "files_ok (ce_file (demo_camera demo_answers))"
    by (simp_all add: demo_camera_def demo_files_ok)
  from image_is_published[OF demo_globals_ok demo_globals_simps(1,4) p c(2,3) demo_image_size e, of demo_sg] show ?thesis
    by auto
qed

text \<open>A request for a source with an image, which does not wait, gets the image.\<close>

lemma request_gets_image:
  assumes "s < numCameras g" "numCameras g \<le> 8" "lastImage g ! s = Some jpeg" "length jpeg \<le> 30000"
    and "sg_getHeader sg conn ''REQUEST_METHOD'' = Some ''GET''" "sg_getHeader sg conn ''PATH_INFO'' = Some ''/camera.jpg''"
    and "sg_getHeader sg conn ''QUERY_STRING'' = Some query" "sg_query_init sg query" "sg_writeResponse sg conn"
    and "sg_findFirst sg query ''source'' = (True, length (decimal s), decimal s @ NUL # junk)"
    and "sg_findFirst sg query ''wait'' = (True, 0, other)"
  shows "\<exists>g'. handleNewRequest sg conn g = Inr (True, g') \<and>
    responses g' = responses g @ [Response conn (jpeg_headers (sg_getHeader sg conn ''HTTP_HOST'') (decimal (length jpeg))) jpeg]"
proof -
  have small: "length jpeg < 1000000" using assms(4) by simp
  have ans: "fst (sendJpeg sg conn jpeg g)" "responses (snd (sendJpeg sg conn jpeg g)) = responses g @
      [Response conn (jpeg_headers (sg_getHeader sg conn ''HTTP_HOST'') (decimal (length jpeg))) jpeg]"
    using assms(9) by (simp_all add: sendJpeg_fst sendJpeg_eq jpeg_answer_small[OF small assms(9)])
  have "handleNewRequest sg conn g = Inr (sendJpeg sg conn jpeg g)"
    using assms parse_source_decimal[OF assms(1,2), of junk]
    by (simp add: handleNewRequest_def serve_source_def Let_def)
  with ans show ?thesis by (cases "sendJpeg sg conn jpeg g") simp
qed

text \<open>
  C15. Off by one. The camera is opened on channel \<^theory_text>\<open>i + 1\<close> and its image is stored under the
  iterator, which has moved on: a request for the source \<^theory_text>\<open>(i + 1) mod numCameras\<close> gets the
  image of camera \<^theory_text>\<open>i\<close>, as one response with its length in full.
\<close>

theorem image_is_served_one_off:
  assumes "adapter_ok g" "activeCamera g = Some i" "conns g ! i = Some c"
    and "rsva11001_connection_process pf (ce_process env) c = Inr (Some (True, c'))" "connection_ok c'"
    and "latest_image c' = Some jpeg" "jpeg \<noteq> []" "length jpeg \<le> 30000" "fst (ce_close env) = 0" "files_ok (ce_file env)"
    and "processActiveCamera pf sg env g = Inr (Some (code, g1))"
    and "sg_getHeader sg conn ''REQUEST_METHOD'' = Some ''GET''" "sg_getHeader sg conn ''PATH_INFO'' = Some ''/camera.jpg''"
    and "sg_getHeader sg conn ''QUERY_STRING'' = Some query" "sg_query_init sg query" "sg_writeResponse sg conn"
    and "sg_findFirst sg query ''source'' =
      (True, length (decimal ((i + 1) mod numCameras g)), decimal ((i + 1) mod numCameras g) @ NUL # junk)"
    and "sg_findFirst sg query ''wait'' = (True, 0, other)"
  shows "\<exists>g2. handleNewRequest sg conn g1 = Inr (True, g2) \<and>
    responses g2 = responses g1 @ [Response conn (jpeg_headers (sg_getHeader sg conn ''HTTP_HOST'') (decimal (length jpeg))) jpeg]"
proof -
  let ?s = "(i + 1) mod numCameras g"
  have g1: "g1 = after_image pf sg env i c' jpeg g"
    using processActiveCamera_image[OF assms(1-10), of sg] assms(11) by simp
  have "?s < numCameras g1" "numCameras g1 \<le> 8" "lastImage g1 ! ?s = Some jpeg"
    using assms(1) after_image_facts[OF assms(1,2,5)] g1
    by (auto simp: adapter_ok_def cameras_ok_def MAX_NUM_CAMERAS_def)
  from request_gets_image[OF this assms(8,12-18)] show ?thesis .
qed

lemma image_is_served_one_off_witness:
  "\<exists>g1 g2. processActiveCamera demo_platform demo_sg (demo_camera demo_answers) demo_globals = Inr (Some (0, g1)) \<and>
    handleNewRequest demo_sg 3 g1 = Inr (True, g2) \<and>
    responses g2 = responses g1 @ [Response 3 (jpeg_headers None (decimal (length demo_image))) demo_image]"
proof -
  obtain c' where c: "rsva11001_connection_process demo_platform (demo_env demo_answers) demo_connection = Inr (Some (True, c'))"
    "connection_ok c'" "latest_image c' = Some demo_image" by (rule demo_received)
  have p: "rsva11001_connection_process demo_platform (ce_process (demo_camera demo_answers)) demo_connection = Inr (Some (True, c'))"
    using c(1) by (simp add: demo_camera_def)
  have e: "fst (ce_close (demo_camera demo_answers)) = 0" "files_ok (ce_file (demo_camera demo_answers))"
    by (simp_all add: demo_camera_def demo_files_ok)
  let ?g1 = "after_image demo_platform demo_sg (demo_camera demo_answers) 0 c' demo_image demo_globals"
  have run: "processActiveCamera demo_platform demo_sg (demo_camera demo_answers) demo_globals = Inr (Some (0, ?g1))"
    by (rule processActiveCamera_image[OF demo_globals_ok demo_globals_simps(1,4) p c(2,3) demo_image_size e])
  have "\<exists>g2. handleNewRequest demo_sg 3 ?g1 = Inr (True, g2) \<and>
    responses g2 = responses ?g1 @ [Response 3 (jpeg_headers (sg_getHeader demo_sg 3 ''HTTP_HOST'') (decimal (length demo_image))) demo_image]"
    by (rule image_is_served_one_off[OF demo_globals_ok demo_globals_simps(1,4) p c(2,3) demo_image_size e run,
          where query = "''source=1''" and junk = "[]" and other = "[NUL]"])
      (simp_all add: demo_sg_def decimal_1)
  then show ?thesis using run by (auto simp: demo_sg_def)
qed

section \<open>Requests\<close>

fun response_to :: "response \<Rightarrow> sg_connection" where
  "response_to (Send404 c) = c"
| "response_to (Response c h d) = c"

definition answered_or_waits :: "sg_env \<Rightarrow> sg_connection \<Rightarrow> globals \<Rightarrow> bool \<Rightarrow> globals \<Rightarrow> bool" where
  "answered_or_waits sg conn g ok g' \<longleftrightarrow>
    (ok \<and> (\<exists>r. response_to r = conn \<and> g' = g\<lparr>responses := responses g @ [r]\<rparr>)) \<or>
    (ok \<and> (\<exists>src. src < numCameras g \<and> numPending (pendingRequests g ! src) < 64 \<and> g' = enqueue src conn g)) \<or>
    (ok = False \<and> \<not> sg_writeResponse sg conn \<and> g' = g)"

lemma answered: "response_to r = conn \<Longrightarrow> answered_or_waits sg conn g True (g\<lparr>responses := responses g @ [r]\<rparr>)"
  unfolding answered_or_waits_def by blast

lemma sendJpeg_answers: "sendJpeg sg conn jpeg g = (ok, g') \<Longrightarrow> answered_or_waits sg conn g ok g'"
  by (auto simp: sendJpeg_def respond_def Let_def answered split: if_splits) (simp add: answered_or_waits_def)

lemma serve_source_answers:
  assumes "serve_source sg conn query src g = Inr (ok, g')"
  shows "answered_or_waits sg conn g ok g'"
proof -
  obtain found len buffer where f: "sg_findFirst sg query ''wait'' = (found, len, buffer)" by (metis prod_cases3)
  have wait: "answered_or_waits sg conn g True (enqueue src conn g)"
    if "src < numCameras g" "numPending (pendingRequests g ! src) < 64"
    unfolding answered_or_waits_def using that by blast
  show ?thesis
    using assms f wait sendJpeg_answers[of sg conn _ g ok g']
    by (auto simp: serve_source_def Let_def enqueue_def MAX_PENDING_REQUESTS_def respond_def answered
        split: if_splits option.splits)
qed

lemma handleNewRequest_cases:
  assumes "handleNewRequest sg conn g = Inr (ok, g')"
  shows "(ok, g') = (True, respond (Send404 conn) g) \<or> (\<exists>query src. serve_source sg conn query src g = Inr (ok, g'))"
  using assms
  by (auto simp: handleNewRequest_def Let_def rbind_Inr_iff split: if_splits option.splits prod.splits)

text \<open>
  C16. Every request is answered or waits. When \<^verbatim>\<open>handleNewRequest\<close> returns, it has either added
  exactly one response, to this request, and touched nothing else; or it has put the request
  behind those that wait for one camera; or the library has failed to write, and nothing has
  changed.
\<close>

theorem request_answered_or_waits:
  assumes "handleNewRequest sg conn g = Inr (ok, g')"
  shows "(ok \<and> (\<exists>r. response_to r = conn \<and> g' = g\<lparr>responses := responses g @ [r]\<rparr>)) \<or>
    (ok \<and> (\<exists>src. src < numCameras g \<and> numPending (pendingRequests g ! src) < 64 \<and> g' = enqueue src conn g)) \<or>
    (ok = False \<and> \<not> sg_writeResponse sg conn \<and> g' = g)"
proof -
  have "answered_or_waits sg conn g ok g'"
    using handleNewRequest_cases[OF assms] serve_source_answers answered[of "Send404 conn" conn sg g]
    by (auto simp: respond_def)
  then show ?thesis by (simp only: answered_or_waits_def)
qed

lemma request_answered_or_waits_witness:
  "handleNewRequest demo_sg 3 demo_globals = Inr (True, respond (Send404 3) demo_globals) \<and>
    ((True \<and> (\<exists>r. response_to r = 3 \<and> respond (Send404 3) demo_globals = demo_globals\<lparr>responses := responses demo_globals @ [r]\<rparr>)) \<or>
    (True \<and> (\<exists>src. src < numCameras demo_globals \<and> numPending (pendingRequests demo_globals ! src) < 64 \<and>
       respond (Send404 3) demo_globals = enqueue src 3 demo_globals)) \<or>
    (True = False \<and> \<not> sg_writeResponse demo_sg 3 \<and> respond (Send404 3) demo_globals = demo_globals))"
proof -
  have src: "parse_source 2 1 (''1'' @ NUL # []) = Inr (Some 1)"
    using parse_source_decimal[of 1 2 "[]"] by (simp add: decimal_1 del: decimal_digit)
  have h: "handleNewRequest demo_sg 3 demo_globals = Inr (True, respond (Send404 3) demo_globals)"
    using src by (simp add: handleNewRequest_def demo_sg_def serve_source_def demo_globals_def zeroed_globals_def MAX_NUM_CAMERAS_def)
  from request_answered_or_waits[OF h] h show ?thesis by blast
qed

text \<open>
  C17. The 65th request that waits for one camera is stored behind the end of the array.
\<close>

theorem waiting_requests_overflow:
  assumes "src < numCameras g" "numPending (pendingRequests g ! src) = MAX_PENDING_REQUESTS"
    and "sg_findFirst sg query ''wait'' = (True, 1, CHR ''1'' # other)"
  shows "serve_source sg conn query src g = Inl (Out_of_bounds In_pending_requests)"
  using assms by (simp add: serve_source_def Let_def)

definition full_requests :: pending_requests where
  "full_requests = \<lparr>connections = replicate 64 (Some 5), numPending = 64\<rparr>"

lemma waiting_requests_overflow_witness:
  "serve_source (demo_sg\<lparr>sg_findFirst := (\<lambda>q k. (True, 1, ''1''))\<rparr>) 3 ''wait=1'' 0
     (demo_globals\<lparr>pendingRequests := full_requests # replicate 7 no_requests\<rparr>) = Inl (Out_of_bounds In_pending_requests)"
  by (rule waiting_requests_overflow[where other = "[]"]) (simp_all add: full_requests_def MAX_PENDING_REQUESTS_def)

text \<open>
  C18. Round trip of a source number: the decimal text of a camera's number, ended by a NUL, is
  read back as that number, and as no camera when there are not that many.
\<close>

theorem source_roundtrip:
  assumes "k < 2 ^ 32" "n \<le> 8"
  shows "parse_source n (length (decimal k)) (decimal k @ NUL # rest) = Inr (if k < n then Some k else None)"
proof -
  have "strtoul (decimal k @ NUL # rest) = (k, NUL # rest, False)"
    by (rule strtoul_decimal) (use assms in \<open>simp_all add: IS_NUM_def\<close>)
  with assms show ?thesis by (simp add: parse_source_def)
qed

lemma source_roundtrip_witness:
  "parse_source 3 (length (decimal 2)) (decimal 2 @ NUL # []) = Inr (if (2::nat) < 3 then Some 2 else None)"
  by (rule source_roundtrip) simp_all

end
