(* ===== verification/Session_Properties.thy ===== *)
theory Session_Properties
  imports Camera_Session Adapter_Properties
begin

text \<open>
  The composition of the components: from opening a camera to its images, and from a camera's bytes
  to the client's response.
\<close>

section \<open>A camera's session\<close>

text \<open>
  C35. A session. A connection that is configured and closed is opened, and \<^verbatim>\<open>process\<close> is called any
  number of times, each time on a socket that works. The camera answers with a \<^theory_text>\<open>head\<close> after which
  the parser takes everything as the body, and with a stream of well-sized frames. However these
  bytes are cut into pieces and calls: every call succeeds, the connection stays in order, and
  \<^verbatim>\<open>getLatestImage\<close> gives the last complete image, or size 0 before the first; when nothing is left
  to come, it is the last image of all.
\<close>

theorem session_delivers_images:
  assumes "sockfd c = - 1" "configured c" "storage_ok oenv c" "network_ok oenv" "length (file_name pf) \<le> 229"
    and "hp_data (parser c) \<noteq> None"
    and "header_parse c head (http_parser_init (parser c) HTTP_RESPONSE) = Some p" "hp_state p = s_body_identity_eof"
    and "list_all2 delivers envs datass" "\<forall>img\<in>set imgs. frame_sized img" "concat (concat datass) @ rest = head @ frames imgs"
  shows "\<exists>c1 c2 ds later. rsva11001_connection_open pf oenv c = Inr (True, c1) \<and>
    process_calls pf envs c1 = Inr (Some (True, c2)) \<and> connection_ok c2 \<and> imgs = ds @ later \<and> (rest = [] \<longrightarrow> later = []) \<and>
    rsva11001_connection_getLatestImage 32754 c2 = Inr (if ds = [] then (True, 0, []) else (True, length (last ds), last ds))"
proof -
  from open_ok[OF assms(1-5)] obtain c1 where
    c1: "rsva11001_connection_open pf oenv c = Inr (True, c1)" "connection_ok c1" "abstract c1 = (None, [])"
      "parser c1 = http_parser_init (parser c) HTTP_RESPONSE" by metis
  have a: "pending c1 = []" "latest_image c1 = None" using c1(3) by (simp_all add: abstract_def)
  have "awaiting head c1"
    using c1(2,4) a(1) assms(6) header_parse_any[OF assms(7), of c1] assms(8)
    by (simp add: awaiting_def connection_ok_def http_parser_init_def)
  moreover have "pending c1 @ concat (concat datass) @ rest = head @ frames imgs" using assms(11) a(1) by simp
  ultimately obtain ds later head' c2 where
    r: "imgs = ds @ later" "process_calls pf envs c1 = Inr (Some (True, c2))" "connection_ok c2" "expects head' c2"
      "latest_image c2 = (if ds = [] then latest_image c1 else Some (last ds))" "pending c2 @ rest = head' @ frames later"
    using calls_deliver[OF c1(2) awaiting_expects assms(9,10), of head rest pf] by metis
  have "later = []" if "rest = []"
    using expects_nothing_left[OF r(4), of later] r(1,6) assms(10) that by simp
  moreover have "rsva11001_connection_getLatestImage 32754 c2 = Inr (if ds = [] then (True, 0, []) else (True, length (last ds), last ds))"
  proof (cases "ds = []")
    case True
    then show ?thesis using getLatestImage_spec[of c2 32754] r(3,5) a(2) by (simp add: connection_ok_def)
  next
    case False
    then have "last ds \<in> set imgs" using r(1) by simp
    then have "length (last ds) \<le> 32754" using assms(10) by (auto simp: frame_sized_def)
    then show ?thesis using getLatestImage_spec[of c2 32754] r(3,5) False by (simp add: connection_ok_def)
  qed
  ultimately show ?thesis using c1(1) r(1-3) by blast
qed

text \<open>The head of the response that the concrete cases use, and the answers of a concrete socket.\<close>

lemma plain_head: "header_parse s plain_response (http_parser_init q HTTP_RESPONSE) = Some (plain_parser q)"
  by (simp add: plain_response_def header_byte_def run_simps plain_parser_def ULLONG_MAX_def)

definition demo_sends :: "(nat \<Rightarrow> int \<times> int) list" where
  "demo_sends = replicate 512 (\<lambda>n. (int n, 0))"

lemma demo_sends_well: "sends_well demo_sends"
  by (simp add: sends_well_def demo_sends_def sends_ok_def outputBufferSize_def)

definition demo_call :: "bytes list \<Rightarrow> process_env" where
  "demo_call datas = (demo_env (map Received datas @ [Recv_error EAGAIN]))\<lparr>env_send := demo_sends\<rparr>"

lemma demo_call_delivers:
  "\<forall>d\<in>set datas. d \<noteq> [] \<and> length d \<le> 16383 \<Longrightarrow> delivers (demo_call datas) datas"
  by (simp add: delivers_def ready_def demo_call_def demo_env_def demo_sends_well)

definition demo_pieces :: "bytes list list" where
  "demo_pieces = [[take 10 plain_response], [drop 10 plain_response @ ''JPG'', drop 3 (encode_frame demo_image)]]"

lemma demo_pieces_ok: "list_all2 delivers (map demo_call demo_pieces) demo_pieces"
proof -
  have "length (drop 3 (encode_frame demo_image)) = 16380" using length_encode_frame[of demo_image] demo_image by simp
  moreover from this have "drop 3 (encode_frame demo_image) \<noteq> []" by (metis list.size(3) zero_neq_numeral)
  ultimately show ?thesis
    by (auto simp: demo_pieces_def plain_response_def intro!: demo_call_delivers)
qed

lemma demo_pieces_stream: "concat (concat demo_pieces) @ [] = plain_response @ frames [demo_image]"
proof -
  have "''JPG'' = take 3 (encode_frame demo_image)" by (simp add: encode_frame_def HEADER_def)
  then have "''JPG'' @ drop 3 (encode_frame demo_image) = encode_frame demo_image" by (simp only: append_take_drop_id)
  moreover have "take 10 plain_response @ drop 10 plain_response = plain_response" by (rule append_take_drop_id)
  ultimately show ?thesis by (simp add: demo_pieces_def)
qed

lemma session_delivers_images_witness:
  "\<exists>c1 c2. rsva11001_connection_open demo_platform demo_open_env demo_closed = Inr (True, c1) \<and>
    process_calls demo_platform (map demo_call demo_pieces) c1 = Inr (Some (True, c2)) \<and>
    rsva11001_connection_getLatestImage 32754 c2 = Inr (True, 16371, demo_image)"
proof -
  have d: "hp_data (parser demo_closed) \<noteq> None"
    by (simp add: demo_closed_def demo_malloc_def rsva11001_connection_malloc_def)
  have e: "hp_state (plain_parser (parser demo_closed)) = s_body_identity_eof" by (simp add: plain_parser_def)
  have f: "\<forall>img\<in>set [demo_image]. frame_sized img" "length (file_name demo_platform) \<le> 229"
    using demo_image by (simp_all add: demo_platform_def)
  from session_delivers_images[OF demo_closed_simps(1-4) f(2) d plain_head e demo_pieces_ok f(1) demo_pieces_stream]
  obtain c1 c2 ds where
    c: "rsva11001_connection_open demo_platform demo_open_env demo_closed = Inr (True, c1)"
      "process_calls demo_platform (map demo_call demo_pieces) c1 = Inr (Some (True, c2))" "[demo_image] = ds"
      "rsva11001_connection_getLatestImage 32754 c2 = Inr (if ds = [] then (True, 0, []) else (True, length (last ds), last ds))"
    by auto
  from c(3) have "ds = [demo_image]" by simp
  then have "rsva11001_connection_getLatestImage 32754 c2 = Inr (True, 16371, demo_image)" using c(4) demo_image(1) by simp
  with c(1,2) show ?thesis by blast
qed

section \<open>From a camera to a client\<close>

text \<open>
  When the head and the first frame have arrived, an image has been read.
\<close>

lemma first_frame_read:
  assumes "expects head' c'" "pending c' @ rest = head' @ frames (img # imgs)" "frame_sized img"
    and "received @ rest = head @ frames (img # imgs)" "length (head @ encode_frame img) \<le> length received"
  shows False
proof (cases "head' = []")
  case True
  have "length received + length rest = length head + length (frames (img # imgs))"
    using arg_cong[OF assms(4), of length] by simp
  moreover have "length (pending c') + length rest = length (frames (img # imgs))"
    using arg_cong[OF assms(2), of length] True by simp
  ultimately have "length (encode_frame img) \<le> length (pending c')" using assms(5) by simp
  moreover have "take (length (encode_frame img)) (pending c' @ rest) = encode_frame img" using assms(2) True by simp
  ultimately have "take (length (encode_frame img)) (pending c') = encode_frame img" by simp
  then obtain x where x: "pending c' = encode_frame img @ x" by (metis append_take_drop_id)
  have "complete_frame (pending c')"
    unfolding x using assms(3) by (simp add: complete_frame_def announced_encode length_encode_frame frame_sized_def)
  with assms(1) True show False by (simp add: expects_def streaming_def)
next
  case False
  then have "rest = head' @ frames (img # imgs)" using assms(1,2) by (simp add: expects_def awaiting_def)
  then have "length (frames (img # imgs)) \<le> length rest" by simp
  moreover have "length received + length rest = length head + length (frames (img # imgs))"
    using arg_cong[OF assms(4), of length] by simp
  ultimately have "length received \<le> length head" by linarith
  moreover have "length head + length (encode_frame img) \<le> length received" using assms(5) by simp
  ultimately show False using length_encode_frame[of img] by linarith
qed

text \<open>
  C36. From the camera to the client. Camera \<^theory_text>\<open>i\<close> of an adapter in order is connected and still
  expects the rest of the head and a stream of images of at most 30000 bytes. One call of
  \<^verbatim>\<open>processActiveCamera\<close> receives bytes of it, cut anywhere, with the first frame complete. It gives
  0 and takes the last image that is complete. It is stored, in the slot and in its file, under the
  number of the next camera, \<^theory_text>\<open>(i + 1) mod numCameras\<close> (the fault of C15), so that it is a request for
  that source, not for \<^theory_text>\<open>i\<close>, that is answered with it, whole and with its length.
\<close>

theorem stream_reaches_client:
  assumes "adapter_ok g" "activeCamera g = Some i" "conns g ! i = Some c" "expects head c"
    and "delivers (ce_process env) datas" "fst (ce_close env) = 0" "files_ok (ce_file env)"
    and "\<forall>img\<in>set (img # imgs). frame_sized img \<and> length img \<le> 30000"
    and "pending c @ concat datas @ rest = head @ frames (img # imgs)"
    and "length (head @ encode_frame img) \<le> length (pending c @ concat datas)"
    and "sg_getHeader sg conn ''REQUEST_METHOD'' = Some ''GET''" "sg_getHeader sg conn ''PATH_INFO'' = Some ''/camera.jpg''"
    and "sg_getHeader sg conn ''QUERY_STRING'' = Some query" "sg_query_init sg query" "sg_writeResponse sg conn"
    and "sg_findFirst sg query ''source'' =
      (True, length (decimal ((i + 1) mod numCameras g)), decimal ((i + 1) mod numCameras g) @ NUL # junk)"
    and "sg_findFirst sg query ''wait'' = (True, 0, other)"
  shows "\<exists>ds later g1 g2. img # imgs = ds @ later \<and> ds \<noteq> [] \<and> processActiveCamera pf sg env g = Inr (Some (0, g1)) \<and>
    files g1 (image_name ((i + 1) mod numCameras g)) = Some (last ds) \<and> handleNewRequest sg conn g1 = Inr (True, g2) \<and>
    responses g2 = responses g1 @
      [Response conn (jpeg_headers (sg_getHeader sg conn ''HTTP_HOST'') (decimal (length (last ds)))) (last ds)]"
proof -
  have ok: "connection_ok c" using assms(1-3) by (auto simp: adapter_ok_def elim: cameras_okE)
  have sized: "\<forall>x\<in>set (img # imgs). frame_sized x" using assms(8) by blast
  obtain ds later c' head' where
    r: "img # imgs = ds @ later" "rsva11001_connection_process pf (ce_process env) c = Inr (Some (True, c'))" "connection_ok c'"
      "expects head' c'" "latest_image c' = (if ds = [] then latest_image c else Some (last ds))"
      "pending c' @ rest = head' @ frames later"
    by (rule process_delivers[OF ok assms(4,5) sized assms(9)])
  have ne: "ds \<noteq> []"
  proof
    assume "ds = []"
    then have "pending c' @ rest = head' @ frames (img # imgs)" using r(1,6) by simp
    from first_frame_read[OF r(4) this _ _ assms(10)] sized assms(9) show False by simp
  qed
  then have "last ds \<in> set (img # imgs)" using r(1) by simp
  then have "length (last ds) \<le> 30000" "frame_sized (last ds)" using assms(8) by blast+
  then have img: "latest_image c' = Some (last ds)" "last ds \<noteq> []" "length (last ds) \<le> 30000"
    using r(5) ne by (auto simp: frame_sized_def)
  note published = processActiveCamera_image[OF assms(1-3) r(2,3) img assms(6,7), of sg]
  let ?g1 = "after_image pf sg env i c' (last ds) g"
  let ?s = "(i + 1) mod numCameras g"
  have g1: "files ?g1 (image_name ?s) = Some (last ds)" "lastImage ?g1 ! ?s = Some (last ds)" "numCameras ?g1 = numCameras g"
    using after_image_facts[OF assms(1,2) r(3)] by simp_all
  have "\<exists>g2. handleNewRequest sg conn ?g1 = Inr (True, g2) \<and>
      responses g2 = responses ?g1 @
        [Response conn (jpeg_headers (sg_getHeader sg conn ''HTTP_HOST'') (decimal (length (last ds)))) (last ds)]"
    by (rule request_gets_image[where s = ?s]) (use assms(1,11-17) g1 img(3) in \<open>auto simp: adapter_ok_def cameras_ok_def MAX_NUM_CAMERAS_def\<close>)
  with published g1(1) r(1) ne show ?thesis by blast
qed


text \<open>The concrete case: the demo camera's whole stream arrives, in two pieces, at the adapter.\<close>

definition demo_stream_camera :: camera_env where
  "demo_stream_camera = \<lparr>ce_process = demo_call [take 16 (encode_frame demo_image), drop 16 (encode_frame demo_image)],
     ce_close = (0, 0), ce_file = demo_files\<rparr>"

lemma demo_pieces_16:
  "\<forall>d\<in>set [take 16 (encode_frame demo_image), drop 16 (encode_frame demo_image)]. d \<noteq> [] \<and> length d \<le> 16383"
proof -
  have "length (encode_frame demo_image) = 16383" using length_encode_frame[of demo_image] demo_image by simp
  then show ?thesis by (cases "encode_frame demo_image = []") auto
qed

lemma stream_reaches_client_witness:
  "\<exists>g1 g2. processActiveCamera demo_platform demo_sg demo_stream_camera demo_globals = Inr (Some (0, g1)) \<and>
    files g1 (image_name 1) = Some demo_image \<and> handleNewRequest demo_sg 3 g1 = Inr (True, g2) \<and>
    responses g2 = responses g1 @ [Response 3 (jpeg_headers None (decimal (length demo_image))) demo_image]"
proof -
  have e: "fst (ce_close demo_stream_camera) = 0" "files_ok (ce_file demo_stream_camera)"
    "delivers (ce_process demo_stream_camera) [take 16 (encode_frame demo_image), drop 16 (encode_frame demo_image)]"
    using demo_call_delivers[OF demo_pieces_16] by (simp_all add: demo_stream_camera_def demo_files_ok)
  have x: "expects [] demo_connection" by (simp add: expects_def demo_streaming)
  have s: "\<forall>img\<in>set [demo_image]. frame_sized img \<and> length img \<le> 30000" using demo_image by simp
  have t: "pending demo_connection @ concat [take 16 (encode_frame demo_image), drop 16 (encode_frame demo_image)] @ [] =
      [] @ frames [demo_image]"
    "length ([] @ encode_frame demo_image) \<le>
      length (pending demo_connection @ concat [take 16 (encode_frame demo_image), drop 16 (encode_frame demo_image)])"
    using demo_buffers(2) by simp_all
  have "\<exists>ds later g1 g2. [demo_image] = ds @ later \<and> ds \<noteq> [] \<and>
      processActiveCamera demo_platform demo_sg demo_stream_camera demo_globals = Inr (Some (0, g1)) \<and>
      files g1 (image_name ((0 + 1) mod numCameras demo_globals)) = Some (last ds) \<and> handleNewRequest demo_sg 3 g1 = Inr (True, g2) \<and>
      responses g2 = responses g1 @
        [Response 3 (jpeg_headers (sg_getHeader demo_sg 3 ''HTTP_HOST'') (decimal (length (last ds)))) (last ds)]"
    by (rule stream_reaches_client[OF demo_globals_ok demo_globals_simps(1,4) x e(3,1,2) s t,
          where query = "''source=1''" and junk = "[]" and other = "[NUL]"])
      (simp_all add: demo_sg_def decimal_1)
  then show ?thesis by (auto simp: demo_sg_def Cons_eq_append_conv)
qed

end
