(* ===== verification/Adapter_Program.thy ===== *)
theory Adapter_Program
  imports Adapter_Properties
begin

text \<open>
  Properties of the program as a whole: safety of every run, the turn of the cameras, the set-up,
  the clean-up, and the configuration's edge cases.
\<close>

section \<open>Runs\<close>

definition demo_getenv :: "string \<Rightarrow> string option" where
  "demo_getenv k = (if k = ''RSVA11001_HOST'' then Some ''camera'' else if k = ''RSVA11001_PASSWORD'' then Some ''secret''
     else if k = ''RSVA11001_USERNAME'' then Some ''admin'' else if k = ''RSVA11001_NUM_CAMERAS'' then Some ''2'' else None)"







text \<open>
  C20. The reactor's invariant. A batch of events, of which at most one is the camera's, leaves an
  adapter in order in order: at most one camera is connected, every other one is closed and can be
  opened again, and the waiting requests fill the beginnings of their arrays.
\<close>

theorem events_keep_adapter:
  assumes "adapter_ok g" "batch_ok es" "activeCamera g \<noteq> None"
  shows "case handle_events pf sg es shutdown g of
     Inl f \<Rightarrow> fault_site f = In_connection_recv \<or> f = Out_of_bounds In_pending_requests \<or>
       f = Out_of_bounds In_query_buffer \<and> \<not> query_terminated sg
   | Inr None \<Rightarrow> True
   | Inr (Some (shutdown', g')) \<Rightarrow> adapter_ok g'"
  using handle_events_ok[OF assms(1,2), of sg pf shutdown] assms(3)
  by (auto simp: step_ok_def adapter_fault_def split: sum.splits option.splits)

lemma events_keep_adapter_witness:
  "case handle_events demo_platform demo_sg
      [Camera_event \<lparr>ev_error = False, ev_camera = demo_camera demo_answers, ev_close = (0, 0)\<rparr>,
       Scgi_event \<lparr>first_process = True, new_connections = [3], second_process = True\<rparr>] False demo_globals of
     Inl f \<Rightarrow> fault_site f = In_connection_recv \<or> f = Out_of_bounds In_pending_requests \<or>
       f = Out_of_bounds In_query_buffer \<and> \<not> query_terminated demo_sg
   | Inr None \<Rightarrow> True
   | Inr (Some (shutdown', g')) \<Rightarrow> adapter_ok g'"
  by (rule events_keep_adapter)
    (simp_all add: demo_globals_ok batch_ok_def is_camera_def demo_camera_def demo_env_def sends_ok_def)

text \<open>
  C21. The turn of the cameras. When a camera is to be opened, it is the one the iterator names,
  and the iterator moves to the next one, after the last to the first.
\<close>

theorem cameras_take_turns:
  assumes "adapter_ok g" "openNextCameraConnection pf env added g = Inr (True, g')"
  shows "activeCamera g' = Some (cameraIterator g) \<and> cameraIterator g' = (cameraIterator g + 1) mod numCameras g"
proof -
  have i: "cameraIterator g < numCameras g" using assms(1) by (simp add: adapter_ok_def cameras_ok_def)
  then have "(if numCameras g \<le> cameraIterator g + 1 then 0 else cameraIterator g + 1) = (cameraIterator g + 1) mod numCameras g"
    by (cases "numCameras g = cameraIterator g + 1") auto
  with assms(2) show ?thesis
    by (auto simp: openNextCameraConnection_def Let_def rbind_Inr_iff split: if_splits option.splits)
qed

definition demo_idle :: globals where
  "demo_idle = demo_globals\<lparr>conns := [Some demo_closed, Some demo_closed, None, None, None, None, None, None], activeCamera := None\<rparr>"

lemma demo_idle_ok: "adapter_ok demo_idle"
proof -
  have "cameras_ok demo_idle"
    by (auto simp: cameras_ok_def demo_idle_def MAX_NUM_CAMERAS_def demo_closed_reusable less_Suc_eq numeral_2_eq_2)
  then show ?thesis using demo_globals_ok by (simp add: adapter_ok_def demo_idle_def)
qed

lemma cameras_take_turns_witness:
  "\<exists>g'. openNextCameraConnection demo_platform demo_open_env 0 demo_idle = Inr (True, g') \<and>
     activeCamera g' = Some 1 \<and> cameraIterator g' = 0"
proof -
  have c: "conns demo_idle ! 1 = Some demo_closed" "cameraIterator demo_idle = 1" "numCameras demo_idle = 2"
    by (simp_all add: demo_idle_def)
  have "length (file_name demo_platform) \<le> 229" by (simp add: demo_platform_def)
  from open_ok[OF demo_closed_simps(1-4) this] obtain c' where
    "rsva11001_connection_open demo_platform demo_open_env demo_closed = Inr (True, c')" by metis
  then have "\<exists>g'. openNextCameraConnection demo_platform demo_open_env 0 demo_idle = Inr (True, g')"
    using c by (simp add: openNextCameraConnection_def Let_def MAX_NUM_CAMERAS_def)
  then show ?thesis using cameras_take_turns[OF demo_idle_ok] c by fastforce
qed

section \<open>Set-up and clean-up\<close>

lemma configure_result:
  "rsva11001_connection_configure h u pw n c = (True, c') \<Longrightarrow> hostname c' = h \<and> channel c' = n \<and> sockfd c' = - 1"
  by (auto simp: rsva11001_connection_configure_def split: if_splits)

lemma setup_loop_channels:
  "setup_loop mems is' g = (True, g') \<Longrightarrow> \<forall>i\<in>set is'. i < length (conns g) \<Longrightarrow> distinct is' \<Longrightarrow>
   length (conns g') = length (conns g) \<and> g_host g' = g_host g \<and> (\<forall>i. i \<notin> set is' \<longrightarrow> conns g' ! i = conns g ! i) \<and>
   (\<forall>i\<in>set is'. \<exists>c. conns g' ! i = Some c \<and> hostname c = g_host g \<and> channel c = of_nat (i + 1) \<and> sockfd c = - 1)"
proof (induction is' arbitrary: g)
  case Nil
  then show ?case by simp
next
  case (Cons i is')
  then obtain c ok c' where c: "rsva11001_connection_malloc (mems i) = Some c"
    "rsva11001_connection_configure (g_host g) (g_username g) (g_password g) (of_nat (i + 1)) c = (ok, c')"
    "ok" "setup_loop mems is' (g\<lparr>conns := (conns g)[i := Some c']\<rparr>) = (True, g')"
    by (auto split: option.splits prod.splits if_splits)
  have r: "hostname c' = g_host g \<and> channel c' = of_nat (i + 1) \<and> sockfd c' = - 1" using configure_result c(2,3) by simp
  have "\<forall>j\<in>set is'. j < length (conns (g\<lparr>conns := (conns g)[i := Some c']\<rparr>))" using Cons.prems(2) by simp
  from Cons.IH[OF c(4) this] Cons.prems(2,3) r show ?case by (auto simp: nth_list_update)
qed

text \<open>
  C22. After a successful set-up every one of the cameras is allocated, closed, and configured for
  the host of the environment and for the channel one above its index.
\<close>

theorem setup_configures_channels:
  assumes "setupCameraConnections mems g = (True, g')" "numCameras g \<le> 8"
  shows "\<forall>i<numCameras g. \<exists>c. conns g' ! i = Some c \<and> hostname c = g_host g \<and> channel c = of_nat (i + 1) \<and> sockfd c = - 1"
  using setup_loop_channels[of mems "[0 ..< numCameras g]" "g\<lparr>conns := replicate MAX_NUM_CAMERAS None, cameraIterator := 0\<rparr>" g'] assms
  by (simp add: setupCameraConnections_def MAX_NUM_CAMERAS_def)

lemma setup_configures_channels_witness:
  "\<exists>g'. setupCameraConnections (\<lambda>i. Some (64, demo_connection)) (demo_globals\<lparr>g_host := ''camera'', numCameras := 1\<rparr>) = (True, g') \<and>
    (\<forall>i<numCameras (demo_globals\<lparr>g_host := ''camera'', numCameras := 1\<rparr>). \<exists>c. conns g' ! i = Some c \<and>
       hostname c = g_host (demo_globals\<lparr>g_host := ''camera'', numCameras := 1\<rparr>) \<and> channel c = of_nat (i + 1) \<and> sockfd c = - 1)"
proof -
  let ?g = "demo_globals\<lparr>g_host := ''camera'', numCameras := 1\<rparr>"
  have "g_username ?g = []" "g_password ?g = []" by (simp_all add: demo_globals_def zeroed_globals_def)
  then have "fst (setupCameraConnections (\<lambda>i. Some (64, demo_connection)) ?g)"
    by (simp add: setupCameraConnections_def rsva11001_connection_malloc_def rsva11001_connection_configure_def
        MAX_CHAN_def MIN_CHAN_def)
  then obtain g' where s: "setupCameraConnections (\<lambda>i. Some (64, demo_connection)) ?g = (True, g')"
    by (cases "setupCameraConnections (\<lambda>i. Some (64, demo_connection)) ?g") simp
  have "numCameras ?g \<le> 8" by simp
  from setup_configures_channels[OF s this] s show ?thesis by blast
qed

text \<open>
  C23. The clean-up releases every camera exactly once, in order: an open socket is closed (when
  \<^verbatim>\<open>close\<close> succeeds it is not closed again by \<^verbatim>\<open>destroy\<close>), then the three buffers and the
  connection are freed; no pointer is left.
\<close>

theorem cleanup_releases_cameras:
  assumes "cameras_present g" "\<forall>i. fst (answers i) = 0"
  shows "cleanupCameraConnections pf answers g = Inr
    (concat (map (\<lambda>c. [Free (outputBuffer c), Free (pingReceiveBuffer c), Free (pongReceiveBuffer c), Free_connection])
      (map the (take (numCameras g) (conns g)))),
     g\<lparr>conns := replicate (numCameras g) None @ drop (numCameras g) (conns g)\<rparr>)"
proof -
  have len: "length (conns g) = 8" "numCameras g \<le> length (conns g)"
    using assms(1) by (auto simp: cameras_present_def MAX_NUM_CAMERAS_def)
  have rel: "released pf (answers i) c = [Free (outputBuffer c), Free (pingReceiveBuffer c), Free (pongReceiveBuffer c), Free_connection]"
    for i c using assms(2) by (simp add: released_def rsva11001_connection_close_def rsva11001_connection_destroy_def Let_def)
  have clr: "cleared [0 ..< k] xs = replicate k None @ drop k xs" if "k \<le> length xs" for k and xs :: "rsva11001_connection option list"
    using that
  proof (induction k)
    case 0
    then show ?case by (simp add: cleared_def)
  next
    case (Suc k)
    then have "cleared [0 ..< Suc k] xs = (replicate k None @ drop k xs)[k := None]"
      by (simp add: cleared_def)
    also have "\<dots> = replicate (Suc k) None @ drop (Suc k) xs"
    proof -
      have "drop k xs = xs ! k # drop (Suc k) xs" using Cons_nth_drop_Suc[of k xs] Suc.prems by simp
      then show ?thesis by (simp add: list_update_append replicate_app_Cons_same)
    qed
    finally show ?case .
  qed
  have idx: "map (\<lambda>i. the (conns g ! i)) [0 ..< numCameras g] = map the (take (numCameras g) (conns g))"
    using len(2) by (intro nth_equalityI) simp_all
  have "map (\<lambda>i. released pf (answers i) (the (conns g ! i))) [0 ..< numCameras g] =
    map (\<lambda>c. [Free (outputBuffer c), Free (pingReceiveBuffer c), Free (pongReceiveBuffer c), Free_connection])
      (map the (take (numCameras g) (conns g)))"
    unfolding idx[symmetric] rel by simp
  then show ?thesis using cleanup_ok[OF assms(1), of pf answers] clr[OF len(2)] by simp
qed

lemma cleanup_releases_cameras_witness:
  "\<exists>rel. cleanupCameraConnections demo_platform (\<lambda>i. (0, 0)) demo_globals = Inr
    (rel, demo_globals\<lparr>conns := replicate 8 None\<rparr>) \<and> length rel = 8"
proof -
  have "cameras_present demo_globals" using demo_globals_ok adapter_ok_present by blast
  from cleanup_releases_cameras[OF this, of "\<lambda>i. (0, 0)" demo_platform] show ?thesis
    by (simp add: demo_globals_def zeroed_globals_def numeral_eq_Suc)
qed

section \<open>Configuration\<close>



text \<open>
  C25. With 0 cameras the first turn of the reactor fails the assertion on the camera's pointer.
\<close>

theorem zero_cameras_abort:
  assumes "setupCameraConnections mems g = (ok, g')" "numCameras g = 0" "activeCamera g = None"
  shows "ok \<and> reactor pf sg (t # turns) False False g' = Inl (Assert_failed In_adapter)"
  using assms
  by (subst reactor.simps) (auto simp: setupCameraConnections_def openNextCameraConnection_def MAX_NUM_CAMERAS_def)

lemma zero_cameras_abort_witness:
  "\<exists>ok g'. setupCameraConnections (\<lambda>i. None) (zeroed_globals (\<lambda>f. None)) = (ok, g') \<and>
     ok \<and> reactor demo_platform demo_sg [Turn demo_open_env 0 (Events [])] False False g' = Inl (Assert_failed In_adapter)"
proof -
  obtain ok g' where s: "setupCameraConnections (\<lambda>i. None) (zeroed_globals (\<lambda>f. None)) = (ok, g')" by fastforce
  have "numCameras (zeroed_globals (\<lambda>f. None)) = 0" "activeCamera (zeroed_globals (\<lambda>f. None)) = None"
    by (simp_all add: zeroed_globals_def)
  from zero_cameras_abort[OF s this] s show ?thesis by blast
qed

text \<open>
  C26. The test for \<^verbatim>\<open>RSVA11001_USERNAME\<close> tests the host a second time: without the variable
  \<^verbatim>\<open>readConfiguration\<close> copies from the null pointer.
\<close>

theorem missing_username_reads_null:
  assumes "getenv ''RSVA11001_HOST'' = Some h" "length h < 256" "getenv ''RSVA11001_PASSWORD'' = Some pw" "length pw < 64"
    and "getenv ''RSVA11001_NUM_CAMERAS'' = Some n" "getenv ''RSVA11001_USERNAME'' = None"
  shows "readConfiguration getenv g = Inl (Null_pointer In_adapter)"
  using assms by (simp add: readConfiguration_def strcpy_checked_def)

lemma missing_username_reads_null_witness:
  "readConfiguration (demo_getenv(''RSVA11001_USERNAME'' := None)) demo_globals = Inl (Null_pointer In_adapter)"
  by (rule missing_username_reads_null[where h = "''camera''" and pw = "''secret''" and n = "''2''"]) (simp_all add: demo_getenv_def)

end
