(* ===== verification/Adapter_Liveness.thy ===== *)
theory Adapter_Liveness
  imports Adapter_Program Rsva_Calls
begin

text \<open>
  When the program ends. A call on a camera returns once its socket has no more data; a signal
  ends the reactor at the latest with the next batch of events that is not full.
\<close>

section \<open>Events\<close>







text \<open>A signal in a batch is remembered.\<close>

lemma handle_event_shutdown: "handle_event pf sg e True g = Inr (Some (s, g')) \<Longrightarrow> s"
proof -
  have d: "drop_camera pf a True g = Inr (s, g') \<Longrightarrow> s" for a g
    by (auto simp: drop_camera_def Let_def split: option.splits prod.splits if_splits)
  have r: "handle_requests sg cs True g = Inr (s, g') \<Longrightarrow> s" for cs g
    by (induction cs arbitrary: g) (auto simp: rbind_Inr_iff split: prod.splits if_splits)
  show "handle_event pf sg e True g = Inr (Some (s, g')) \<Longrightarrow> s"
    by (cases e) (auto simp: handle_camera_def handle_scgi_def rbind_Inr_iff dest: d r split: if_splits option.splits)
qed

lemma handle_events_signal:
  "handle_events pf sg es shutdown g = Inr (Some (s, g')) \<Longrightarrow> shutdown \<or> Signal_event \<in> set es \<Longrightarrow> s"
proof (induction es arbitrary: shutdown g)
  case Nil
  then show ?case by simp
next
  case (Cons e es)
  from Cons.prems(1) obtain s1 g1 where 1: "handle_event pf sg e shutdown g = Inr (Some (s1, g1))"
    "handle_events pf sg es s1 g1 = Inr (Some (s, g'))" by (auto simp: rbind_Inr_iff split: option.splits)
  have "s1 \<or> Signal_event \<in> set es"
    using Cons.prems(2) handle_event_shutdown[of pf sg e g s1 g1] 1(1) by (cases shutdown; cases e) auto
  with Cons.IH[OF 1(2)] show ?case by blast
qed

section \<open>The reactor\<close>








section \<open>The descriptors\<close>

text \<open>Nothing after the set-up changes the two descriptors or the number of cameras.\<close>

definition fds :: "globals \<Rightarrow> int \<times> int \<times> nat" where "fds g = (signalFd g, epollFd g, numCameras g)"

lemma fds_simps [simp]:
  "fds (g\<lparr>conns := a\<rparr>) = fds g" "fds (g\<lparr>activeCamera := b\<rparr>) = fds g" "fds (g\<lparr>cameraIterator := n\<rparr>) = fds g"
  "fds (g\<lparr>lastImage := l\<rparr>) = fds g" "fds (g\<lparr>pendingRequests := p\<rparr>) = fds g" "fds (respond r g) = fds g"
  "fds (set_file name f g) = fds g"
  by (simp_all add: fds_def respond_def set_file_def)

lemma fds_sendJpeg [simp]: "fds (snd (sendJpeg sg conn data g)) = fds g"
  by (simp add: sendJpeg_def Let_def)














section \<open>The program\<close>






section \<open>Properties\<close>

text \<open>
  C37. Termination of \<^verbatim>\<open>process\<close>. When the socket answers every byte of the request that is left (each
  \<^verbatim>\<open>send\<close> takes at least one, or fails), the call returns as soon as \<^verbatim>\<open>recv\<close> has no more data, the
  connection in order, or it runs into a fault of the reassembly. And it does not return before: as
  long as a connected camera whose request is sent goes on sending, the call receives.
\<close>

theorem process_returns:
  assumes "connection_ok c" "sends_ok (env_send env)" "outputLength c - bytesWritten c \<le> length (env_send env)"
  shows "((\<exists>a\<in>set (env_recv env). \<not> is_data a) \<longrightarrow>
      (\<exists>b c'. rsva11001_connection_process pf env c = Inr (Some (b, c')) \<and> connection_ok c') \<or>
      (\<exists>f. rsva11001_connection_process pf env c = Inl f \<and> fault_site f = In_connection_recv)) \<and>
    (connected c \<and> bytesWritten c = outputLength c \<and> (\<forall>a\<in>set (env_recv env). is_data a) \<longrightarrow>
      (\<nexists>r. rsva11001_connection_process pf env c = Inr (Some r)))"
proof (intro conjI impI)
  assume "\<exists>a\<in>set (env_recv env). \<not> is_data a"
  from process_ends[OF assms this, of pf] process_ok[OF assms(1,2), of pf] show
    "(\<exists>b c'. rsva11001_connection_process pf env c = Inr (Some (b, c')) \<and> connection_ok c') \<or>
     (\<exists>f. rsva11001_connection_process pf env c = Inl f \<and> fault_site f = In_connection_recv)"
    by (cases "rsva11001_connection_process pf env c") (auto simp: outcome_ok_def split: option.splits)
next
  assume "connected c \<and> bytesWritten c = outputLength c \<and> (\<forall>a\<in>set (env_recv env). is_data a)"
  then show "\<nexists>r. rsva11001_connection_process pf env c = Inr (Some r)"
    using assms(1) process_sent[of c pf env] recv_loop_data[of "env_recv env" pf c] by (auto simp: connection_ok_def)
qed

lemma process_returns_witness:
  "((\<exists>b c'. rsva11001_connection_process demo_platform (demo_env [Received ''x'', Recv_error EAGAIN]) demo_connection =
        Inr (Some (b, c')) \<and> connection_ok c') \<or>
      (\<exists>f. rsva11001_connection_process demo_platform (demo_env [Received ''x'', Recv_error EAGAIN]) demo_connection = Inl f \<and>
        fault_site f = In_connection_recv)) \<and>
    (\<nexists>r. rsva11001_connection_process demo_platform (demo_env [Received ''x'']) demo_connection = Inr (Some r))"
proof -
  have s: "sends_ok (env_send (demo_env as))" "outputLength demo_connection - bytesWritten demo_connection \<le> length (env_send (demo_env as))"
    for as
    by (simp_all add: demo_env_def sends_ok_def demo_fields)
  have "\<exists>a\<in>set (env_recv (demo_env [Received ''x'', Recv_error EAGAIN])). \<not> is_data a"
    and "\<forall>a\<in>set (env_recv (demo_env [Received ''x''])). is_data a"
    by (simp_all add: demo_env_def is_data_def)
  then show ?thesis
    using process_returns[OF demo_ok s, of "[Received ''x'', Recv_error EAGAIN]" demo_platform]
      process_returns[OF demo_ok s, of "[Received ''x'']" demo_platform]
    by (simp add: demo_fields)
qed



text \<open>
  A full batch with a signal, after which the camera is still active, does not end the reactor: it
  waits for events again.
\<close>

lemma full_batch_delays_shutdown:
  assumes "activeCamera g \<noteq> None" "length es = MAX_EVENTS" "Signal_event \<in> set es"
    and "handle_events pf sg es False g = Inr (Some (s, g'))" "activeCamera g' \<noteq> None"
  shows "s \<and> reactor pf sg [Turn oenv added (Events es)] False False g = Inr None"
proof
  show "s" using handle_events_signal[OF assms(4)] assms(3) by blast
  have "reactor pf sg [] True s g' = Inr None" by (subst reactor.simps) simp
  then show "reactor pf sg [Turn oenv added (Events es)] False False g = Inr None"
    using assms by (subst reactor.simps) simp
qed

end
