(* ===== verification/Log.thy ===== *)
theory Log
  imports C_Strings
begin

text \<open>
  The log of \<^verbatim>\<open>log.h\<close>: its levels, the beginning of a line, and the three macros. What a macro
  does is the list of \<^verbatim>\<open>dprintf\<close> calls it makes, each the descriptor and the text; the code looks
  at no result of them. \<^verbatim>\<open>__FILE__\<close>, \<^verbatim>\<open>__LINE__\<close>, \<^verbatim>\<open>__func__\<close> and \<^verbatim>\<open>strerror_r\<close> are arguments.
\<close>

section \<open>Levels\<close>

datatype rsva11001adapter_logLevel =
    RSVA11001ADAPTER_FATAL
  | RSVA11001ADAPTER_ERROR
  | RSVA11001ADAPTER_WARN
  | RSVA11001ADAPTER_INFO
  | RSVA11001ADAPTER_DEBUG
  | RSVA11001ADAPTER_TRACE

text \<open>The numbers C gives the constants, by which levels compare.\<close>

fun level_num :: "rsva11001adapter_logLevel \<Rightarrow> nat" where
  "level_num RSVA11001ADAPTER_FATAL = 0"
| "level_num RSVA11001ADAPTER_ERROR = 1"
| "level_num RSVA11001ADAPTER_WARN = 2"
| "level_num RSVA11001ADAPTER_INFO = 3"
| "level_num RSVA11001ADAPTER_DEBUG = 4"
| "level_num RSVA11001ADAPTER_TRACE = 5"

lemma level_num_inject [simp]: "level_num a = level_num b \<longleftrightarrow> a = b"
  by (cases a; cases b) simp_all

instantiation rsva11001adapter_logLevel :: linorder
begin

definition less_eq_rsva11001adapter_logLevel :: "rsva11001adapter_logLevel \<Rightarrow> rsva11001adapter_logLevel \<Rightarrow> bool" where
  "a \<le> b \<longleftrightarrow> level_num a \<le> level_num b"

definition less_rsva11001adapter_logLevel :: "rsva11001adapter_logLevel \<Rightarrow> rsva11001adapter_logLevel \<Rightarrow> bool" where
  "a < b \<longleftrightarrow> level_num a < level_num b"

instance
  by standard (auto simp: less_eq_rsva11001adapter_logLevel_def less_rsva11001adapter_logLevel_def)

end

record rsva11001adapter_logger =
  logFd :: int
  logLevel :: rsva11001adapter_logLevel

text \<open>The default branch, \<^verbatim>\<open>???\<close>, is for values that are no constant of the enumeration.\<close>

fun rsva11001adapter_logLevel_toString :: "rsva11001adapter_logLevel \<Rightarrow> string" where
  "rsva11001adapter_logLevel_toString RSVA11001ADAPTER_FATAL = ''FATAL''"
| "rsva11001adapter_logLevel_toString RSVA11001ADAPTER_ERROR = ''ERROR''"
| "rsva11001adapter_logLevel_toString RSVA11001ADAPTER_WARN = ''WARN''"
| "rsva11001adapter_logLevel_toString RSVA11001ADAPTER_INFO = ''INFO''"
| "rsva11001adapter_logLevel_toString RSVA11001ADAPTER_DEBUG = ''DEBUG''"
| "rsva11001adapter_logLevel_toString RSVA11001ADAPTER_TRACE = ''TRACE''"

section \<open>Formatted output\<close>

text \<open>
  The arguments of \<^verbatim>\<open>dprintf\<close> and the directives the program uses: \<^verbatim>\<open>%s\<close>, \<^verbatim>\<open>%i\<close>, \<^verbatim>\<open>%u\<close> and
  \<^verbatim>\<open>%lu\<close> (\<^verbatim>\<open>PRIuFAST32\<close>). A null pointer for \<^verbatim>\<open>%s\<close> is a fault, and so is an argument that is
  missing or of another kind.
\<close>

datatype argument = Arg_s "string option" | Arg_i int | Arg_u nat | Arg_lu nat

definition signed_decimal :: "int \<Rightarrow> string" where
  "signed_decimal k = (if k < 0 then ''-'' @ decimal (nat (- k)) else decimal (nat k))"

definition directive :: "string \<Rightarrow> argument \<Rightarrow> (string \<times> string) res" where
  "directive fmt a =
     (case a of
        Arg_s s \<Rightarrow>
          if take 1 fmt = ''s''
          then (case s of None \<Rightarrow> Inl (Null_pointer In_log) | Some t \<Rightarrow> Inr (t, drop 1 fmt))
          else Inl (Out_of_bounds In_log)
      | Arg_i k \<Rightarrow> if take 1 fmt = ''i'' then Inr (signed_decimal k, drop 1 fmt) else Inl (Out_of_bounds In_log)
      | Arg_u n \<Rightarrow> if take 1 fmt = ''u'' then Inr (decimal n, drop 1 fmt) else Inl (Out_of_bounds In_log)
      | Arg_lu n \<Rightarrow> if take 2 fmt = ''lu'' then Inr (decimal n, drop 2 fmt) else Inl (Out_of_bounds In_log))"

lemma directive_shorter: "directive fmt a = Inr (t, fmt') \<Longrightarrow> length fmt' < length fmt"
  by (cases fmt) (auto simp: directive_def split: argument.splits option.splits if_splits)

function (sequential) formatted :: "string \<Rightarrow> argument list \<Rightarrow> string res" where
  "formatted [] args = Inr []"
| "formatted (ch # fmt) args =
     (if ch \<noteq> CHR ''%'' then rbind (formatted fmt args) (\<lambda>t. Inr (ch # t))
      else
        (case args of
           [] \<Rightarrow> Inl (Out_of_bounds In_log)
         | a # others \<Rightarrow>
             (case directive fmt a of
                Inl f \<Rightarrow> Inl f
              | Inr (t, fmt') \<Rightarrow> rbind (formatted fmt' others) (\<lambda>t'. Inr (t @ t')))))"
  by pat_completeness auto
termination
  by (relation "measure (\<lambda>(fmt, args). length fmt)") (auto dest: directive_shorter)

text \<open>What has been written so far, and a call of \<^verbatim>\<open>dprintf\<close> more.\<close>

type_synonym written = "(int \<times> string) list"

definition dprintf :: "int \<Rightarrow> string \<Rightarrow> argument list \<Rightarrow> written \<Rightarrow> written res" where
  "dprintf fd fmt args out = rbind (formatted fmt args) (\<lambda>t. Inr (out @ [(fd, t)]))"

section \<open>The macros\<close>

text \<open>Where a macro stands.\<close>

record place =
  at_file :: string
  at_line :: nat
  at_func :: string

definition LF :: string where "LF = [CHR 0x0A]"

definition rsva11001adapter_beginLogLine :: "int \<Rightarrow> place \<Rightarrow> rsva11001adapter_logLevel \<Rightarrow> written \<Rightarrow> written res" where
  "rsva11001adapter_beginLogLine fd here ll out =
     dprintf fd ''%s:%i:%s - %s - ''
       [Arg_s (Some (at_file here)), Arg_i (int (at_line here)), Arg_s (Some (at_func here)),
        Arg_s (Some (rsva11001adapter_logLevel_toString ll))] out"

text \<open>\<^verbatim>\<open>_msg\<close> is a string; in the program it is a literal.\<close>

definition RSVA11001ADAPTER_LOG ::
  "rsva11001adapter_logger \<Rightarrow> place \<Rightarrow> rsva11001adapter_logLevel \<Rightarrow> string option \<Rightarrow> written \<Rightarrow> written res" where
  "RSVA11001ADAPTER_LOG this here ll msg out =
     (if logFd this \<noteq> - 1 \<and> logLevel this \<ge> ll
      then rbind (rsva11001adapter_beginLogLine (logFd this) here ll out) (dprintf (logFd this) (''%s'' @ LF) [Arg_s msg])
      else Inr out)"

definition RSVA11001ADAPTER_LOGFMT ::
  "rsva11001adapter_logger \<Rightarrow> place \<Rightarrow> rsva11001adapter_logLevel \<Rightarrow> string \<Rightarrow> argument list \<Rightarrow> written \<Rightarrow> written res" where
  "RSVA11001ADAPTER_LOGFMT this here ll fmt args out =
     (if logFd this \<noteq> - 1 \<and> logLevel this \<ge> ll
      then rbind (rsva11001adapter_beginLogLine (logFd this) here ll out) (dprintf (logFd this) (fmt @ LF) args)
      else Inr out)"

text \<open>\<^theory_text>\<open>str\<close> is what \<^verbatim>\<open>strerror_r\<close> returns for \<^verbatim>\<open>errno\<close>.\<close>

definition RSVA11001ADAPTER_LOGERRNO ::
  "rsva11001adapter_logger \<Rightarrow> place \<Rightarrow> string \<Rightarrow> string option \<Rightarrow> written \<Rightarrow> written res" where
  "RSVA11001ADAPTER_LOGERRNO this here cause str out =
     (if logFd this \<noteq> - 1 \<and> logLevel this \<ge> RSVA11001ADAPTER_ERROR
      then rbind (rsva11001adapter_beginLogLine (logFd this) here RSVA11001ADAPTER_ERROR out) (\<lambda>out.
           rbind (dprintf (logFd this) ''Caused by:%s;'' [Arg_s (Some cause)] out)
             (dprintf (logFd this) (''%s'' @ LF) [Arg_s str]))
      else Inr out)"

end
