(* ===== verification/Log_Properties.thy ===== *)
theory Log_Properties
  imports Log
begin

text \<open>
  What the log shows: the lines up to the logger's level, whole and in order.
\<close>

section \<open>Formatting\<close>

lemma directive_append_LF:
  "directive (fmt @ LF) a = (case directive fmt a of Inl f \<Rightarrow> Inl f | Inr (t, fmt') \<Rightarrow> Inr (t, fmt' @ LF))"
proof -
  consider "fmt = []" | x where "fmt = [x]" | x y r where "fmt = x # y # r" by (metis list.exhaust)
  then show ?thesis
    by cases (auto simp: directive_def LF_def split: argument.splits option.splits)
qed

lemma formatted_LF: "formatted (fmt @ LF) args = rbind (formatted fmt args) (\<lambda>t. Inr (t @ LF))"
proof (induction fmt args rule: formatted.induct)
  case (1 args)
  show ?case by (simp add: LF_def)
next
  case (2 ch fmt args)
  show ?case
  proof (cases "ch = CHR ''%''")
    case False
    with "2.IH"(1) show ?thesis by (cases "formatted fmt args") simp_all
  next
    case percent: True
    show ?thesis
    proof (cases args)
      case Nil
      with percent show ?thesis by simp
    next
      case (Cons a others)
      show ?thesis
      proof (cases "directive fmt a")
        case (Inl f)
        with percent Cons show ?thesis by (simp add: directive_append_LF)
      next
        case (Inr p)
        obtain t fmt' where p: "p = (t, fmt')" by (cases p)
        have d: "directive fmt a = Inr (t, fmt')" using Inr p by simp
        have IH: "formatted (fmt' @ LF) others = rbind (formatted fmt' others) (\<lambda>t. Inr (t @ LF))"
          by (rule "2.IH"(2)) (use percent Cons Inr p in auto)
        have "directive (fmt @ LF) a = Inr (t, fmt' @ LF)" using directive_append_LF[of fmt a] d by simp
        then show ?thesis
          using percent Cons d IH by (cases "formatted fmt' others") simp_all
      qed
    qed
  qed
qed

section \<open>Lines\<close>

text \<open>A use of one of the macros: what it says, its level, and the line it stands for.\<close>

datatype log_entry =
    Log_msg place rsva11001adapter_logLevel string
  | Log_fmt place rsva11001adapter_logLevel string "argument list"
  | Log_errno place string string

fun entry_level :: "log_entry \<Rightarrow> rsva11001adapter_logLevel" where
  "entry_level (Log_msg at ll msg) = ll"
| "entry_level (Log_fmt at ll fmt args) = ll"
| "entry_level (Log_errno at cause str) = RSVA11001ADAPTER_ERROR"

fun entry_place :: "log_entry \<Rightarrow> place" where
  "entry_place (Log_msg at ll msg) = at"
| "entry_place (Log_fmt at ll fmt args) = at"
| "entry_place (Log_errno at cause str) = at"

fun entry_text :: "log_entry \<Rightarrow> string res" where
  "entry_text (Log_msg at ll msg) = Inr msg"
| "entry_text (Log_fmt at ll fmt args) = formatted fmt args"
| "entry_text (Log_errno at cause str) = Inr (''Caused by:'' @ cause @ '';'' @ str)"

definition line_head :: "place \<Rightarrow> rsva11001adapter_logLevel \<Rightarrow> string" where
  "line_head here ll = at_file here @ '':'' @ decimal (at_line here) @ '':'' @ at_func here @ '' - '' @
     rsva11001adapter_logLevel_toString ll @ '' - ''"

definition entry_line :: "log_entry \<Rightarrow> string" where
  "entry_line e = line_head (entry_place e) (entry_level e) @ projr (entry_text e) @ LF"

fun write_entry :: "rsva11001adapter_logger \<Rightarrow> log_entry \<Rightarrow> written \<Rightarrow> written res" where
  "write_entry this (Log_msg at ll msg) out = RSVA11001ADAPTER_LOG this at ll (Some msg) out"
| "write_entry this (Log_fmt at ll fmt args) out = RSVA11001ADAPTER_LOGFMT this at ll fmt args out"
| "write_entry this (Log_errno at cause str) out = RSVA11001ADAPTER_LOGERRNO this at cause (Some str) out"

fun write_entries :: "rsva11001adapter_logger \<Rightarrow> log_entry list \<Rightarrow> written \<Rightarrow> written res" where
  "write_entries this [] out = Inr out"
| "write_entries this (e # es) out = rbind (write_entry this e out) (write_entries this es)"

definition shown :: "rsva11001adapter_logger \<Rightarrow> log_entry \<Rightarrow> bool" where
  "shown this e \<longleftrightarrow> logFd this \<noteq> - 1 \<and> entry_level e \<le> logLevel this"

lemma begin_line: "rsva11001adapter_beginLogLine fd here ll out = Inr (out @ [(fd, line_head here ll)])"
  by (simp add: rsva11001adapter_beginLogLine_def dprintf_def directive_def signed_decimal_def line_head_def)

lemma formatted_string_LF: "formatted (''%s'' @ LF) [Arg_s (Some t)] = Inr (t @ LF)"
  unfolding formatted_LF by (simp add: directive_def)

lemmas formatted_string = formatted_string_LF[simplified append.simps]

lemma write_entry_lines:
  assumes "entry_text e = Inr t"
  shows "\<exists>ws. write_entry this e out = Inr (out @ ws) \<and> (\<forall>w\<in>set ws. fst w = logFd this) \<and>
     concat (map snd ws) = (if shown this e then entry_line e else [])"
proof (cases "shown this e")
  case False
  then show ?thesis
    by (cases e) (auto simp: shown_def RSVA11001ADAPTER_LOG_def RSVA11001ADAPTER_LOGFMT_def RSVA11001ADAPTER_LOGERRNO_def)
next
  case True
  show ?thesis
  proof (cases e)
    case (Log_errno at cause str)
    have "formatted ''Caused by:%s;'' [Arg_s (Some cause)] = Inr (''Caused by:'' @ cause @ '';'')"
      by (simp add: directive_def)
    with True Log_errno show ?thesis
      by (simp add: shown_def RSVA11001ADAPTER_LOGERRNO_def begin_line dprintf_def formatted_string entry_line_def
          del: formatted.simps)
  qed (use True assms in \<open>simp_all add: shown_def RSVA11001ADAPTER_LOG_def RSVA11001ADAPTER_LOGFMT_def begin_line dprintf_def
        formatted_LF formatted_string entry_line_def del: formatted.simps\<close>)
qed

lemma write_entries_lines:
  "\<forall>e\<in>set es. \<exists>t. entry_text e = Inr t \<Longrightarrow>
   \<exists>ws. write_entries this es out = Inr (out @ ws) \<and> (\<forall>w\<in>set ws. fst w = logFd this) \<and>
     concat (map snd ws) = concat (map entry_line (filter (shown this) es))"
proof (induction es arbitrary: out)
  case Nil
  then show ?case by simp
next
  case (Cons e es)
  from Cons.prems obtain t where "entry_text e = Inr t" by auto
  from write_entry_lines[OF this, of this out] obtain ws where
    w: "write_entry this e out = Inr (out @ ws)" "\<forall>w\<in>set ws. fst w = logFd this"
      "concat (map snd ws) = (if shown this e then entry_line e else [])" by blast
  from Cons.IH[of "out @ ws"] Cons.prems obtain ws' where
    "write_entries this es (out @ ws) = Inr ((out @ ws) @ ws')" "\<forall>w\<in>set ws'. fst w = logFd this"
    "concat (map snd ws') = concat (map entry_line (filter (shown this) es))" by auto
  with w show ?case by (intro exI[of _ "ws @ ws'"]) auto
qed

text \<open>The argument of \<^verbatim>\<open>%s\<close> at main.c:454 is null where the request has no method: the macro has no text for it.\<close>

lemma unsupported_method_null:
  assumes "logFd this \<noteq> - 1" "RSVA11001ADAPTER_ERROR \<le> logLevel this"
  shows "RSVA11001ADAPTER_LOGFMT this here RSVA11001ADAPTER_ERROR ''Unsupported method:%s'' [Arg_s None] out = Inl (Null_pointer In_log)"
  using assms by (simp add: RSVA11001ADAPTER_LOGFMT_def begin_line dprintf_def directive_def)

section \<open>The log\<close>

text \<open>C39. Whatever uses of the three logging macros follow one another, where each has a text to
  show (its arguments fit its format, none is null), all is written to the logger's descriptor and
  together it is the lines of exactly the entries the logger's level lets through, in their order:
  each the place, the level and the text, and its end. With the descriptor -1 nothing is written.\<close>

theorem log_shows_lines:
  assumes "\<forall>e\<in>set es. \<exists>t. entry_text e = Inr t"
  shows "\<exists>ws. write_entries this es [] = Inr ws \<and> (\<forall>w\<in>set ws. fst w = logFd this) \<and>
     concat (map snd ws) = concat (map entry_line (filter (\<lambda>e. logFd this \<noteq> - 1 \<and> entry_level e \<le> logLevel this) es))"
  using write_entries_lines[OF assms, of this "[]"] by (simp add: shown_def[abs_def])

definition sample_place :: place where
  "sample_place = \<lparr>at_file = ''src/main.c'', at_line = 454, at_func = ''main''\<rparr>"

definition sample_entries :: "log_entry list" where
  "sample_entries =
     [Log_msg sample_place RSVA11001ADAPTER_DEBUG ''Opened connection to camera'',
      Log_fmt sample_place RSVA11001ADAPTER_ERROR ''Unsupported path :%s'' [Arg_s (Some ''/'')]]"

theorem log_shows_lines_witness:
  "\<exists>ws. write_entries \<lparr>logFd = 2, logLevel = RSVA11001ADAPTER_INFO\<rparr> sample_entries [] = Inr ws \<and>
     concat (map snd ws) = ''src/main.c:454:main - ERROR - Unsupported path :/'' @ LF"
proof -
  have e: "\<forall>e\<in>set sample_entries. \<exists>t. entry_text e = Inr t"
    by (simp add: sample_entries_def directive_def)
  have l: "concat (map entry_line (filter (\<lambda>e. logFd \<lparr>logFd = 2, logLevel = RSVA11001ADAPTER_INFO\<rparr> \<noteq> - 1 \<and>
      entry_level e \<le> logLevel \<lparr>logFd = 2, logLevel = RSVA11001ADAPTER_INFO\<rparr>) sample_entries)) =
    ''src/main.c:454:main - ERROR - Unsupported path :/'' @ LF"
    by (simp add: sample_entries_def sample_place_def entry_line_def line_head_def directive_def decimal.simps
        digit_literals less_eq_rsva11001adapter_logLevel_def)
  from log_shows_lines[OF e, of "\<lparr>logFd = 2, logLevel = RSVA11001ADAPTER_INFO\<rparr>"] show ?thesis
    unfolding l by blast
qed

end
