(* ===== verification/Rsva_Types.thy ===== *)
theory Rsva_Types
  imports Rsva_Stream Camera_Edge_Cases
begin

text \<open>
  The types of C. The connection's numbers are natural numbers of the model and its strings lists;
  here they are shown to stay within \<^verbatim>\<open>uint_fast32_t\<close> and within their arrays, so that the model's
  arithmetic is the code's.
\<close>

definition sized :: "nat \<Rightarrow> bytes option \<Rightarrow> bool" where
  "sized n b \<longleftrightarrow> (case b of None \<Rightarrow> True | Some x \<Rightarrow> length x = n)"

definition fields_typed :: "rsva11001_connection \<Rightarrow> bool" where
  "fields_typed c \<longleftrightarrow> length (lastError c) < 256 \<and> length (username c) < 64 \<and> length (password c) < 64 \<and>
     length (hostname c) < 64 \<and> outputLength c < 2 ^ 64 \<and> bytesWritten c < 2 ^ 64 \<and>
     pingReceiveBufferSize c < 2 ^ 64 \<and> pongReceiveBufferSize c < 2 ^ 64 \<and> activeReceiveBufferBytesReceived c < 2 ^ 64 \<and>
     channel c \<le> MAX_CHAN \<and> sized outputBufferSize (outputBuffer c) \<and>
     sized (pingReceiveBufferSize c) (pingReceiveBuffer c) \<and> sized (pongReceiveBufferSize c) (pongReceiveBuffer c)"

lemma sized_simps [simp]: "sized n (Some x) = (length x = n)" "sized n None"
  by (simp_all add: sized_def)

lemma usub_typed [simp]: "usub a b < 2 ^ 64" "usub a b < 18446744073709551616"
  by (simp_all add: usub_def)

lemma fields_typed_simps [simp]:
  "fields_typed (c\<lparr>parser := p\<rparr>) = fields_typed c" "fields_typed (c\<lparr>sockfd := s\<rparr>) = fields_typed c"
  "fields_typed (c\<lparr>connected := b\<rparr>) = fields_typed c" "fields_typed (c\<lparr>ping := b\<rparr>) = fields_typed c"
  "fields_typed (c\<lparr>activeReceiveBuffer := a\<rparr>) = fields_typed c" "fields_typed (c\<lparr>activeReceiveBufferSize := a\<rparr>) = fields_typed c"
  by (simp_all add: fields_typed_def)

lemma fields_typed_setLastError [simp]: "fields_typed c \<Longrightarrow> fields_typed (setLastError pf n f e c)"
  by (simp add: fields_typed_def setLastError_def)

section \<open>Receiving\<close>

lemma buffer_at_typed: "fields_typed c \<Longrightarrow> buffer_at s c = Some b \<Longrightarrow> length b = size_at s c"
  by (cases s) (auto simp: fields_typed_def)

lemma size_at_typed: "fields_typed c \<Longrightarrow> size_at s c < 2 ^ 64"
  by (cases s) (simp_all add: fields_typed_def)

lemma store_at_typed [simp]:
  "fields_typed c \<Longrightarrow> length b = size_at s c \<Longrightarrow> n < 2 ^ 64 \<Longrightarrow> fields_typed (store_at s b c\<lparr>activeReceiveBufferBytesReceived := n\<rparr>)"
  by (cases s) (simp_all add: fields_typed_def)

lemma swapBuffers_typed [simp]: "fields_typed (rsva11001_connection_swapBuffers c) = fields_typed c"
  by (simp add: rsva11001_connection_swapBuffers_def Let_def)

definition cb_typed :: "(int \<times> bool \<times> rsva11001_connection) res \<Rightarrow> bool" where
  "cb_typed r \<longleftrightarrow> (case r of Inl f \<Rightarrow> True | Inr (ret, paused, c) \<Rightarrow> fields_typed c)"

lemma cb_typed_simps [simp]: "cb_typed (Inl f)" "cb_typed (Inr (ret, paused, c)) = fields_typed c"
  by (simp_all add: cb_typed_def)

lemma recv_complete_typed:
  assumes "fields_typed c"
  shows "cb_typed (recv_complete data totalLength oldSize c)"
proof -
  let ?c = "rsva11001_connection_swapBuffers c"
  have c: "fields_typed ?c" using assms by simp
  show ?thesis
    using c buffer_at_typed[OF c]
    by (auto simp: recv_complete_def Let_def split: option.split intro!: store_at_typed)
qed

lemma recv_frame_typed: "fields_typed c \<Longrightarrow> cb_typed (recv_frame buf data oldSize c)"
  by (simp add: recv_frame_def Let_def recv_complete_typed)

lemma recv_append_typed:
  assumes "fields_typed c" "length buf = size_at s c"
  shows "cb_typed (recv_append s buf bufferSize data c)"
  using assms size_at_typed[OF assms(1), of s]
  by (auto simp: recv_append_def Let_def intro!: recv_frame_typed store_at_typed)

lemma recv_typed: "fields_typed c \<Longrightarrow> cb_typed (rsva11001_connection_recv p data c)"
  by (auto simp: rsva11001_connection_recv_def intro!: recv_append_typed dest: buffer_at_typed split: option.split)

interpretation typed: callback_contract rsva_settings fields_typed "\<lambda>f. True" N for N
proof unfold_locales
  fix g :: "rsva11001_connection http_data_cb" and s d p
  assume "Some g \<in> data_callbacks rsva_settings" "fields_typed s"
  then have "g = rsva11001_connection_recv" "fields_typed s"
    by (simp_all add: data_callbacks_def rsva_settings_def)
  with recv_typed[of s p d] show "callback_ok fields_typed (\<lambda>f. True) (g p d s)"
    by (simp add: callback_ok_def cb_typed_def)
qed (simp add: notify_callbacks_def rsva_settings_def)

section \<open>The other operations\<close>

text \<open>
  The parser of a connection: one that \<^verbatim>\<open>http_parser_execute\<close> accepts, or the zeroed one of
  \<^verbatim>\<open>malloc\<close>, on which the first byte fails an assertion. (It is still there after an \<^verbatim>\<open>open\<close>
  that failed before it came to the parser.)
\<close>

definition known_parser :: "http_parser \<Rightarrow> bool" where
  "known_parser p \<longleftrightarrow> parser_ok p \<or> (\<exists>d. p = zeroed_parser\<lparr>hp_data := d\<rparr>)"

lemma zeroed_parser_fails:
  assumes "data \<noteq> []"
  shows "http_parser_execute st (zeroed_parser\<lparr>hp_data := d\<rparr>) data s = Inl (Assert_failed In_http_parser)"
proof -
  let ?ex = "start_exec (zeroed_parser\<lparr>hp_data := d\<rparr>) s"
  obtain ex1 where ex1: "count_header ?ex = Next ex1" "hp_state (prs ex1) = s_zero"
    by (simp add: count_header_def start_exec_def zeroed_parser_def HTTP_MAX_HEADER_SIZE_def Let_def)
  then have "run_byte st data ch ex1 = Fault (Assert_failed In_http_parser)" for ch
    by (subst run_byte.simps) (simp add: exec_state_def)
  moreover have "pos ?ex = 0" by (simp add: start_exec_def)
  ultimately have "exec_loop st data ?ex = Fault (Assert_failed In_http_parser)"
    using assms ex1(1) by (subst exec_loop.simps) simp
  then show ?thesis using assms by (simp add: http_parser_execute_def zeroed_parser_def)
qed

definition result_typed :: "(bool \<times> rsva11001_connection) option res \<Rightarrow> bool" where
  "result_typed r \<longleftrightarrow> (case r of Inr (Some (b, c)) \<Rightarrow> fields_typed c \<and> known_parser (parser c) | _ \<Rightarrow> True)"

lemma recv_loop_typed: "fields_typed c \<Longrightarrow> known_parser (parser c) \<Longrightarrow> result_typed (recv_loop pf answers c)"
proof (induction pf answers c rule: recv_loop.induct)
  case (2 pf buffer others c)
  show ?case
  proof (cases "parser_ok (parser c)")
    case False
    then obtain d where "parser c = zeroed_parser\<lparr>hp_data := d\<rparr>" using "2.prems"(2) by (auto simp: known_parser_def)
    with zeroed_parser_fails[of buffer rsva_settings d c] "2.prems" show ?thesis by (simp add: result_typed_def)
  next
    case True
    have "call_ok fields_typed (\<lambda>f. True) (http_parser_execute rsva_settings (parser c) buffer c)"
      by (rule typed.http_parser_execute_ok[where N = "length buffer"]) (use "2.prems" True in simp_all)
    with 2 show ?thesis
      by (cases "http_parser_execute rsva_settings (parser c) buffer c")
        (auto simp: result_typed_def call_ok_def known_parser_def)
  qed
qed (simp_all add: result_typed_def)

lemma send_loop_typed:
  "fields_typed c \<Longrightarrow> known_parser (parser c) \<Longrightarrow>
   case send_loop pf answers c of Inr (Some (Returns b c')) \<Rightarrow> fields_typed c' \<and> known_parser (parser c')
   | Inr (Some (Continues c')) \<Rightarrow> fields_typed c' \<and> known_parser (parser c') | _ \<Rightarrow> True"
proof (induction answers arbitrary: c)
  case Nil
  then show ?case by (subst send_loop.simps) (simp split: option.split)
next
  case (Cons f answers)
  have "fields_typed (c\<lparr>bytesWritten := n mod 2 ^ 64\<rparr>)" for n using Cons.prems(1) by (simp add: fields_typed_def)
  with Cons show ?case by (subst send_loop.simps) (simp split: option.split prod.split)
qed

lemma process_typed:
  assumes "fields_typed c" "known_parser (parser c)"
  shows "result_typed (rsva11001_connection_process pf env c)"
proof (cases "check_connected pf env c")
  case (Returns b c')
  then have "fields_typed c' \<and> known_parser (parser c')"
    using assms by (auto simp: check_connected_def Let_def split: if_splits)
  with Returns show ?thesis by (simp add: rsva11001_connection_process_def result_typed_def)
next
  case (Continues c')
  then have c': "fields_typed c'" "known_parser (parser c')"
    using assms by (auto simp: check_connected_def Let_def split: if_splits)
  have r: "result_typed (recv_loop pf (env_recv env) c2)" if "send_loop pf (env_send env) c' = Inr (Some (Continues c2))" for c2
    using send_loop_typed[OF c', of pf "env_send env"] that by (intro recv_loop_typed) simp_all
  have s: "result_typed (Inr (Some (b, c2)))" if "send_loop pf (env_send env) c' = Inr (Some (Returns b c2))" for b c2
    using send_loop_typed[OF c', of pf "env_send env"] that by (simp add: result_typed_def)
  have n: "result_typed (Inl f)" "result_typed (Inr None)" for f by (simp_all add: result_typed_def)
  show ?thesis
    using Continues r s n by (auto simp: rsva11001_connection_process_def rbind_def split: sum.split option.split part.split)
qed

lemma length_snprintf_into: "0 < n \<Longrightarrow> length buf = n \<Longrightarrow> length (snprintf_into n txt buf) = n"
  by (simp add: snprintf_into_def overwrite_def)

lemma length_decimal: "length (decimal n) \<le> n + 1"
proof (induction n rule: decimal.induct)
  case (1 n)
  then show ?case by (subst decimal.simps) auto
qed

lemma http_request_typed:
  assumes "fields_typed c" "length (file_name pf) < 2 ^ 30"
  shows "length (http_request pf c) < 2 ^ 63"
proof -
  have "unat (channel c) < 2 ^ 32" using unsigned_less[of "channel c"] by simp
  then show ?thesis
    using assms length_decimal[of "unat (channel c)"]
    by (simp add: http_request_def fields_typed_def HTTP_PATH_def CRLF_def)
qed

text \<open>What \<^verbatim>\<open>malloc\<close> gives has the size it was asked for.\<close>

definition open_env_typed :: "open_env \<Rightarrow> bool" where
  "open_env_typed env \<longleftrightarrow> sized outputBufferSize (env_malloc_output env) \<and>
     sized BASE_BUFFER_SIZE (env_malloc_pong env) \<and> sized BASE_BUFFER_SIZE (env_malloc_ping env)"

lemma bzero_typed: "bzero_buffer b n = Inr b' \<Longrightarrow> sized n b \<Longrightarrow> sized n b'"
  by (auto simp: bzero_buffer_def split: option.splits if_splits)

lemma open_buffers_typed:
  assumes "fields_typed c" "open_env_typed env" "open_buffers env c = Inr c'"
  shows "fields_typed c' \<and> known_parser (parser c')"
  using assms
  by (auto simp: open_buffers_def Let_def rbind_def fields_typed_def open_env_typed_def BASE_BUFFER_SIZE_def
      http_parser_init_ok known_parser_def split: sum.splits if_splits dest!: bzero_typed)

lemma open_request_typed:
  assumes "fields_typed c" "known_parser (parser c)" "open_env_typed env" "length (file_name pf) < 2 ^ 30" "length out = outputBufferSize"
    "open_request pf env out c = Inr (b, c')"
  shows "fields_typed c' \<and> known_parser (parser c')"
proof -
  let ?txt = "http_request pf c"
  let ?c = "c\<lparr>outputBuffer := Some (snprintf_into outputBufferSize ?txt out)\<rparr>"
  have buf: "length (snprintf_into outputBufferSize ?txt out) = outputBufferSize"
    using assms(5) by (intro length_snprintf_into) (simp_all add: outputBufferSize_def)
  then have c: "fields_typed ?c" using assms(1) by (simp add: fields_typed_def)
  have c2: "fields_typed (?c\<lparr>outputLength := length ?txt, bytesWritten := 0\<rparr>)"
    using c http_request_typed[OF assms(1,4)] by (simp add: fields_typed_def)
  show ?thesis
  proof (cases "length ?txt = outputBufferSize")
    case True
    with assms(2,6) c show ?thesis by (auto simp: open_request_def Let_def)
  next
    case False
    with assms(6) open_buffers_typed[OF c2 assms(3)] show ?thesis
      by (auto simp: open_request_def Let_def rbind_def split: sum.splits)
  qed
qed

lemma open_typed:
  assumes "fields_typed c" "known_parser (parser c)" "open_env_typed env" "length (file_name pf) < 2 ^ 30"
    "rsva11001_connection_open pf env c = Inr (b, c')"
  shows "fields_typed c' \<and> known_parser (parser c')"
proof -
  let ?c = "c\<lparr>sockfd := fst (env_socket env), connected := False\<rparr>"
  have out: "fields_typed c' \<and> known_parser (parser c')"
    if "open_output pf env (c\<lparr>sockfd := fst (env_socket env)\<rparr>) = Inr (b, c')"
  proof (cases "case outputBuffer ?c of None \<Rightarrow> env_malloc_output env | Some b \<Rightarrow> Some b")
    case None
    with that assms(1,2) show ?thesis by (auto simp: open_output_eq Let_def)
  next
    case (Some out)
    moreover from this have "length out = outputBufferSize"
      using assms(1,3) by (auto simp: fields_typed_def open_env_typed_def split: option.splits)
    ultimately show ?thesis
      using open_request_typed[of ?c env pf out b c'] that assms(1-4) by (simp add: open_output_eq Let_def)
  qed
  then show ?thesis
    using assms(1,2,5) by (auto simp: open_eq Let_def split: if_splits)
qed

section \<open>Every use of a connection\<close>

text \<open>
  The connections there are: made by \<^verbatim>\<open>malloc\<close>, then configured, opened (with or without success),
  processed and closed in any order and any number of times.
\<close>

inductive used :: "platform \<Rightarrow> rsva11001_connection \<Rightarrow> bool" for pf where
  made: "rsva11001_connection_malloc (Some (a, garbage)) = Some c \<Longrightarrow> bytesWritten garbage < 2 ^ 64 \<Longrightarrow>
    activeReceiveBufferBytesReceived garbage < 2 ^ 64 \<Longrightarrow> used pf c"
| configures: "used pf c \<Longrightarrow> used pf (snd (rsva11001_connection_configure h u p n c))"
| opens: "used pf c \<Longrightarrow> open_env_typed env \<Longrightarrow> rsva11001_connection_open pf env c = Inr (b, c') \<Longrightarrow> used pf c'"
| processes: "used pf c \<Longrightarrow> rsva11001_connection_process pf penv c = Inr (Some (b, c')) \<Longrightarrow> used pf c'"
| closes: "used pf c \<Longrightarrow> used pf (snd (rsva11001_connection_close pf answer c))"

lemma used_typed:
  assumes "used pf c" "length (file_name pf) < 2 ^ 30"
  shows "fields_typed c \<and> known_parser (parser c)"
  using assms(1)
proof induction
  case (made a garbage c)
  then show ?case by (auto simp: rsva11001_connection_malloc_def fields_typed_def known_parser_def)
next
  case (configures c h u p n)
  then show ?case by (auto simp: rsva11001_connection_configure_def fields_typed_def)
next
  case (opens c env b c')
  with open_typed[of c env pf b c'] assms(2) show ?case by simp
next
  case (processes c penv b c')
  with process_typed[of c pf penv] show ?case by (simp add: result_typed_def)
next
  case (closes c answer)
  then show ?case by (auto simp: rsva11001_connection_close_def)
qed

text \<open>
  C40. The types of a connection. However a connection is used, from \<^verbatim>\<open>malloc\<close> on (configured,
  opened, also in vain, processed with whatever the system answers and the camera sends, closed, in
  any order), its counters and sizes stay numbers of 64 bits, its strings within their arrays, its
  channel at most 9, and each of its buffers has the size the connection says. Its parser is one
  that \<^verbatim>\<open>http_parser_execute\<close> accepts, or still the zeroed one of \<^verbatim>\<open>malloc\<close>. The path in
  \<^verbatim>\<open>__FILE__\<close> is below 2^30 bytes, and an allocation that succeeds has the size asked for.
\<close>

theorem types_kept:
  assumes "used pf c" and "length (file_name pf) < 2 ^ 30"
  shows "outputLength c < 2 ^ 64 \<and> bytesWritten c < 2 ^ 64 \<and> activeReceiveBufferBytesReceived c < 2 ^ 64 \<and>
     pingReceiveBufferSize c < 2 ^ 64 \<and> pongReceiveBufferSize c < 2 ^ 64 \<and>
     length (lastError c) < 256 \<and> length (username c) < 64 \<and> length (password c) < 64 \<and> length (hostname c) < 64 \<and>
     channel c \<le> MAX_CHAN \<and> sized outputBufferSize (outputBuffer c) \<and>
     sized (pingReceiveBufferSize c) (pingReceiveBuffer c) \<and> sized (pongReceiveBufferSize c) (pongReceiveBuffer c) \<and>
     (parser_ok (parser c) \<or> (\<exists>d. parser c = zeroed_parser\<lparr>hp_data := d\<rparr>))"
  using used_typed[OF assms] by (simp add: fields_typed_def known_parser_def)

lemma demo_used: "used demo_platform demo_closed"
proof -
  have m: "rsva11001_connection_malloc (Some (64, demo_connection)) = Some demo_malloc"
    by (simp add: demo_malloc_def rsva11001_connection_malloc_def)
  have "used demo_platform demo_malloc"
    by (rule used.made[OF m]) (simp_all add: demo_connection_def)
  from used.configures[OF this, of "''camera''" "''admin''" "''secret''" 1]
  show ?thesis
    by (simp add: rsva11001_connection_configure_def demo_closed_def demo_malloc_def rsva11001_connection_malloc_def
        MAX_CHAN_def MIN_CHAN_def)
qed

lemma types_kept_witness:
  "\<exists>c'. rsva11001_connection_open demo_platform demo_open_env demo_closed = Inr (True, c') \<and>
     outputLength c' < 2 ^ 64 \<and> sized (pingReceiveBufferSize c') (pingReceiveBuffer c')"
proof -
  have f: "length (file_name demo_platform) \<le> 229" by (simp add: demo_platform_def)
  from open_ok[OF demo_closed_simps(1-4) f] obtain c' where
    c': "rsva11001_connection_open demo_platform demo_open_env demo_closed = Inr (True, c')"
      "sockfd c' = fst (env_socket demo_open_env)" by blast
  have "open_env_typed demo_open_env"
    by (simp add: open_env_typed_def demo_open_env_def demo_buffer_def outputBufferSize_def BASE_BUFFER_SIZE_def zero_buffer_def)
  from used.opens[OF demo_used this c'(1)] have "used demo_platform c'" .
  from types_kept[OF this] c' show ?thesis by (simp add: demo_platform_def demo_open_env_def)
qed

end
