(* ===== verification/Spec2Isabelle.thy ===== *)
theory Spec2Isabelle
  imports Http_Url_Properties Http_Properties Session_Properties Adapter_Liveness Log_Properties Rsva_Types
begin

text \<open>
  A verification development for the RSVA11001 adapter, a C program that reads JPEG images from the
  cameras of an RSVA11001 video recorder over HTTP and serves them to a web server over SCGI.

  \<^bold>\<open>The program and its parts.\<close> \<^verbatim>\<open>main.c\<close> reads its configuration from the environment, makes one
  connection for every camera, and runs a reactor on \<^verbatim>\<open>epoll\<close>: it opens one camera after the
  other, and handles events of the camera, of the signals and of the SCGI server. An event of the
  camera calls \<^verbatim>\<open>rsva11001_connection_process\<close> (\<^verbatim>\<open>rsva11001.c\<close>), which sends the request and
  gives what it receives to \<^verbatim>\<open>http_parser_execute\<close> (\<^verbatim>\<open>http_parser.c\<close>); the parser gives each piece
  of the body to the callback \<^verbatim>\<open>rsva11001_connection_recv\<close>, which puts frames (\<^verbatim>\<open>JPGS\<close>, length, image,
  \<^verbatim>\<open>JPGE\<close>) together in one of two buffers. Once \<^verbatim>\<open>getLatestImage\<close> finds an image the camera is
  closed, the image written to a file, kept as the last one of its number, and sent to the requests
  that wait for it. \<^verbatim>\<open>log.h\<close> holds the macros that write the log.

  \<^bold>\<open>How C is modelled.\<close> \<^theory_text>\<open>Prelude\<close>: a byte is a \<^typ>\<open>char\<close>; a function that can fault (a failed
  assertion, an access outside an object, a null pointer) gives \<^theory_text>\<open>Inl\<close> with the kind and the place
  of the fault, or \<^theory_text>\<open>Inr\<close> with its result, and \<^theory_text>\<open>rbind\<close> is the sequence. A structure is a record that is
  passed and returned, an array of bytes a list, a pointer to such an array an option. The fields of the
  parser are words of their width; the 64-bit numbers of a connection are naturals with the wrap
  written out (\<^theory_text>\<open>usub\<close>), and \<^theory_text>\<open>Rsva_Types\<close> shows that they stay below 2^64. The operating system and
  the SCGI library (sandgrouse, not part of the repository) are arguments: records of the answers to the
  calls a function makes, and lists of answers for calls in a loop. A list that is used up stands for a
  call that has not returned (\<^theory_text>\<open>None\<close>). No function takes fuel: each recursion ends by its structure, by
  a measure (the bytes left in the buffer and the rank of the state, for the two loops of the
  parser), or by the list of answers; that calls return is C37 and C38.

  \<^bold>\<open>The HTTP parser\<close> (\<^verbatim>\<open>http_parser.c\<close>, \<^verbatim>\<open>http_parser.h\<close>). \<^theory_text>\<open>Http_Base\<close>: types, tables, macros, the
  small functions. \<^theory_text>\<open>Http_Url\<close>: the URL character machine. \<^theory_text>\<open>Http_Exec\<close>: the local variables of
  \<^verbatim>\<open>http_parser_execute\<close> and its callback macros. \<^theory_text>\<open>Http_Start\<close>, \<^theory_text>\<open>Http_Headers\<close>, \<^theory_text>\<open>Http_Body\<close>: one
  definition for each state. \<^theory_text>\<open>Http_Execute\<close>: the dispatch, the loop, the end of the buffer.
  \<^theory_text>\<open>Http_Safety\<close> and \<^theory_text>\<open>Http_Invariant\<close>: the invariant of the parser, kept by every state, proved in a
  locale over the contract of the callbacks. \<^theory_text>\<open>Http_Split\<close>: one call on a stream and two calls on its
  parts agree. \<^theory_text>\<open>Http_Run\<close> and \<^theory_text>\<open>Http_Response\<close>: runs on given bytes, the head of a response.
  \<^theory_text>\<open>C_Strings\<close>: \<^verbatim>\<open>strtoul\<close>. \<^theory_text>\<open>Http_Parse_Url\<close>, \<^theory_text>\<open>Http_Url_Fields\<close>, \<^theory_text>\<open>Http_Url_Print\<close>:
  \<^verbatim>\<open>http_parser_parse_url\<close>, where its fields lie, and its inverse. Properties: C4 and C27 to C34.

  \<^bold>\<open>The connection to a camera\<close> (\<^verbatim>\<open>rsva11001.c\<close>). \<^theory_text>\<open>Rsva_Connection\<close>: the record, the callback, the latest
  image, allocation and configuration. \<^theory_text>\<open>Rsva_Session\<close>: \<^verbatim>\<open>open\<close>, \<^verbatim>\<open>process\<close>, \<^verbatim>\<open>close\<close>,
  \<^verbatim>\<open>destroy\<close>. A socket that is closed is forgotten by the connection; \<^theory_text>\<open>rsva11001_connection_open_closing\<close>
  also lists what \<^verbatim>\<open>open\<close> closes when it fails, and \<^theory_text>\<open>rsva11001_connection_open\<close> is its result without that
  list. \<^theory_text>\<open>Rsva_Frames\<close>: the abstract reassembler of frames and the refinement. \<^theory_text>\<open>Rsva_Stream\<close>,
  \<^theory_text>\<open>Rsva_Open\<close>, \<^theory_text>\<open>Rsva_Calls\<close>, \<^theory_text>\<open>Camera_Session\<close>: the invariant of an open connection, streams in any
  pieces, several calls. \<^theory_text>\<open>Rsva_Failures\<close>: what happens to other input. \<^theory_text>\<open>Rsva_Types\<close>: the types.
  Properties: C1 to C3 in \<^theory_text>\<open>Camera_Properties\<close>, C5 to C13 in \<^theory_text>\<open>Camera_Edge_Cases\<close>, C35 in
  \<^theory_text>\<open>Session_Properties\<close>, C37 in \<^theory_text>\<open>Adapter_Liveness\<close>, C40.

  \<^bold>\<open>The adapter\<close> (\<^verbatim>\<open>main.c\<close>). \<^theory_text>\<open>Adapter_State\<close>: the globals, configuration, set-up. \<^theory_text>\<open>Adapter_Serve\<close>:
  the next camera, images and requests. \<^theory_text>\<open>Adapter_Reactor\<close>: events, the two loops, clean-up, \<^verbatim>\<open>main\<close>.
  A pointer to a camera is its index, and the files and responses are fields of the globals.
  \<^theory_text>\<open>Adapter_Images\<close>, \<^theory_text>\<open>Adapter_Safety\<close>, \<^theory_text>\<open>Adapter_Runs\<close>: the effect of publishing an image, the
  invariant and its preservation up to whole runs. Properties: C14 to C18 in \<^theory_text>\<open>Adapter_Properties\<close>, C19
  to C26 in \<^theory_text>\<open>Adapter_Program\<close>, C36 in \<^theory_text>\<open>Session_Properties\<close>, C38 in \<^theory_text>\<open>Adapter_Liveness\<close>.
  Two faults of the adapter have places of their own: the write behind the array of waiting
  requests, and a read behind the buffer of the query, which a library that ends the value with a NUL
  (\<^theory_text>\<open>query_terminated\<close>) excludes.

  \<^bold>\<open>The log\<close> (\<^verbatim>\<open>log.h\<close>). \<^theory_text>\<open>Log\<close>: levels, the formatting of the directives in use, the macros as the calls
  of \<^verbatim>\<open>dprintf\<close> they make. \<^theory_text>\<open>Log_Properties\<close>: C39.

  \<^bold>\<open>Bounds.\<close> Images have at most 32754 bytes (the receive buffer less the frame), and in a stream with
  pieces of \<^verbatim>\<open>recv\<close> at least 16371 (C1): C10 and C11 show what happens beyond. \<^verbatim>\<open>__FILE__\<close> has at most
  229 characters where the request has to fit its 512 bytes: C13 shows what happens beyond.

  \<^bold>\<open>Not modelled.\<close> \<^verbatim>\<open>request.c\<close> and \<^verbatim>\<open>request.h\<close> are not part of the build. The calls of the logging
  macros inside the operations are left out, since they change no state. The sandgrouse library, the kernel
  and the C library beyond the functions above are arguments. The tests, the Python utilities and the
  reverse-engineered applet are not part of the adapter.
\<close>

end
